(* ===== verification/Prelude.thy ===== *)
theory Prelude
  imports Complex_Main "HOL-Library.Multiset"
begin

text \<open>
  Shared vocabulary of the at-boom model: the Rust scalar types as HOL types, the panics
  and SQLite errors the code can raise as datatypes, checked \<open>i64\<close> arithmetic (the
  debug-build semantics of \<open>+\<close>, \<open>-\<close> and \<open>/\<close> on \<open>i64\<close>), Rust's
  \<open>str::parse::<i64>\<close> and \<open>i64::to_string\<close>, and the list lemmas the component
  theories share. Component proofs draw on the collections \<open>i64_simps\<close> and
  \<open>model_simps\<close>.
\<close>

named_theorems i64_simps "facts that evaluate the checked i64 operations"
named_theorems model_simps "definitions of the model unfolded by component proofs"

section \<open>Rust scalar types\<close>

text \<open>
  An \<open>i64\<close> is an \<open>int\<close> that every operation of the model keeps inside
  \<open>[i64_min, i64_max]\<close> by a checked operation; an \<open>f64\<close> that the code only
  carries from the JSON response to the database is a \<open>real\<close> (no arithmetic is done on
  prices, so rounding is irrelevant); a \<open>usize\<close> count is a \<open>nat\<close>.
\<close>

type_synonym i64 = int
type_synonym f64 = real
type_synonym usize = nat

definition i64_min :: int where
  "i64_min = - (2 ^ 63)"

definition i64_max :: int where
  "i64_max = 2 ^ 63 - 1"

definition in_i64 :: "int \<Rightarrow> bool" where
  "in_i64 x \<longleftrightarrow> i64_min \<le> x \<and> x \<le> i64_max"

section \<open>Panics and SQLite errors\<close>

text \<open>
  A panic aborts the process (exit status 101); the model returns it as a value.
  \<open>Unwrap_None\<close> is \<open>Option::unwrap\<close> on \<open>None\<close>, \<open>Unwrap_Err\<close> is
  \<open>Result::unwrap\<close> on \<open>Err\<close>, \<open>Overflow\<close> and
  \<open>Divide_By_Zero\<close> are the arithmetic panics of \<open>i64\<close>, \<open>Invalid_Timestamp\<close>
  is chrono's \<open>Utc.timestamp\<close> on a second count outside its calendar, and
  \<open>Parse_Failed\<close> is \<open>unwrap\<close> of a failed \<open>parse::<i64>\<close>.
\<close>

datatype panic = Unwrap_None | Unwrap_Err | Overflow | Divide_By_Zero | Index_Out_Of_Bounds
  | Invalid_Timestamp | Parse_Failed

text \<open>
  The \<open>rusqlite::Error\<close> values the database layer produces: reading \<open>NULL\<close>
  into an \<open>i64\<close> (\<open>max\<close> over no rows), a statement SQLite refuses to prepare
  (\<open>DELETE \<dots> LIMIT 1\<close> without \<open>SQLITE_ENABLE_UPDATE_DELETE_LIMIT\<close>), a
  uniqueness or \<open>NOT NULL\<close> violation, \<open>QueryReturnedNoRows\<close>, a text value stored
  into the \<open>INTEGER PRIMARY KEY\<close> (\<open>DatatypeMismatch\<close>), a rowid past
  \<open>i64::MAX\<close> (\<open>SqliteFull\<close>, see \<open>BotStore\<close>), a column index past the row
  (\<open>InvalidColumnIndex\<close>), and the error \<open>bot-admin\<close> returns for no command
  (\<open>ExecuteReturnedResults\<close>).
\<close>

datatype sql_error = InvalidColumnType | SqlInputError | ConstraintViolation
  | QueryReturnedNoRows | DatatypeMismatch | SqliteFull | InvalidColumnIndex
  | ExecuteReturnedResults

text \<open>The failure of a database call that may also panic in a row closure.\<close>

datatype fault = Panic panic | Sql sql_error

section \<open>Checked i64 arithmetic\<close>

text \<open>
  Rust's \<open>i64\<close> \<open>+\<close> and \<open>-\<close> panic on overflow in a debug build and wrap in a
  release build; the model takes the checked (debug) reading and proves, where it matters,
  that no overflow happens, so that both builds agree. Division truncates towards zero
  (unlike HOL's \<open>div\<close> on \<open>int\<close>), panics on a zero divisor, and overflows only
  for \<open>i64::MIN / -1\<close>.
\<close>

definition checked_add :: "i64 \<Rightarrow> i64 \<Rightarrow> panic + i64" where
  "checked_add a b = (if in_i64 (a + b) then Inr (a + b) else Inl Overflow)"

definition checked_sub :: "i64 \<Rightarrow> i64 \<Rightarrow> panic + i64" where
  "checked_sub a b = (if in_i64 (a - b) then Inr (a - b) else Inl Overflow)"

definition trunc_div :: "int \<Rightarrow> int \<Rightarrow> int" where
  "trunc_div a b = sgn a * sgn b * (\<bar>a\<bar> div \<bar>b\<bar>)"

definition checked_div :: "i64 \<Rightarrow> i64 \<Rightarrow> panic + i64" where
  "checked_div a b =
     (if b = 0 then Inl Divide_By_Zero
      else if in_i64 (trunc_div a b) then Inr (trunc_div a b) else Inl Overflow)"

section \<open>Threading errors\<close>

text \<open>\<open>?\<close> and a chain of \<open>unwrap\<close>s: the first \<open>Inl\<close> stops the computation.\<close>

definition bind_res :: "'e + 'a \<Rightarrow> ('a \<Rightarrow> 'e + 'b) \<Rightarrow> 'e + 'b" where
  "bind_res r f = (case r of Inl e \<Rightarrow> Inl e | Inr a \<Rightarrow> f a)"

definition unwrap :: "'a option \<Rightarrow> panic + 'a" where
  "unwrap x = (case x of None \<Rightarrow> Inl Unwrap_None | Some a \<Rightarrow> Inr a)"

definition unwrap_result :: "'e + 'a \<Rightarrow> panic + 'a" where
  "unwrap_result r = (case r of Inl _ \<Rightarrow> Inl Unwrap_Err | Inr a \<Rightarrow> Inr a)"

text \<open>\<open>delete \<dots> limit 1\<close> (SQLite built with \<open>SQLITE_ENABLE_UPDATE_DELETE_LIMIT\<close>)
  removes the first matching row in rowid order.\<close>

fun remove_first :: "('a \<Rightarrow> bool) \<Rightarrow> 'a list \<Rightarrow> 'a list" where
  "remove_first P [] = []"
| "remove_first P (x # xs) = (if P x then xs else x # remove_first P xs)"

section \<open>Integers as text\<close>

text \<open>
  \<open>str::parse::<i64>\<close>: an optional \<open>+\<close> or \<open>-\<close>, then at least one ASCII
  digit and nothing else; a value outside \<open>i64\<close> is an error. \<open>i64::to_string\<close>
  prints the decimal digits, with \<open>-\<close> for a negative value.
\<close>

definition digit_value :: "char \<Rightarrow> int option" where
  "digit_value c =
     (let n = (of_char c :: nat) in if 48 \<le> n \<and> n \<le> 57 then Some (int n - 48) else None)"

fun parse_digits :: "int \<Rightarrow> string \<Rightarrow> int option" where
  "parse_digits acc [] = Some acc"
| "parse_digits acc (c # cs) =
     (case digit_value c of None \<Rightarrow> None | Some d \<Rightarrow> parse_digits (10 * acc + d) cs)"

text \<open>The sign and digits, before the range check.\<close>

definition parse_int :: "string \<Rightarrow> int option" where
  "parse_int s =
     (case s of
        [] \<Rightarrow> None
      | c # cs \<Rightarrow>
          if c = CHR ''-'' then
            (if cs = [] then None else map_option uminus (parse_digits 0 cs))
          else if c = CHR ''+'' then
            (if cs = [] then None else parse_digits 0 cs)
          else parse_digits 0 s)"

definition parse_i64 :: "string \<Rightarrow> i64 option" where
  "parse_i64 s = (case parse_int s of None \<Rightarrow> None | Some n \<Rightarrow> if in_i64 n then Some n else None)"

fun nat_digits :: "nat \<Rightarrow> string" where
  "nat_digits n =
     (if n < 10 then [char_of (48 + n)] else nat_digits (n div 10) @ [char_of (48 + n mod 10)])"

definition i64_to_string :: "i64 \<Rightarrow> string" where
  "i64_to_string n = (if n < 0 then CHR ''-'' # nat_digits (nat (- n)) else nat_digits (nat n))"

section \<open>Shared lemmas\<close>

lemma in_i64_iff [i64_simps]: "in_i64 x \<longleftrightarrow> - (2 ^ 63) \<le> x \<and> x \<le> 2 ^ 63 - 1"
  by (simp add: in_i64_def i64_min_def i64_max_def)

lemma checked_add_ok [i64_simps]: "in_i64 (a + b) \<Longrightarrow> checked_add a b = Inr (a + b)"
  by (simp add: checked_add_def)

lemma checked_sub_ok [i64_simps]: "in_i64 (a - b) \<Longrightarrow> checked_sub a b = Inr (a - b)"
  by (simp add: checked_sub_def)

lemma bind_res_simps [simp]:
  "bind_res (Inl e) f = Inl e"
  "bind_res (Inr a) f = f a"
  by (simp_all add: bind_res_def)

lemma in_i64_if_abs_le [i64_simps]: "\<bar>x\<bar> \<le> 2 ^ 62 \<Longrightarrow> in_i64 x"
  by (simp add: in_i64_iff abs_le_iff)

lemma bind_res_cong [fundef_cong]:
  "r = r' \<Longrightarrow> (\<And>a. r' = Inr a \<Longrightarrow> f a = g a) \<Longrightarrow> bind_res r f = bind_res r' g"
  by (cases r') simp_all

lemma bind_res_eq_Inr [simp]:
  "bind_res r f = Inr b \<longleftrightarrow> (\<exists>a. r = Inr a \<and> f a = Inr b)"
  by (cases r) simp_all

lemma unwrap_simps [simp]:
  "unwrap None = Inl Unwrap_None"
  "unwrap (Some a) = Inr a"
  by (simp_all add: unwrap_def)

lemma sorted_le_last_elem: "sorted xs \<Longrightarrow> x \<in> set xs \<Longrightarrow> x \<le> last xs"
  by (induction xs) (auto simp: last_in_set)

lemma sort_eq_Nil_iff [simp]: "sort xs = [] \<longleftrightarrow> xs = []"
  by (metis length_0_conv length_sort)

lemma sorted_Min_hd: "sorted xs \<Longrightarrow> xs \<noteq> [] \<Longrightarrow> Min (set xs) = hd xs"
  by (cases xs) (auto intro!: Min_eqI)

lemma sorted_Max_last: "sorted xs \<Longrightarrow> xs \<noteq> [] \<Longrightarrow> Max (set xs) = last xs"
  by (auto intro!: Max_eqI simp: sorted_le_last_elem)

lemma trunc_div_nonneg:
  assumes "0 \<le> a" and "0 < b"
  shows "trunc_div a b = a div b"
proof (cases "a = 0")
  case True
  then show ?thesis by (simp add: trunc_div_def)
next
  case False
  with assms have "sgn a = 1" and "sgn b = 1" by simp_all
  with assms show ?thesis by (simp add: trunc_div_def)
qed

declare nat_digits.simps [simp del]

lemma nat_digits_small [simp]: "n < 10 \<Longrightarrow> nat_digits n = [char_of (48 + n)]"
  by (simp add: nat_digits.simps)

lemma nat_digits_big [simp]:
  "\<not> n < 10 \<Longrightarrow> nat_digits n = nat_digits (n div 10) @ [char_of (48 + n mod 10)]"
  by (subst nat_digits.simps) simp

lemma parse_digits_append:
  "parse_digits acc (xs @ ys) = (case parse_digits acc xs of None \<Rightarrow> None | Some a \<Rightarrow> parse_digits a ys)"
  by (induction acc xs rule: parse_digits.induct) (simp_all split: option.split)

lemma digit_value_char_of: "d < 10 \<Longrightarrow> digit_value (char_of (48 + d)) = Some (int d)"
  by (simp add: digit_value_def of_char_of)

lemma nat_digits_parse: "parse_digits acc (nat_digits n) = Some (10 ^ length (nat_digits n) * acc + int n)"
proof (induction n arbitrary: acc rule: nat_digits.induct)
  case (1 n)
  show ?case
  proof (cases "n < 10")
    case True
    then show ?thesis by (simp add: digit_value_char_of)
  next
    case False
    let ?L = "length (nat_digits (n div 10))"
    have n: "int n = 10 * int (n div 10) + int (n mod 10)"
      using div_mult_mod_eq [of n 10] by (metis mult.commute of_nat_add of_nat_mult of_nat_numeral)
    have "parse_digits acc (nat_digits n) =
          Some (10 * (10 ^ ?L * acc + int (n div 10)) + int (n mod 10))"
      using False 1 by (simp add: parse_digits_append digit_value_char_of)
    also have "10 * (10 ^ ?L * acc + int (n div 10)) + int (n mod 10) = 10 ^ (Suc ?L) * acc + int n"
      by (subst n) (simp add: algebra_simps)
    finally show ?thesis using False by simp
  qed
qed

lemma char_of_digit_sign:
  assumes "d < (10::nat)"
  shows "char_of (48 + d) \<noteq> CHR ''-''" and "char_of (48 + d) \<noteq> CHR ''+''"
proof -
  have v: "(of_char (char_of (48 + d) :: char) :: nat) = 48 + d" using assms by (simp add: of_char_of)
  show "char_of (48 + d) \<noteq> CHR ''-''"
  proof
    assume "char_of (48 + d) = CHR ''-''"
    then have "(of_char (char_of (48 + d) :: char) :: nat) = 45" by simp
    with v show False by simp
  qed
  show "char_of (48 + d) \<noteq> CHR ''+''"
  proof
    assume "char_of (48 + d) = CHR ''+''"
    then have "(of_char (char_of (48 + d) :: char) :: nat) = 43" by simp
    with v show False by simp
  qed
qed

lemma nat_digits_hd: "\<exists>c cs. nat_digits n = c # cs \<and> c \<noteq> CHR ''-'' \<and> c \<noteq> CHR ''+''"
proof (induction n rule: nat_digits.induct)
  case (1 n)
  show ?case
  proof (cases "n < 10")
    case True
    then show ?thesis using char_of_digit_sign [OF True] by simp
  next
    case False
    then obtain c cs where "nat_digits (n div 10) = c # cs" "c \<noteq> CHR ''-''" "c \<noteq> CHR ''+''"
      using 1 by blast
    with False show ?thesis by simp
  qed
qed

lemma parse_int_to_string: "parse_int (i64_to_string n) = Some n"
proof -
  obtain c cs where d: "nat_digits (nat \<bar>n\<bar>) = c # cs" "c \<noteq> CHR ''-''" "c \<noteq> CHR ''+''"
    using nat_digits_hd by blast
  have p: "parse_digits 0 (c # cs) = Some \<bar>n\<bar>"
    using nat_digits_parse [of 0 "nat \<bar>n\<bar>"] d(1) by simp
  show ?thesis
  proof (cases "n < 0")
    case True
    then have s: "i64_to_string n = CHR ''-'' # c # cs" using d(1) by (simp add: i64_to_string_def)
    show ?thesis using p True by (simp only: s parse_int_def) (simp del: parse_digits.simps)
  next
    case False
    then have s: "i64_to_string n = c # cs" using d(1) by (simp add: i64_to_string_def)
    show ?thesis using p False d(2,3) by (simp only: s parse_int_def) (simp del: parse_digits.simps)
  qed
qed

lemma parse_i64_to_string [simp]: "in_i64 n \<Longrightarrow> parse_i64 (i64_to_string n) = Some n"
  by (simp add: parse_i64_def parse_int_to_string)

lemma parse_i64_range: "parse_i64 s = Some n \<Longrightarrow> in_i64 n"
  by (simp add: parse_i64_def split: option.splits if_splits)

lemma char_of_49: "char_of (49::nat) = CHR ''1''"
  by code_simp

lemma nat_digits_hd_nonzero: "0 < n \<Longrightarrow> hd (nat_digits n) \<noteq> CHR ''0''"
proof (induction n rule: nat_digits.induct)
  case (1 n)
  show ?case
  proof (cases "n < 10")
    case True
    have "of_char (char_of (48 + n) :: char) = (48 + n :: nat)" using True by (simp add: of_char_of)
    moreover have "of_char (CHR ''0'') = (48 :: nat)" by simp
    ultimately show ?thesis using True "1.prems" by (auto simp del: of_char_of)
  next
    case False
    then have p: "0 < n div 10" by simp
    obtain c cs where "nat_digits (n div 10) = c # cs" using nat_digits_hd by blast
    then show ?thesis using "1.IH" [OF False p] False by simp
  qed
qed

lemma set_remove_first: "set (remove_first P xs) \<subseteq> set xs"
  by (induction xs) auto

lemma map_remove_first:
  assumes "\<And>x. P x \<longleftrightarrow> g x = k"
  shows "map g (remove_first P xs) = remove1 k (map g xs)"
  using assms by (induction xs) auto

lemma map_of_remove_first:
  assumes "distinct (map (fst \<circ> h) xs)" and "\<And>x. P x \<longleftrightarrow> fst (h x) = k"
  shows "map_of (map h (remove_first P xs)) = (map_of (map h xs))(k := None)"
  using assms
proof (induction xs)
  case Nil
  then show ?case by simp
next
  case (Cons x xs)
  show ?case
  proof (cases "P x")
    case True
    then have "map_of (map h xs) k = None"
      using Cons.prems by (auto simp: map_of_eq_None_iff)
    then show ?thesis
      using True Cons.prems by (simp add: fun_eq_iff)
  next
    case False
    then show ?thesis
      using Cons by (auto simp: fun_upd_twist)
  qed
qed

lemma unwrap_result_simps [simp]:
  "unwrap_result (Inl e) = Inl Unwrap_Err"
  "unwrap_result (Inr a) = Inr a"
  by (simp_all add: unwrap_result_def)

end
