(* ===== verification/OhlcvStore.thy ===== *)
theory OhlcvStore
  imports Prelude
begin

text \<open>
  The candle store: the \<open>ohlcv\<close> table of the SQLite database behind
  \<open>AtbDB\<close> (\<open>src/app/lib/atb-db/src/lib.rs\<close>) and the four methods on it,
  \<open>get_last_unixtime_from_ohlcv\<close>, \<open>delete_ohlcv\<close>, \<open>insert_ohlcv_list\<close> and
  \<open>get_ohlcv_list\<close>. The table is the list of its rows in rowid order. The schema is not
  part of the repository, so the two schema facts the code's behaviour depends on are
  fields of the state: whether \<open>(exchange, pair, period, unixtime)\<close> is declared unique,
  and whether SQLite accepts \<open>DELETE \<dots> LIMIT 1\<close>. The unique key also decides the
  order of the range read. The period column is taken to have TEXT affinity, so periods
  compare as text; under INTEGER or NUMERIC affinity SQLite would store \<open>060\<close> as
  \<open>60\<close>, which this model does not cover. The theory proves that the
  operations keep the key unique and that, on a table with unique keys, they implement
  the operations of a finite map from candle key to prices.
\<close>

section \<open>Rows and database state\<close>

text \<open>The row tuple of \<open>insert_ohlcv_list\<close> and \<open>get_ohlcv_list\<close>: open, high, low,
  close, volume, unixtime.\<close>

type_synonym ohlcv_tuple = "f64 \<times> f64 \<times> f64 \<times> f64 \<times> f64 \<times> i64"

record ohlcv_row =
  exchange :: string
  pair :: string
  period :: string
  open_price :: f64
  high_price :: f64
  low_price :: f64
  close_price :: f64
  volume :: f64
  unixtime :: i64

record atb_db =
  ohlcv :: "ohlcv_row list"
  ohlcv_unique :: bool
  delete_limit :: bool

type_synonym candle_key = "string \<times> string \<times> string \<times> i64"
type_synonym prices = "f64 \<times> f64 \<times> f64 \<times> f64 \<times> f64"

definition row_key :: "ohlcv_row \<Rightarrow> candle_key" where
  "row_key r = (exchange r, pair r, period r, unixtime r)"

definition row_prices :: "ohlcv_row \<Rightarrow> prices" where
  "row_prices r = (open_price r, high_price r, low_price r, close_price r, volume r)"

definition row_tuple :: "ohlcv_row \<Rightarrow> ohlcv_tuple" where
  "row_tuple r = (open_price r, high_price r, low_price r, close_price r, volume r, unixtime r)"

text \<open>The nine bound parameters of the \<open>INSERT\<close>: the key strings and the record.\<close>

fun row_of :: "string \<Rightarrow> string \<Rightarrow> string \<Rightarrow> ohlcv_tuple \<Rightarrow> ohlcv_row" where
  "row_of ex pa pe (op, hp, lp, cp, vol, t) =
     \<lparr>exchange = ex, pair = pa, period = pe, open_price = op, high_price = hp,
      low_price = lp, close_price = cp, volume = vol, unixtime = t\<rparr>"

text \<open>\<open>record.5\<close>, the bucket time of a row tuple, and its five prices.\<close>

definition tuple_time :: "ohlcv_tuple \<Rightarrow> i64" where
  "tuple_time rec = snd (snd (snd (snd (snd rec))))"

definition tuple_prices :: "ohlcv_tuple \<Rightarrow> prices" where
  "tuple_prices rec = (case rec of (op, hp, lp, cp, vol, t) \<Rightarrow> (op, hp, lp, cp, vol))"

definition matches :: "string \<Rightarrow> string \<Rightarrow> string \<Rightarrow> ohlcv_row \<Rightarrow> bool" where
  "matches ex pa pe r \<longleftrightarrow> exchange r = ex \<and> pair r = pa \<and> period r = pe"

section \<open>Operations\<close>

text \<open>
  \<open>select max(unixtime) from ohlcv where \<dots>\<close> always yields one row; over no rows its
  value is \<open>NULL\<close>, and \<open>row.get::<i64>\<close> of \<open>NULL\<close> fails with
  \<open>InvalidColumnType\<close>.
\<close>

definition get_last_unixtime_from_ohlcv ::
  "atb_db \<Rightarrow> string \<Rightarrow> string \<Rightarrow> string \<Rightarrow> sql_error + i64" where
  "get_last_unixtime_from_ohlcv db ex pa pe =
     (case map unixtime (filter (matches ex pa pe) (ohlcv db)) of
        [] \<Rightarrow> Inl InvalidColumnType
      | ts \<Rightarrow> Inr (Max (set ts)))"

definition delete_ohlcv ::
  "atb_db \<Rightarrow> string \<Rightarrow> string \<Rightarrow> string \<Rightarrow> i64 \<Rightarrow> (sql_error + usize) \<times> atb_db" where
  "delete_ohlcv db ex pa pe t =
     (if \<not> delete_limit db then (Inl SqlInputError, db)
      else
        (let P = (\<lambda>r. matches ex pa pe r \<and> unixtime r = t)
         in (Inr (if list_ex P (ohlcv db) then 1 else 0),
             db\<lparr>ohlcv := remove_first P (ohlcv db)\<rparr>)))"

text \<open>One \<open>tx.execute(sql_insert, \<dots>)\<close>: refused when the schema declares the key
  unique and a row with the same key exists.\<close>

definition insert_ohlcv ::
  "atb_db \<Rightarrow> string \<Rightarrow> string \<Rightarrow> string \<Rightarrow> ohlcv_tuple \<Rightarrow> sql_error + atb_db" where
  "insert_ohlcv db ex pa pe rec =
     (let r = row_of ex pa pe rec
      in if ohlcv_unique db \<and> list_ex (\<lambda>r'. row_key r' = row_key r) (ohlcv db)
         then Inl ConstraintViolation
         else Inr (db\<lparr>ohlcv := ohlcv db @ [r]\<rparr>))"

text \<open>
  The loop of \<open>insert_ohlcv_list\<close>: the result of each \<open>execute\<close> is dropped
  (\<open>let _ = \<dots>\<close>), a refused row leaves the table as it was, and the transaction
  commits whatever was inserted. The method returns nothing.
\<close>

fun insert_ohlcv_list ::
  "atb_db \<Rightarrow> string \<Rightarrow> string \<Rightarrow> string \<Rightarrow> ohlcv_tuple list \<Rightarrow> atb_db" where
  "insert_ohlcv_list db ex pa pe [] = db"
| "insert_ohlcv_list db ex pa pe (rec # recs) =
     insert_ohlcv_list
       (case insert_ohlcv db ex pa pe rec of Inl _ \<Rightarrow> db | Inr db' \<Rightarrow> db') ex pa pe recs"

text \<open>
  The \<open>SELECT\<close> has no \<open>ORDER BY\<close>, so SQLite returns the rows in the order of the access
  path it picks. On a table without the unique key that is a full scan, in rowid order. When
  the schema declares the key \<open>UNIQUE (exchange, pair, period, unixtime)\<close>, the three
  equalities are answered from the key's automatic index, which lists a key's rows by
  \<open>unixtime\<close>.
\<close>

definition get_ohlcv_list ::
  "atb_db \<Rightarrow> string \<Rightarrow> string \<Rightarrow> string \<Rightarrow> sql_error + ohlcv_tuple list" where
  "get_ohlcv_list db ex pa pe =
     (let rows = filter (matches ex pa pe) (ohlcv db)
      in Inr (map row_tuple (if ohlcv_unique db then sort_key unixtime rows else rows)))"

section \<open>Invariant and abstraction\<close>

text \<open>At most one candle per key: the uniqueness the spec asks of the store.\<close>

definition ohlcv_wf :: "atb_db \<Rightarrow> bool" where
  "ohlcv_wf db \<longleftrightarrow> distinct (map row_key (ohlcv db))"

text \<open>The abstract store: a finite map from candle key to the five prices.\<close>

definition candles :: "atb_db \<Rightarrow> candle_key \<rightharpoonup> prices" where
  "candles db = map_of (map (\<lambda>r. (row_key r, row_prices r)) (ohlcv db))"

text \<open>
  The abstract insertion that \<open>insert_ohlcv_list\<close> implements on every schema: a key
  already present keeps its prices (the row is refused, or shadowed by the older row),
  a new key gets the new prices.
\<close>

definition candle_insert :: "(candle_key \<rightharpoonup> prices) \<Rightarrow> candle_key \<Rightarrow> prices \<Rightarrow> (candle_key \<rightharpoonup> prices)" where
  "candle_insert m k v = (if m k = None then m(k \<mapsto> v) else m)"

definition candles_insert_list ::
  "(candle_key \<rightharpoonup> prices) \<Rightarrow> string \<Rightarrow> string \<Rightarrow> string \<Rightarrow> ohlcv_tuple list \<Rightarrow> (candle_key \<rightharpoonup> prices)" where
  "candles_insert_list m ex pa pe recs =
     fold (\<lambda>rec m. candle_insert m (ex, pa, pe, tuple_time rec) (tuple_prices rec)) recs m"

section \<open>Operations against the abstract store\<close>

lemma row_key_row_of [simp]: "row_key (row_of ex pa pe rec) = (ex, pa, pe, tuple_time rec)"
  by (cases rec) (simp add: row_key_def tuple_time_def)

lemma matches_row_of [simp]: "matches ex pa pe (row_of ex pa pe rec)"
  by (cases rec) (simp add: matches_def)

lemma row_tuple_row_of [simp]: "row_tuple (row_of ex pa pe rec) = rec"
  by (cases rec) (simp add: row_tuple_def)

lemma row_prices_row_of [simp]: "row_prices (row_of ex pa pe rec) = tuple_prices rec"
  by (cases rec) (simp add: row_prices_def tuple_prices_def)

lemma keys_of_db: "dom (candles db) = set (map row_key (ohlcv db))"
  by (simp add: candles_def dom_map_of_conv_image_fst image_image)

lemma matches_time_iff:
  "(matches ex pa pe r \<and> unixtime r = t) \<longleftrightarrow> row_key r = (ex, pa, pe, t)"
  by (auto simp: matches_def row_key_def)

lemma candles_delete:
  assumes "ohlcv_wf db" and "delete_limit db"
  shows "candles (snd (delete_ohlcv db ex pa pe t)) = (candles db)((ex, pa, pe, t) := None)"
proof -
  let ?h = "\<lambda>r. (row_key r, row_prices r)"
  have "map_of (map ?h (remove_first (\<lambda>r. matches ex pa pe r \<and> unixtime r = t) (ohlcv db))) =
          (map_of (map ?h (ohlcv db)))((ex, pa, pe, t) := None)"
    using assms(1) by (intro map_of_remove_first) (simp_all add: ohlcv_wf_def comp_def matches_time_iff)
  then show ?thesis
    using assms(2) by (simp add: delete_ohlcv_def candles_def Let_def)
qed

lemma delete_ohlcv_count:
  assumes "delete_limit db"
  shows "fst (delete_ohlcv db ex pa pe t) = Inr (if (ex, pa, pe, t) \<in> dom (candles db) then 1 else 0)"
proof -
  have "list_ex (\<lambda>r. matches ex pa pe r \<and> unixtime r = t) (ohlcv db) \<longleftrightarrow>
          (ex, pa, pe, t) \<in> set (map row_key (ohlcv db))"
    by (force simp: list_ex_iff matches_time_iff)
  moreover have "dom (candles db) = set (map row_key (ohlcv db))"
    by (simp add: candles_def dom_map_of_conv_image_fst image_image)
  ultimately show ?thesis
    using assms by (simp add: delete_ohlcv_def Let_def)
qed

lemma delete_ohlcv_wf:
  assumes "ohlcv_wf db"
  shows "ohlcv_wf (snd (delete_ohlcv db ex pa pe t))"
proof -
  have "map row_key (remove_first (\<lambda>r. matches ex pa pe r \<and> unixtime r = t) (ohlcv db)) =
          remove1 (ex, pa, pe, t) (map row_key (ohlcv db))"
    by (intro map_remove_first) (simp add: matches_time_iff)
  then show ?thesis
    using assms by (simp add: delete_ohlcv_def ohlcv_wf_def Let_def)
qed

lemma insert_ohlcv_fields:
  "insert_ohlcv db ex pa pe rec = Inr db' \<Longrightarrow>
     ohlcv db' = ohlcv db @ [row_of ex pa pe rec] \<and> ohlcv_unique db' = ohlcv_unique db \<and>
     delete_limit db' = delete_limit db"
  by (auto simp: insert_ohlcv_def Let_def split: if_splits)

lemma candles_append:
  "candles (db\<lparr>ohlcv := ohlcv db @ [r]\<rparr>) = candle_insert (candles db) (row_key r) (row_prices r)"
  by (auto simp: candles_def candle_insert_def map_add_def fun_eq_iff split: option.splits)

lemma list_ex_key_iff: "list_ex (\<lambda>r'. row_key r' = k) (ohlcv db) \<longleftrightarrow> k \<in> dom (candles db)"
  by (auto simp: keys_of_db list_ex_iff)

lemma candles_insert_ohlcv:
  "candles (case insert_ohlcv db ex pa pe rec of Inl _ \<Rightarrow> db | Inr db' \<Rightarrow> db') =
     candle_insert (candles db) (ex, pa, pe, tuple_time rec) (tuple_prices rec)"
proof (cases "ohlcv_unique db \<and> (ex, pa, pe, tuple_time rec) \<in> dom (candles db)")
  case True
  then show ?thesis
    by (auto simp: insert_ohlcv_def Let_def candle_insert_def list_ex_key_iff)
next
  case False
  then show ?thesis
    using candles_append [of db "row_of ex pa pe rec"]
    by (auto simp: insert_ohlcv_def Let_def list_ex_key_iff)
qed

lemma candles_insert_ohlcv_list:
  "candles (insert_ohlcv_list db ex pa pe recs) = candles_insert_list (candles db) ex pa pe recs"
  by (induction recs arbitrary: db) (simp_all add: candles_insert_list_def candles_insert_ohlcv)

lemma insert_ohlcv_list_flags:
  "ohlcv_unique (insert_ohlcv_list db ex pa pe recs) = ohlcv_unique db \<and>
   delete_limit (insert_ohlcv_list db ex pa pe recs) = delete_limit db"
  by (induction recs arbitrary: db)
    (auto simp: insert_ohlcv_def Let_def split: sum.splits if_splits)

lemma insert_ohlcv_list_unique_wf:
  "ohlcv_unique db \<Longrightarrow> ohlcv_wf db \<Longrightarrow> ohlcv_wf (insert_ohlcv_list db ex pa pe recs)"
proof (induction recs arbitrary: db)
  case Nil
  then show ?case by simp
next
  case (Cons rec recs)
  let ?db' = "case insert_ohlcv db ex pa pe rec of Inl _ \<Rightarrow> db | Inr db' \<Rightarrow> db'"
  have "ohlcv_unique ?db' \<and> ohlcv_wf ?db'"
    using Cons.prems
    by (auto simp: insert_ohlcv_def Let_def ohlcv_wf_def list_ex_iff image_iff)
  then show ?case
    using Cons.IH by simp
qed

lemma insert_ohlcv_list_fresh:
  assumes "distinct (map tuple_time recs)"
    and "\<forall>rec \<in> set recs. (ex, pa, pe, tuple_time rec) \<notin> dom (candles db)"
  shows "ohlcv (insert_ohlcv_list db ex pa pe recs) = ohlcv db @ map (row_of ex pa pe) recs"
  using assms
proof (induction recs arbitrary: db)
  case Nil
  then show ?case by simp
next
  case (Cons rec recs)
  let ?db' = "db\<lparr>ohlcv := ohlcv db @ [row_of ex pa pe rec]\<rparr>"
  have step: "insert_ohlcv db ex pa pe rec = Inr ?db'"
    using Cons.prems(2) by (simp add: insert_ohlcv_def list_ex_key_iff)
  have dom: "dom (candles ?db') = insert (ex, pa, pe, tuple_time rec) (dom (candles db))"
    using Cons.prems(2) by (auto simp: candles_append candle_insert_def)
  have "tuple_time rec \<notin> tuple_time ` set recs"
    using Cons.prems(1) by simp
  then have "\<forall>r \<in> set recs. tuple_time r \<noteq> tuple_time rec"
    by (metis image_eqI)
  then have "\<forall>r \<in> set recs. (ex, pa, pe, tuple_time r) \<notin> dom (candles ?db')"
    using Cons.prems(2) unfolding dom by simp
  then have "ohlcv (insert_ohlcv_list ?db' ex pa pe recs) = ohlcv ?db' @ map (row_of ex pa pe) recs"
    using Cons.prems(1) by (intro Cons.IH) simp_all
  then show ?case
    using step by simp
qed

lemma get_last_unixtime_keys:
  "set (map unixtime (filter (matches ex pa pe) (ohlcv db))) = {t. (ex, pa, pe, t) \<in> dom (candles db)}"
  by (auto simp: keys_of_db matches_def row_key_def image_iff)

lemma get_last_unixtime_max:
  "get_last_unixtime_from_ohlcv db ex pa pe =
     (if {t. (ex, pa, pe, t) \<in> dom (candles db)} = {} then Inl InvalidColumnType
      else Inr (Max {t. (ex, pa, pe, t) \<in> dom (candles db)}))"
proof (cases "map unixtime (filter (matches ex pa pe) (ohlcv db))")
  case Nil
  then have "{t. (ex, pa, pe, t) \<in> dom (candles db)} = {}"
    using get_last_unixtime_keys [of ex pa pe db] by simp
  then show ?thesis
    using Nil by (simp add: get_last_unixtime_from_ohlcv_def)
next
  case (Cons t ts)
  then have "{t. (ex, pa, pe, t) \<in> dom (candles db)} = set (t # ts)"
    using get_last_unixtime_keys [of ex pa pe db] by simp
  then show ?thesis
    using Cons by (simp add: get_last_unixtime_from_ohlcv_def)
qed

section \<open>Properties of the candle store\<close>

text \<open>
  Claim C11. On a table with unique candle keys whose SQLite accepts \<open>DELETE \<dots> LIMIT 1\<close>,
  \<open>delete_ohlcv\<close> removes exactly the candle of the given key from the abstract store,
  reports 1 if it was there and 0 otherwise, and keeps the keys unique.
\<close>

theorem delete_ohlcv_refines:
  assumes "ohlcv_wf db" and "delete_limit db"
  shows "fst (delete_ohlcv db ex pa pe t) = Inr (if (ex, pa, pe, t) \<in> dom (candles db) then 1 else 0) \<and>
         candles (snd (delete_ohlcv db ex pa pe t)) = (candles db)((ex, pa, pe, t) := None) \<and>
         ohlcv_wf (snd (delete_ohlcv db ex pa pe t))"
  using delete_ohlcv_count [OF assms(2)] candles_delete [OF assms] delete_ohlcv_wf [OF assms(1)]
  by simp

theorem delete_ohlcv_refines_witness:
  "fst (delete_ohlcv \<lparr>ohlcv = [row_of ''bitflyer'' ''btcjpy'' ''60'' (1, 2, 0, 1, 5, 500)],
                       ohlcv_unique = False, delete_limit = True\<rparr> ''bitflyer'' ''btcjpy'' ''60'' 500) = Inr 1 \<and>
   candles (snd (delete_ohlcv \<lparr>ohlcv = [row_of ''bitflyer'' ''btcjpy'' ''60'' (1, 2, 0, 1, 5, 500)],
                       ohlcv_unique = False, delete_limit = True\<rparr> ''bitflyer'' ''btcjpy'' ''60'' 500)) = Map.empty"
proof -
  let ?db = "\<lparr>ohlcv = [row_of ''bitflyer'' ''btcjpy'' ''60'' (1, 2, 0, 1, 5, 500)],
              ohlcv_unique = False, delete_limit = True\<rparr>"
  have wf: "ohlcv_wf ?db" by (simp add: ohlcv_wf_def)
  have "candles ?db = [(''bitflyer'', ''btcjpy'', ''60'', 500) \<mapsto> (1, 2, 0, 1, 5)]"
    by (simp add: candles_def row_key_def row_prices_def)
  then show ?thesis
    using delete_ohlcv_refines [OF wf, of "''bitflyer''" "''btcjpy''" "''60''" 500] by simp
qed

text \<open>
  Claim C12. Whatever the schema, \<open>insert_ohlcv_list\<close> acts on the abstract store as
  first-write-wins insertion of each record in turn, and on a schema with a unique key it
  keeps the keys unique.
\<close>

theorem insert_ohlcv_list_refines:
  "candles (insert_ohlcv_list db ex pa pe recs) = candles_insert_list (candles db) ex pa pe recs \<and>
   (ohlcv_unique db \<and> ohlcv_wf db \<longrightarrow> ohlcv_wf (insert_ohlcv_list db ex pa pe recs))"
  using candles_insert_ohlcv_list insert_ohlcv_list_unique_wf by blast

theorem insert_ohlcv_list_refines_witness:
  "candles (insert_ohlcv_list \<lparr>ohlcv = [], ohlcv_unique = True, delete_limit = True\<rparr>
             ''bitflyer'' ''btcjpy'' ''60'' [(1, 2, 0, 1, 5, 500)]) =
     [(''bitflyer'', ''btcjpy'', ''60'', 500) \<mapsto> (1, 2, 0, 1, 5)] \<and>
   ohlcv_wf (insert_ohlcv_list \<lparr>ohlcv = [], ohlcv_unique = True, delete_limit = True\<rparr>
             ''bitflyer'' ''btcjpy'' ''60'' [(1, 2, 0, 1, 5, 500)])"
  using insert_ohlcv_list_refines [of "\<lparr>ohlcv = [], ohlcv_unique = True, delete_limit = True\<rparr>"
      "''bitflyer''" "''btcjpy''" "''60''" "[(1, 2, 0, 1, 5, 500)]"]
  by (simp add: candles_insert_list_def candle_insert_def candles_def ohlcv_wf_def
      tuple_time_def tuple_prices_def)


text \<open>
  Claim C16. Inserting a candle whose key is already stored is never reported: on a schema
  with a unique key the table is left exactly as it was (the new prices are dropped), and
  without one the table ends with two rows for the key.
\<close>

theorem insert_ohlcv_list_duplicate:
  assumes "(ex, pa, pe, tuple_time rec) \<in> dom (candles db)"
  shows "(ohlcv_unique db \<longrightarrow> insert_ohlcv_list db ex pa pe [rec] = db) \<and>
         (\<not> ohlcv_unique db \<longrightarrow> \<not> ohlcv_wf (insert_ohlcv_list db ex pa pe [rec]))"
proof -
  have "(ex, pa, pe, tuple_time rec) \<in> set (map row_key (ohlcv db))"
    using assms by (simp add: keys_of_db)
  then show ?thesis
    using assms by (auto simp: insert_ohlcv_def Let_def list_ex_key_iff ohlcv_wf_def)
qed

theorem insert_ohlcv_list_duplicate_witness:
  "insert_ohlcv_list \<lparr>ohlcv = [row_of ''bitflyer'' ''btcjpy'' ''60'' (1, 2, 0, 1, 5, 500)],
                       ohlcv_unique = True, delete_limit = True\<rparr> ''bitflyer'' ''btcjpy'' ''60'' [(7, 8, 6, 7, 9, 500)] =
     \<lparr>ohlcv = [row_of ''bitflyer'' ''btcjpy'' ''60'' (1, 2, 0, 1, 5, 500)],
      ohlcv_unique = True, delete_limit = True\<rparr>"
proof -
  let ?db = "\<lparr>ohlcv = [row_of ''bitflyer'' ''btcjpy'' ''60'' (1, 2, 0, 1, 5, 500)],
              ohlcv_unique = True, delete_limit = True\<rparr>"
  have "(''bitflyer'', ''btcjpy'', ''60'', tuple_time (7, 8, 6, 7, 9, 500)) \<in> dom (candles ?db)"
    by (simp add: candles_def row_key_def tuple_time_def)
  from insert_ohlcv_list_duplicate [OF this] show ?thesis by simp
qed

end
