(* ===== verification/GapAnalysis.thy ===== *)
theory GapAnalysis
  imports Prelude
begin

text \<open>
  The gap analyzer: the tail of \<open>store_ohlcv_to_database\<close>
  (\<open>src/app/src/fetch-ohlcv-rs/src/main.rs\<close>, lines 204--227), which sorts the fetched
  bucket times, walks them with an expected time \<open>head_unixtime\<close> that advances by the
  period, and prints and sums a count for every place where the expected time is not the
  next bucket. Every \<open>i64\<close> operation is checked (\<open>Prelude.checked_add\<close> and
  kin), and \<open>Utc.timestamp\<close>, which the loop calls on both ends of a gap to print them,
  panics outside chrono's calendar. The theory proves what the loop returns on every
  sorted input (\<open>count_lacks_run\<close>), that it never panics on realistic inputs, what its
  total means on a gap-free grid, and what it reports on duplicated or misaligned input.
\<close>

section \<open>chrono's timestamp range\<close>

text \<open>
  \<open>Utc.timestamp(secs, 0)\<close> panics unless \<open>secs\<close> falls between
  \<open>-262144-01-01T00:00:00\<close> and \<open>+262143-12-31T23:59:59\<close>, chrono's calendar.
\<close>

definition chrono_min :: i64 where
  "chrono_min = -8334632851200"

definition chrono_max :: i64 where
  "chrono_max = 8210298412799"

definition chrono_ok :: "i64 \<Rightarrow> bool" where
  "chrono_ok t \<longleftrightarrow> chrono_min \<le> t \<and> t \<le> chrono_max"

definition utc_timestamp :: "i64 \<Rightarrow> panic + i64" where
  "utc_timestamp t = (if chrono_ok t then Inr t else Inl Invalid_Timestamp)"

section \<open>The loop\<close>

text \<open>
  The loop state: the expected time, the running total \<open>lack\<close>, and the lines printed
  so far, one \<open>(head_unixtime, lacks[i], now_lack)\<close> per gap.
\<close>

record lack_state =
  head_unixtime :: i64
  lack :: i64
  lack_reports :: "(i64 \<times> i64 \<times> i64) list"

fun lack_loop :: "i64 \<Rightarrow> i64 list \<Rightarrow> lack_state \<Rightarrow> panic + lack_state" where
  "lack_loop i_period [] s = Inr s"
| "lack_loop i_period (t # ts) s =
     bind_res (checked_add (head_unixtime s) i_period) (\<lambda>h.
       if h = t then lack_loop i_period ts (s\<lparr>head_unixtime := h\<rparr>)
       else
         bind_res (utc_timestamp h) (\<lambda>_.
         bind_res (utc_timestamp t) (\<lambda>_.
         bind_res (checked_sub t h) (\<lambda>d.
         bind_res (checked_div d i_period) (\<lambda>now_lack.
         bind_res (checked_add (lack s) now_lack) (\<lambda>l.
           lack_loop i_period ts
             \<lparr>head_unixtime = t, lack = l,
              lack_reports = lack_reports s @ [(h, t, now_lack)]\<rparr>))))))"

text \<open>\<open>lacks[0] - i_period\<close>, then the loop over all of \<open>lacks\<close>.\<close>

definition count_lacks :: "i64 \<Rightarrow> i64 list \<Rightarrow> panic + lack_state" where
  "count_lacks i_period lacks =
     (case lacks of
        [] \<Rightarrow> Inl Index_Out_Of_Bounds
      | l0 # _ \<Rightarrow>
          bind_res (checked_sub l0 i_period) (\<lambda>h0.
            lack_loop i_period lacks \<lparr>head_unixtime = h0, lack = 0, lack_reports = []\<rparr>))"

text \<open>\<open>lacks.sort()\<close> (line 204) followed by the count.\<close>

definition gap_analysis :: "i64 \<Rightarrow> i64 list \<Rightarrow> panic + lack_state" where
  "gap_analysis i_period lacks = count_lacks i_period (sort lacks)"

section \<open>Reference: what the loop computes\<close>

text \<open>
  Between neighbours \<open>a\<close> and \<open>b\<close> of the sorted list the loop expects \<open>a + p\<close>;
  when \<open>b\<close> differs it reports the range from \<open>a + p\<close> to \<open>b\<close> with count
  \<open>(b - (a + p)) / p\<close>, Rust's truncating division. These are the reference functions.
\<close>

definition pair_gap :: "i64 \<Rightarrow> i64 \<times> i64 \<Rightarrow> i64" where
  "pair_gap p ab = (case ab of (a, b) \<Rightarrow> trunc_div (b - (a + p)) p)"

definition gap_total :: "i64 \<Rightarrow> i64 list \<Rightarrow> i64" where
  "gap_total p xs = sum_list (map (pair_gap p) (zip xs (tl xs)))"

definition gap_ranges :: "i64 \<Rightarrow> i64 list \<Rightarrow> (i64 \<times> i64 \<times> i64) list" where
  "gap_ranges p xs =
     map (\<lambda>(a, b). (a + p, b, pair_gap p (a, b)))
       (filter (\<lambda>(a, b). a + p \<noteq> b) (zip xs (tl xs)))"

text \<open>
  The bounds under which nothing panics: a positive period, and every bucket time and
  its successor on the grid inside chrono's calendar (about 260000 years either side of
  1970, so every real candle time), and a list shorter than \<open>2^62\<close>.
\<close>

definition lack_bounds :: "i64 \<Rightarrow> i64 list \<Rightarrow> bool" where
  "lack_bounds p xs \<longleftrightarrow>
     0 < p \<and> (\<forall>x \<in> set xs. chrono_ok x \<and> chrono_ok (x + p)) \<and> length xs \<le> 2 ^ 62"

section \<open>Reference: the missing buckets\<close>

text \<open>
  What the spec asks the analyzer to count: the points of the period grid from the first
  to the last bucket that are not in the batch.
\<close>

definition grid :: "i64 \<Rightarrow> i64 \<Rightarrow> i64 \<Rightarrow> i64 set" where
  "grid p lo hi = set (map (\<lambda>k. lo + int k * p) [0..<Suc (nat ((hi - lo) div p))])"

definition missing_buckets :: "i64 \<Rightarrow> i64 list \<Rightarrow> i64 set" where
  "missing_buckets p xs = grid p (Min (set xs)) (Max (set xs)) - set xs"

section \<open>Arithmetic of one step\<close>

lemma chrono_ok_bound: "chrono_ok x \<Longrightarrow> - (2 ^ 43) < x \<and> x < 2 ^ 43"
  by (simp add: chrono_ok_def chrono_min_def chrono_max_def)

lemma utc_timestamp_ok: "chrono_ok t \<Longrightarrow> utc_timestamp t = Inr t"
  by (simp add: utc_timestamp_def)

lemma trunc_div_abs_le:
  assumes "0 < b"
  shows "\<bar>trunc_div a b\<bar> \<le> \<bar>a\<bar>"
proof -
  have nn: "0 \<le> \<bar>a\<bar> div b"
    using assms by (simp add: pos_imp_zdiv_nonneg_iff)
  have "\<bar>trunc_div a b\<bar> = \<bar>sgn a\<bar> * (\<bar>a\<bar> div b)"
    using assms nn by (simp add: trunc_div_def abs_mult)
  also have "\<dots> \<le> \<bar>a\<bar> div b"
    using nn by (cases "a = 0") simp_all
  also have "\<dots> \<le> \<bar>a\<bar>"
    by (cases "a = 0") (simp_all add: int_div_le_self)
  finally show ?thesis .
qed

text \<open>Between sorted neighbours a count is at least \<open>-1\<close> and at most their distance.\<close>

lemma pair_gap_bounds:
  assumes "0 < p" and "a \<le> b"
  shows "- 1 \<le> pair_gap p (a, b) \<and> pair_gap p (a, b) \<le> b - a"
proof (cases "0 \<le> b - (a + p)")
  case True
  then have eq: "pair_gap p (a, b) = (b - (a + p)) div p"
    using assms by (simp add: pair_gap_def trunc_div_nonneg)
  have "(b - (a + p)) div p \<le> b - (a + p)"
    using True by (cases "b - (a + p) = 0") (simp_all add: int_div_le_self)
  moreover have "0 \<le> (b - (a + p)) div p"
    using True assms by (simp add: pos_imp_zdiv_nonneg_iff)
  ultimately show ?thesis using eq assms by simp
next
  case False
  let ?d = "b - (a + p)"
  have "\<bar>?d\<bar> \<le> p" "?d < 0"
    using False assms by simp_all
  then have le1: "\<bar>?d\<bar> div p \<le> 1"
    using assms zdiv_mono1 [of "\<bar>?d\<bar>" p p] by simp
  have "pair_gap p (a, b) = - (\<bar>?d\<bar> div p)"
    using \<open>?d < 0\<close> assms by (simp add: pair_gap_def trunc_div_def)
  moreover have "0 \<le> \<bar>?d\<bar> div p"
    using assms by (simp add: pos_imp_zdiv_nonneg_iff)
  ultimately show ?thesis using le1 assms by simp
qed

lemma pair_gap_same: "0 < p \<Longrightarrow> pair_gap p (a, a) = - 1"
  by (simp add: pair_gap_def trunc_div_def)

lemma pair_gap_aligned:
  assumes "0 < p" and "a < t" and "p dvd (t - a)"
  shows "pair_gap p (a, t) = (t - a) div p - 1"
proof -
  have le: "p \<le> t - a"
    using assms by (simp add: zdvd_imp_le)
  then have "pair_gap p (a, t) = (t - a - p) div p"
    using assms(1) by (simp add: pair_gap_def trunc_div_nonneg diff_diff_eq)
  also have "\<dots> = (t - a) div p - 1"
    using div_pos_geq [OF assms(1) le] by simp
  finally show ?thesis .
qed

lemma checked_div_pair_gap:
  assumes "0 < p" and "chrono_ok (a + p)" and "chrono_ok t"
  shows "checked_div (t - (a + p)) p = Inr (pair_gap p (a, t))"
proof -
  have "\<bar>trunc_div (t - (a + p)) p\<bar> \<le> \<bar>t - (a + p)\<bar>"
    using assms(1) by (rule trunc_div_abs_le)
  moreover have "\<bar>t - (a + p)\<bar> < 2 ^ 44"
    using chrono_ok_bound [OF assms(2)] chrono_ok_bound [OF assms(3)] by (simp add: abs_less_iff)
  ultimately have "in_i64 (trunc_div (t - (a + p)) p)"
    by (intro in_i64_if_abs_le) simp
  then show ?thesis
    using assms(1) by (simp add: checked_div_def pair_gap_def)
qed

lemma gap_total_Cons2 [simp]:
  "gap_total p (a # t # ts) = pair_gap p (a, t) + gap_total p (t # ts)"
  by (simp add: gap_total_def)

lemma gap_ranges_Cons2 [simp]:
  "gap_ranges p (a # t # ts) =
     (if a + p = t then [] else [(a + p, t, pair_gap p (a, t))]) @ gap_ranges p (t # ts)"
  by (simp add: gap_ranges_def)

lemma gap_single [simp]: "gap_total p [a] = 0" "gap_ranges p [a] = []"
  by (simp_all add: gap_total_def gap_ranges_def)

lemma gap_total_Cons_hd:
  "ys \<noteq> [] \<Longrightarrow> gap_total p (x # ys) = pair_gap p (x, hd ys) + gap_total p ys"
  by (cases ys) simp_all

lemmas lack_eval = count_lacks_def checked_add_def checked_sub_def checked_div_def
  utc_timestamp_def chrono_ok_def chrono_min_def chrono_max_def in_i64_iff trunc_div_def

section \<open>The loop on sorted input\<close>

text \<open>
  One induction over the rest of the list, from the element the loop last resynchronised
  to (\<open>a\<close>) with the running total \<open>L\<close>: the loop returns the reference values, and
  the two bounds on \<open>L\<close> keep every addition inside \<open>i64\<close> (each count is at least
  \<open>-1\<close> and the counts telescope to at most the distance covered).
\<close>

lemma lack_loop_run:
  assumes "sorted (a # ts)" and "0 < p"
    and "\<forall>x \<in> set (a # ts). chrono_ok x \<and> chrono_ok (x + p)"
    and "- (2 ^ 62) \<le> L - int (length ts)" and "L + (last (a # ts) - a) \<le> 2 ^ 62"
  shows "lack_loop p ts \<lparr>head_unixtime = a, lack = L, lack_reports = R\<rparr> =
           Inr \<lparr>head_unixtime = last (a # ts), lack = L + gap_total p (a # ts),
                lack_reports = R @ gap_ranges p (a # ts)\<rparr>"
  using assms
proof (induction ts arbitrary: a L R)
  case Nil
  then show ?case by simp
next
  case (Cons t ts)
  have at: "a \<le> t" and st: "sorted (t # ts)"
    using Cons.prems(1) by simp_all
  have tl: "t \<le> last (t # ts)"
    using sorted_le_last_elem [OF st, of t] by simp
  have ch: "chrono_ok a" "chrono_ok (a + p)" "chrono_ok t"
    using Cons.prems(3) by simp_all
  then have h: "checked_add a p = Inr (a + p)"
    using chrono_ok_bound [of "a + p"] by (simp add: i64_simps)
  have all_t: "\<forall>x \<in> set (t # ts). chrono_ok x \<and> chrono_ok (x + p)"
    using Cons.prems(3) by simp
  show ?case
  proof (cases "a + p = t")
    case True
    have "lack_loop p ts \<lparr>head_unixtime = t, lack = L, lack_reports = R\<rparr> =
           Inr \<lparr>head_unixtime = last (t # ts), lack = L + gap_total p (t # ts),
                lack_reports = R @ gap_ranges p (t # ts)\<rparr>"
      using st Cons.prems(2) all_t Cons.prems(4,5) at by (intro Cons.IH) simp_all
    then show ?thesis
      using h True by (simp add: pair_gap_def trunc_div_def)
  next
    case False
    let ?n = "pair_gap p (a, t)"
    have nb: "- 1 \<le> ?n" "?n \<le> t - a"
      using pair_gap_bounds [OF Cons.prems(2) at] by simp_all
    have sub: "checked_sub t (a + p) = Inr (t - (a + p))"
      using ch chrono_ok_bound [of t] chrono_ok_bound [of "a + p"] by (simp add: i64_simps)
    have dv: "checked_div (t - (a + p)) p = Inr ?n"
      using Cons.prems(2) ch(2,3) by (rule checked_div_pair_gap)
    have ad: "checked_add L ?n = Inr (L + ?n)"
      using nb Cons.prems(4,5) tl by (simp add: i64_simps)
    have "lack_loop p ts \<lparr>head_unixtime = t, lack = L + ?n, lack_reports = R @ [(a + p, t, ?n)]\<rparr> =
           Inr \<lparr>head_unixtime = last (t # ts), lack = L + ?n + gap_total p (t # ts),
                lack_reports = (R @ [(a + p, t, ?n)]) @ gap_ranges p (t # ts)\<rparr>"
      using st Cons.prems(2) all_t Cons.prems(4,5) nb tl by (intro Cons.IH) simp_all
    then show ?thesis
      using h False ch sub dv ad by (simp add: utc_timestamp_ok add.assoc)
  qed
qed

lemma count_lacks_run:
  assumes "sorted xs" and "xs \<noteq> []" and "lack_bounds p xs"
  shows "count_lacks p xs =
           Inr \<lparr>head_unixtime = last xs, lack = gap_total p xs, lack_reports = gap_ranges p xs\<rparr>"
proof -
  obtain a ts where xs: "xs = a # ts"
    using assms(2) by (cases xs) auto
  have p: "0 < p" and ch: "\<forall>x \<in> set (a # ts). chrono_ok x \<and> chrono_ok (x + p)"
    and len: "length (a # ts) \<le> 2 ^ 62"
    using assms(3) xs by (simp_all add: lack_bounds_def)
  have ca: "chrono_ok a" "chrono_ok (a + p)" "chrono_ok (last (a # ts))"
    using ch last_in_set [of "a # ts"] by simp_all
  have sub: "checked_sub a p = Inr (a - p)"
    using chrono_ok_bound [OF ca(1)] chrono_ok_bound [OF ca(2)] by (simp add: i64_simps)
  have add: "checked_add (a - p) p = Inr a"
    using chrono_ok_bound [OF ca(1)] by (simp add: i64_simps)
  have "lack_loop p ts \<lparr>head_unixtime = a, lack = 0, lack_reports = []\<rparr> =
          Inr \<lparr>head_unixtime = last (a # ts), lack = 0 + gap_total p (a # ts),
               lack_reports = [] @ gap_ranges p (a # ts)\<rparr>"
  proof (rule lack_loop_run)
    show "sorted (a # ts)" using assms(1) xs by simp
    show "- (2 ^ 62) \<le> 0 - int (length ts)" using len by simp
    show "0 + (last (a # ts) - a) \<le> 2 ^ 62"
      using chrono_ok_bound [OF ca(1)] chrono_ok_bound [OF ca(3)] by simp
  qed (use p ch in simp_all)
  then show ?thesis
    using xs sub add by (simp add: count_lacks_def)
qed

lemma lack_bounds_sort [simp]: "lack_bounds p (sort xs) = lack_bounds p xs"
  by (simp add: lack_bounds_def)

section \<open>The total on an aligned batch\<close>

lemma gap_total_aligned_Cons:
  assumes "sorted (a # ts)" and "distinct (a # ts)" and "0 < p"
    and "\<forall>x \<in> set ts. p dvd (x - a)"
  shows "gap_total p (a # ts) = (last (a # ts) - a) div p - int (length ts)"
  using assms
proof (induction ts arbitrary: a)
  case Nil
  then show ?case by simp
next
  case (Cons t ts)
  have at: "a < t"
    using Cons.prems(1,2) by auto
  have dt: "p dvd (t - a)"
    using Cons.prems(4) by simp
  have rest: "\<forall>x \<in> set ts. p dvd (x - t)"
  proof
    fix x assume "x \<in> set ts"
    then have "p dvd (x - a)"
      using Cons.prems(4) by simp
    from dvd_diff [OF this dt] show "p dvd (x - t)" by simp
  qed
  have ih: "gap_total p (t # ts) = (last (t # ts) - t) div p - int (length ts)"
    using Cons.prems(1,2,3) rest by (intro Cons.IH) simp_all
  have "(last (t # ts) - a) div p = (t - a) div p + (last (t # ts) - t) div p"
    using div_plus_div_distrib_dvd_left [OF dt, of "last (t # ts) - t"] by simp
  then show ?case
    using ih pair_gap_aligned [OF Cons.prems(3) at dt] by simp
qed

lemma card_grid:
  assumes "0 < p"
  shows "card (grid p lo hi) = Suc (nat ((hi - lo) div p))"
proof -
  have inj: "inj_on (\<lambda>k::nat. lo + int k * p) {0..<Suc (nat ((hi - lo) div p))}"
    using assms by (auto simp: inj_on_def)
  have "card (grid p lo hi) = card ((\<lambda>k::nat. lo + int k * p) ` {0..<Suc (nat ((hi - lo) div p))})"
    by (simp add: grid_def del: upt_Suc)
  also have "\<dots> = Suc (nat ((hi - lo) div p))"
    using inj by (simp add: card_image del: upt_Suc)
  finally show ?thesis .
qed

lemma aligned_in_grid:
  assumes "0 < p" and "lo \<le> x" and "x \<le> hi" and "p dvd (x - lo)"
  shows "x \<in> grid p lo hi"
proof -
  obtain k where k: "x - lo = p * k"
    using assms(4) by (auto elim: dvdE)
  have "0 \<le> p * k"
    using k assms(2) by simp
  then have k0: "0 \<le> k"
    using assms(1) by (simp add: zero_le_mult_iff)
  have "(p * k) div p \<le> (hi - lo) div p"
    using k assms(1,3) by (intro zdiv_mono1) simp_all
  then have "nat k < Suc (nat ((hi - lo) div p))"
    using assms(1) by simp
  moreover have "x = lo + int (nat k) * p"
    using k k0 by (simp add: mult.commute eq_diff_eq)
  ultimately show ?thesis
    unfolding grid_def set_map set_upt by (intro image_eqI [where x = "nat k"]) simp_all
qed

lemma gap_total_counts_missing:
  assumes "sorted xs" and "distinct xs" and "xs \<noteq> []" and "0 < p"
    and "\<forall>x \<in> set xs. p dvd (x - hd xs)"
  shows "gap_total p xs = int (card (missing_buckets p xs))"
proof -
  obtain a ts where xs: "xs = a # ts"
    using assms(3) by (cases xs) auto
  let ?N = "nat ((last xs - a) div p)"
  have mm: "Min (set xs) = a" "Max (set xs) = last xs"
    using sorted_Min_hd [OF assms(1,3)] sorted_Max_last [OF assms(1,3)] xs by simp_all
  have sub: "set xs \<subseteq> grid p a (last xs)"
  proof
    fix x assume x: "x \<in> set xs"
    have "a \<le> x" using x xs assms(1) by auto
    moreover have "x \<le> last xs"
      using assms(1) x by (rule sorted_le_last_elem)
    moreover have "p dvd (x - a)"
      using x xs assms(5) by auto
    ultimately show "x \<in> grid p a (last xs)"
      using assms(4) by (intro aligned_in_grid)
  qed
  have cg: "card (grid p a (last xs)) = Suc ?N"
    using assms(4) by (rule card_grid)
  have fin: "finite (grid p a (last xs))"
    by (simp add: grid_def)
  have cx: "card (set xs) = length xs"
    using assms(2) by (rule distinct_card)
  have le: "length xs \<le> Suc ?N"
    using card_mono [OF fin sub] cx cg by simp
  have "card (missing_buckets p xs) = Suc ?N - length xs"
    using card_Diff_subset [OF finite_subset [OF sub fin] sub] cx cg xs mm
    by (simp add: missing_buckets_def)
  moreover have "gap_total p xs = (last xs - a) div p - int (length ts)"
    using assms(1,2,4,5) xs gap_total_aligned_Cons [of a ts p] by simp
  moreover have "0 \<le> (last xs - a) div p"
    using assms(4) sorted_le_last_elem [OF assms(1), of a] xs by (simp add: pos_imp_zdiv_nonneg_iff)
  ultimately show ?thesis
    using le xs by (simp add: of_nat_diff)
qed

section \<open>Duplicated buckets\<close>

lemma gap_total_remdups_adj:
  assumes "sorted xs" and "0 < p"
  shows "gap_total p xs =
           gap_total p (remdups_adj xs) - int (length xs - length (remdups_adj xs))"
  using assms(1)
proof (induction xs rule: remdups_adj.induct)
  case 1
  then show ?case by simp
next
  case (2 x)
  then show ?case by simp
next
  case (3 x y xs)
  show ?case
  proof (cases "x = y")
    case True
    have "gap_total p (x # xs) =
            gap_total p (remdups_adj (x # xs)) - int (length (x # xs) - length (remdups_adj (x # xs)))"
      using "3.prems" True by (intro "3.IH"(1)) simp_all
    moreover have "length (remdups_adj (x # xs)) \<le> length (x # xs)"
      by (rule remdups_adj_length)
    ultimately show ?thesis
      using True assms(2) by (simp add: pair_gap_same of_nat_diff)
  next
    case False
    have ih: "gap_total p (y # xs) =
            gap_total p (remdups_adj (y # xs)) - int (length (y # xs) - length (remdups_adj (y # xs)))"
      using "3.prems" False by (intro "3.IH"(2)) simp_all
    have "length (remdups_adj (y # xs)) \<le> length (y # xs)"
      by (rule remdups_adj_length)
    then show ?thesis
      using False ih by (simp add: gap_total_Cons_hd of_nat_diff)
  qed
qed

lemma sorted_distinct_remdups_adj:
  "sorted xs \<Longrightarrow> sorted (remdups_adj xs) \<and> distinct (remdups_adj xs)"
proof (induction xs rule: remdups_adj.induct)
  case (3 x y xs)
  show ?case
  proof (cases "x = y")
    case True
    then show ?thesis using "3.IH"(1) "3.prems" by simp
  next
    case False
    then have "x < y" and "\<forall>z \<in> set (y # xs). y \<le> z" and "sorted (y # xs)"
      using "3.prems" by auto
    then show ?thesis using "3.IH"(2) False by fastforce
  qed
qed simp_all

lemma remdups_adj_sort: "remdups_adj (sort xs) = sorted_list_of_set (set xs)"
  using sorted_distinct_remdups_adj [of "sort xs"]
  by (intro sorted_distinct_set_unique) simp_all

section \<open>Properties of the gap analyzer\<close>

text \<open>
  Claim C2. On every non-empty batch whose bucket times and their grid successors lie in chrono's
  calendar, with a positive period, the gap analysis (sort, then the loop of lines 204--227)
  returns without panicking: the expected time ends at the latest bucket, the total is
  the sum of the truncated counts between sorted neighbours, and the printed ranges are
  exactly the neighbour pairs that are not one period apart.
\<close>

theorem gap_analysis_run:
  assumes "lack_bounds p xs" and "xs \<noteq> []"
  shows "gap_analysis p xs =
           Inr \<lparr>head_unixtime = Max (set xs), lack = gap_total p (sort xs),
                lack_reports = gap_ranges p (sort xs)\<rparr>"
proof -
  have "sort xs \<noteq> []" and "sorted (sort xs)"
    using assms(2) by simp_all
  moreover have "Max (set xs) = last (sort xs)"
    using sorted_Max_last [of "sort xs"] assms(2) by simp
  ultimately show ?thesis
    using count_lacks_run [of "sort xs" p] assms(1) by (simp add: gap_analysis_def)
qed

theorem gap_analysis_run_witness:
  "lack_bounds 20 [180, 100, 160] \<and>
   gap_analysis 20 [180, 100, 160] =
     Inr \<lparr>head_unixtime = 180, lack = 2, lack_reports = [(120, 160, 2)]\<rparr>"
proof -
  have b: "lack_bounds 20 [180, 100, 160]"
    by (simp add: lack_bounds_def chrono_ok_def chrono_min_def chrono_max_def)
  have "gap_analysis 20 [180, 100, 160] =
          Inr \<lparr>head_unixtime = Max (set [180, 100, 160]), lack = gap_total 20 (sort [180, 100, 160]),
               lack_reports = gap_ranges 20 (sort [180, 100, 160])\<rparr>"
    using gap_analysis_run [OF b] by simp
  then show ?thesis
    using b by (simp add: pair_gap_def trunc_div_def)
qed

text \<open>
  Claim C3. On a batch of distinct bucket times that all lie on one period grid, the gap total the
  analyzer prints is the number of grid buckets between the earliest and the latest time
  that are missing from the batch.
\<close>

theorem gap_analysis_counts_missing:
  assumes "lack_bounds p xs" and "xs \<noteq> []" and "distinct xs"
    and "\<forall>x \<in> set xs. x mod p = r"
  shows "\<exists>s. gap_analysis p xs = Inr s \<and> lack s = int (card (missing_buckets p xs))"
proof -
  let ?ys = "sort xs"
  have ys: "sorted ?ys" "distinct ?ys" "?ys \<noteq> []" "lack_bounds p ?ys"
    using assms(1,2,3) by simp_all
  have p: "0 < p"
    using assms(1) by (simp add: lack_bounds_def)
  have "\<forall>x \<in> set ?ys. p dvd (x - hd ?ys)"
  proof
    fix x assume "x \<in> set ?ys"
    moreover have "hd ?ys \<in> set xs"
      using hd_in_set [OF ys(3)] by simp
    ultimately have "x mod p = hd ?ys mod p"
      using assms(4) by simp
    then show "p dvd (x - hd ?ys)"
      by (simp add: mod_eq_dvd_iff)
  qed
  then have "gap_total p ?ys = int (card (missing_buckets p ?ys))"
    using ys(1,2,3) p by (intro gap_total_counts_missing)
  moreover have "missing_buckets p ?ys = missing_buckets p xs"
    by (simp add: missing_buckets_def)
  ultimately show ?thesis
    using count_lacks_run [OF ys(1,3,4)] by (simp add: gap_analysis_def)
qed

theorem gap_analysis_counts_missing_witness:
  "\<exists>s. gap_analysis 60 [1514765040, 1514764800, 1514764860] = Inr s \<and>
       lack s = int (card (missing_buckets 60 [1514765040, 1514764800, 1514764860]))"
  by (rule gap_analysis_counts_missing)
    (simp_all add: lack_bounds_def chrono_ok_def chrono_min_def chrono_max_def)

text \<open>
  Claim C33. A bucket time repeated in the batch lowers the printed total by one per repetition: the
  total is that of the distinct times minus the number of duplicates, so a batch with
  duplicates can report a negative number of missing buckets.
\<close>

theorem gap_analysis_duplicates:
  assumes "lack_bounds p xs" and "xs \<noteq> []"
  shows "\<exists>s. gap_analysis p xs = Inr s \<and>
             lack s = gap_total p (sorted_list_of_set (set xs)) - int (length xs - card (set xs))"
proof -
  have p: "0 < p" using assms(1) by (simp add: lack_bounds_def)
  have "length (remdups_adj (sort xs)) = card (set xs)"
    using sorted_distinct_remdups_adj [of "sort xs"] distinct_card [of "remdups_adj (sort xs)"]
    by simp
  then have "gap_total p (sort xs) =
               gap_total p (sorted_list_of_set (set xs)) - int (length xs - card (set xs))"
    using gap_total_remdups_adj [of "sort xs" p] p by (simp add: remdups_adj_sort)
  then show ?thesis
    using count_lacks_run [of "sort xs" p] assms by (simp add: gap_analysis_def)
qed

theorem gap_analysis_duplicates_witness:
  "\<exists>s. gap_analysis 60 [1514764800, 1514764860, 1514764860] = Inr s \<and>
       lack s = gap_total 60 (sorted_list_of_set (set [1514764800, 1514764860, 1514764860]))
                - int (length [1514764800, 1514764860, 1514764860::int]
                       - card (set [1514764800, 1514764860, 1514764860::int]))"
  by (rule gap_analysis_duplicates)
    (simp_all add: lack_bounds_def chrono_ok_def chrono_min_def chrono_max_def)

text \<open>
  The batch \<open>[t, t]\<close> makes the analyzer print a range from \<open>t + p\<close> back to
  \<open>t\<close> and a total of \<open>-1\<close> missing buckets.
\<close>

theorem gap_analysis_duplicate_negative:
  "gap_analysis 60 [1514764860, 1514764860] =
     Inr \<lparr>head_unixtime = 1514764860, lack = - 1, lack_reports = [(1514764920, 1514764860, - 1)]\<rparr>"
  by (simp add: gap_analysis_def lack_eval)

section \<open>Periods and batches the analyzer does not reject\<close>

text \<open>
  With a negative period the loop never resynchronises: it expects \<open>a + p\<close>, below
  \<open>a\<close>, and divides the positive distance by the negative period, so every neighbour
  pair counts at most \<open>-1\<close> and at least \<open>-(t - a) - 1\<close>. The second bound keeps the
  running total inside \<open>i64\<close>.
\<close>

lemma lack_loop_neg:
  assumes "sorted (a # ts)" and "p < 0"
    and "\<forall>x \<in> set (a # ts). chrono_ok x \<and> chrono_ok (x + p)"
    and "- (2 ^ 63) \<le> L - int (length ts) - (last (a # ts) - a)" and "L \<le> 0"
  shows "\<exists>s. lack_loop p ts \<lparr>head_unixtime = a, lack = L, lack_reports = R\<rparr> = Inr s \<and>
             lack s \<le> L - int (length ts)"
  using assms
proof (induction ts arbitrary: a L R)
  case (Cons t ts)
  have at: "a \<le> t" and st: "sorted (t # ts)"
    using Cons.prems(1) by simp_all
  have tl: "t \<le> last (t # ts)"
    using sorted_le_last_elem [OF st, of t] by simp
  have ch: "chrono_ok a" "chrono_ok (a + p)" "chrono_ok t"
    using Cons.prems(3) by simp_all
  have h: "checked_add a p = Inr (a + p)"
    using chrono_ok_bound [OF ch(2)] by (simp add: i64_simps)
  let ?d = "t - (a + p)"
  let ?n = "trunc_div ?d p"
  have dpos: "- p \<le> ?d" "a + p \<noteq> t"
    using at Cons.prems(2) by simp_all
  have sub: "checked_sub t (a + p) = Inr ?d"
    using chrono_ok_bound [OF ch(2)] chrono_ok_bound [OF ch(3)] by (simp add: i64_simps)
  have n: "?n = - (?d div (- p))"
    using dpos Cons.prems(2) by (simp add: trunc_div_def)
  have "1 \<le> ?d div (- p)"
    using dpos(1) Cons.prems(2) zdiv_mono1 [of "- p" ?d "- p"] by simp
  moreover have "?d div (- p) = (t - a) div (- p) + 1"
    using Cons.prems(2) div_add_self2 [of "- p" "t - a"] by (simp add: algebra_simps)
  moreover have "(t - a) div (- p) \<le> t - a"
    using at Cons.prems(2) by (cases "t - a = 0") (simp_all add: int_div_le_self)
  ultimately have nb: "?n \<le> - 1" "- (t - a) - 1 \<le> ?n"
    using n by simp_all
  have dv: "checked_div ?d p = Inr ?n"
  proof -
    have "\<bar>?n\<bar> \<le> \<bar>?d\<bar>"
      using n nb dpos Cons.prems(2) by simp
    moreover have "\<bar>?d\<bar> < 2 ^ 44"
      using chrono_ok_bound [OF ch(2)] chrono_ok_bound [OF ch(3)] by (simp add: abs_less_iff)
    ultimately show ?thesis
      using Cons.prems(2) by (simp add: checked_div_def in_i64_if_abs_le)
  qed
  have ad: "checked_add L ?n = Inr (L + ?n)"
    using nb Cons.prems(4,5) tl by (simp add: in_i64_iff checked_add_def)
  obtain s where run: "lack_loop p ts \<lparr>head_unixtime = t, lack = L + ?n, lack_reports = R @ [(a + p, t, ?n)]\<rparr> = Inr s"
    and ls: "lack s \<le> L + ?n - int (length ts)"
    using Cons.IH [of t "L + ?n" "R @ [(a + p, t, ?n)]"] st Cons.prems(2,3,4,5) nb tl by auto
  show ?case
    using h dpos(2) ch sub dv ad run ls nb by (simp add: utc_timestamp_ok)
qed simp

lemma count_lacks_neg:
  assumes "sorted xs" and "xs \<noteq> []" and "p < 0"
    and "\<forall>x \<in> set xs. chrono_ok x \<and> chrono_ok (x + p)" and "length xs \<le> 2 ^ 62"
  shows "\<exists>s. count_lacks p xs = Inr s \<and> lack s \<le> 1 - int (length xs)"
proof -
  obtain a ts where xs: "xs = a # ts"
    using assms(2) by (cases xs) auto
  have ca: "chrono_ok a" "chrono_ok (a + p)" "chrono_ok (last (a # ts))"
    using assms(4) xs last_in_set [of "a # ts"] by simp_all
  have sub: "checked_sub a p = Inr (a - p)"
    using chrono_ok_bound [OF ca(1)] chrono_ok_bound [OF ca(2)] by (simp add: i64_simps)
  have add: "checked_add (a - p) p = Inr a"
    using chrono_ok_bound [OF ca(1)] by (simp add: i64_simps)
  obtain s where run: "lack_loop p ts \<lparr>head_unixtime = a, lack = 0, lack_reports = []\<rparr> = Inr s"
    and ls: "lack s \<le> 0 - int (length ts)"
  proof -
    have "- (2 ^ 63) \<le> 0 - int (length ts) - (last (a # ts) - a)"
      using assms(5) xs chrono_ok_bound [OF ca(1)] chrono_ok_bound [OF ca(3)] by simp
    then show ?thesis
      using lack_loop_neg [of a ts p 0 "[]"] assms(1,3,4) xs that by auto
  qed
  then show ?thesis
    using xs sub add by (simp add: count_lacks_def)
qed

text \<open>
  Claim C34. A negative period is not rejected. On every batch of in-calendar bucket times,
  the analyzer returns a result instead of failing, and its total is at most one minus the
  batch's length: every neighbour pair counts as a negative number of missing buckets.
\<close>

theorem gap_analysis_negative_period:
  assumes "p < 0" and "xs \<noteq> []" and "\<forall>x \<in> set xs. chrono_ok x \<and> chrono_ok (x + p)"
    and "length xs \<le> 2 ^ 62"
  shows "\<exists>s. gap_analysis p xs = Inr s \<and> lack s \<le> 1 - int (length xs)"
  using count_lacks_neg [of "sort xs" p] assms by (simp add: gap_analysis_def)

theorem gap_analysis_negative_period_witness:
  "\<exists>s. gap_analysis (- 60) [1514764860, 1514764800, 1514764800] = Inr s \<and>
       lack s \<le> 1 - int (length [1514764860, 1514764800, 1514764800::int])"
  by (rule gap_analysis_negative_period) (simp_all add: chrono_ok_def chrono_min_def chrono_max_def)

text \<open>
  A misaligned neighbour pair \<open>a < b\<close> is counted with the truncating division: one
  less than the number of whole periods between them, and 0 when they are less than a
  period apart.
\<close>

lemma pair_gap_floor:
  assumes "0 < p" and "a < b"
  shows "pair_gap p (a, b) = max 0 ((b - a) div p - 1)"
proof (cases "p \<le> b - a")
  case True
  then have "pair_gap p (a, b) = (b - a - p) div p"
    using assms(1) by (simp add: pair_gap_def trunc_div_nonneg diff_diff_eq)
  also have "\<dots> = (b - a) div p - 1"
    using div_pos_geq [OF assms(1) True] by simp
  finally show ?thesis
    using True assms(1) zdiv_mono1 [of p "b - a" p] by simp
next
  case False
  then have "\<bar>b - (a + p)\<bar> < p" and "(b - a) div p = 0"
    using assms by (simp_all add: abs_less_iff div_pos_pos_trivial)
  then show ?thesis
    using assms(1) by (simp add: pair_gap_def trunc_div_def div_pos_pos_trivial)
qed

lemma adjacent_in_zip_tl:
  "(a, b) \<in> set (zip (ys @ a # b # zs) (tl (ys @ a # b # zs)))"
  by (auto simp: set_zip nth_tl nth_append intro!: exI [of _ "length ys"])

text \<open>
  Claim C35. A bucket time off the period grid is not rejected. Whenever two neighbours
  \<open>a, b\<close> of the sorted batch are not a whole number of periods apart, the analyzer
  returns a result and reports the range from \<open>a + p\<close> to \<open>b\<close> with the truncated count
  \<open>max 0 ((b - a) div p - 1)\<close>, as if \<open>b\<close> were on the grid.
\<close>

theorem gap_analysis_misaligned:
  assumes "lack_bounds p xs" and "sort xs = ys @ a # b # zs" and "\<not> p dvd (b - a)"
  shows "\<exists>s. gap_analysis p xs = Inr s \<and> (a + p, b, max 0 ((b - a) div p - 1)) \<in> set (lack_reports s)"
proof -
  have p: "0 < p" using assms(1) by (simp add: lack_bounds_def)
  have ne: "sort xs \<noteq> []" using assms(2) by simp
  then have xs: "xs \<noteq> []" by simp
  have "sorted (ys @ a # b # zs)" using assms(2) by (metis sorted_sort)
  then have "a \<le> b" by (simp add: sorted_append)
  moreover have "a \<noteq> b" using assms(3) by auto
  ultimately have ab: "a < b" by simp
  have "a + p \<noteq> b" using assms(3) by auto
  then have "(a + p, b, pair_gap p (a, b)) \<in> set (gap_ranges p (sort xs))"
    using adjacent_in_zip_tl [of a b ys zs] assms(2) by (force simp: gap_ranges_def)
  then show ?thesis
    using count_lacks_run [of "sort xs" p] assms(1) xs pair_gap_floor [OF p ab]
    by (simp add: gap_analysis_def)
qed

theorem gap_analysis_misaligned_witness:
  "\<exists>s. gap_analysis 60 [1514764890, 1514764800] = Inr s \<and>
       (1514764800 + 60, 1514764890, max 0 ((1514764890 - 1514764800) div 60 - 1)) \<in> set (lack_reports s)"
  by (rule gap_analysis_misaligned [where ys = "[]" and zs = "[]"])
    (simp_all add: lack_bounds_def chrono_ok_def chrono_min_def chrono_max_def)

end
