(* ===== verification/Json.thy ===== *)
theory Json
  imports Prelude
begin

text \<open>
  The part of \<open>serde_json::Value\<close> that the fetcher and the HTTP facade use: the value
  type, \<open>Value::get\<close>, the panic-free \<open>Index\<close> operator (\<open>v["k"]\<close>,
  \<open>v[i]\<close>, which yield \<open>Null\<close> where the key or index is missing), and the
  accessors \<open>is_array\<close>, \<open>as_array\<close>, \<open>as_i64\<close>, \<open>as_f64\<close>, \<open>is_string\<close>,
  \<open>as_str\<close>, \<open>is_boolean\<close>, \<open>as_bool\<close>. A JSON number is an integer (serde's
  \<open>PosInt\<close>/\<open>NegInt\<close>) or a float; an object is an association list with distinct
  keys (serde's \<open>Map\<close>).
\<close>

datatype json =
    JNull
  | JBool bool
  | JInt int
  | JFloat f64
  | JString string
  | JArray "json list"
  | JObject "(string \<times> json) list"

text \<open>\<open>Value::get(key)\<close>: the member of an object, \<open>None\<close> for any other value.\<close>

fun json_get :: "json \<Rightarrow> string \<Rightarrow> json option" where
  "json_get (JObject kvs) k = map_of kvs k"
| "json_get _ k = None"

text \<open>\<open>v[key]\<close> on a shared reference: \<open>Null\<close> where \<open>get\<close> is \<open>None\<close>.\<close>

definition json_key :: "json \<Rightarrow> string \<Rightarrow> json" where
  "json_key v k = (case json_get v k of None \<Rightarrow> JNull | Some w \<Rightarrow> w)"

text \<open>\<open>v[i]\<close>: the element of an array, \<open>Null\<close> out of range or on a non-array.\<close>

fun json_idx :: "json \<Rightarrow> nat \<Rightarrow> json" where
  "json_idx (JArray vs) i = (if i < length vs then vs ! i else JNull)"
| "json_idx _ i = JNull"

fun as_array :: "json \<Rightarrow> json list option" where
  "as_array (JArray vs) = Some vs"
| "as_array _ = None"

definition is_array :: "json \<Rightarrow> bool" where
  "is_array v \<longleftrightarrow> as_array v \<noteq> None"

text \<open>
  \<open>as_i64\<close> is \<open>Some\<close> for an integer that fits in \<open>i64\<close> (a \<open>u64\<close> above
  \<open>i64::MAX\<close> gives \<open>None\<close>); \<open>as_f64\<close> is \<open>Some\<close> for every number, an
  integer converted.
\<close>

fun as_i64 :: "json \<Rightarrow> i64 option" where
  "as_i64 (JInt i) = (if in_i64 i then Some i else None)"
| "as_i64 _ = None"

fun as_f64 :: "json \<Rightarrow> f64 option" where
  "as_f64 (JInt i) = Some (of_int i)"
| "as_f64 (JFloat r) = Some r"
| "as_f64 _ = None"

fun as_str :: "json \<Rightarrow> string option" where
  "as_str (JString s) = Some s"
| "as_str _ = None"

definition is_string :: "json \<Rightarrow> bool" where
  "is_string v \<longleftrightarrow> as_str v \<noteq> None"

fun as_bool :: "json \<Rightarrow> bool option" where
  "as_bool (JBool b) = Some b"
| "as_bool _ = None"

definition is_boolean :: "json \<Rightarrow> bool" where
  "is_boolean v \<longleftrightarrow> as_bool v \<noteq> None"

lemma json_key_object [simp]:
  "json_key (JObject kvs) k = (case map_of kvs k of None \<Rightarrow> JNull | Some w \<Rightarrow> w)"
  by (simp add: json_key_def)

lemma json_idx_nth [simp]: "i < length vs \<Longrightarrow> json_idx (JArray vs) i = vs ! i"
  by simp

lemma is_array_iff [simp]: "is_array v \<longleftrightarrow> (\<exists>vs. v = JArray vs)"
  by (cases v) (simp_all add: is_array_def)

lemma as_array_Some [simp]: "as_array v = Some vs \<longleftrightarrow> v = JArray vs"
  by (cases v) simp_all

end
