(* ===== verification/FetchOhlcv.thy ===== *)
theory FetchOhlcv
  imports OhlcvStore GapAnalysis Json
begin

text \<open>
  The ingestion pipeline of \<open>src/app/src/fetch-ohlcv-rs/src/main.rs\<close>: the resume point
  (\<open>get_ohlcv_setting\<close>, the watermark resolver), the call to the remote provider
  (\<open>fetch_ohlcv_from_cryptowat\<close>, an input of the model), the reconciler
  \<open>store_ohlcv_to_database\<close> (shape checks of the JSON body, the boundary delete, the row
  parse, the insert and the gap analysis), and \<open>main\<close>'s exit status. A run returns the
  outcome with the database as it is when the run ends: a panic after the boundary delete
  leaves the deletion committed.
\<close>

section \<open>Resume point\<close>

record ohlcv_setting =
  st_exchange :: string
  st_pair :: string
  st_period :: string
  after :: i64

text \<open>The fixed resume point used when the key has no candle (2018-01-01T00:00:00Z).\<close>

definition epoch_default :: i64 where
  "epoch_default = 1514764800"

text \<open>An error of \<open>get_last_unixtime_from_ohlcv\<close> is printed and replaced by the default.\<close>

definition get_ohlcv_setting :: "atb_db \<Rightarrow> string \<Rightarrow> string \<Rightarrow> string \<Rightarrow> ohlcv_setting" where
  "get_ohlcv_setting db ex pa pe =
     \<lparr>st_exchange = ex, st_pair = pa, st_period = pe,
      after = (case get_last_unixtime_from_ohlcv db ex pa pe of
                 Inl _ \<Rightarrow> epoch_default
               | Inr a \<Rightarrow> a)\<rparr>"

section \<open>The remote provider\<close>

text \<open>
  \<open>reqwest::blocking::get(url)?.json()?\<close>: the body parsed as JSON, or a transport or
  decoding error. The provider is the model's input: its answer for the query parameters
  of the URL (exchange, pair, period, after).
\<close>

datatype fetch_error = Transport_Error | Body_Error

type_synonym remote = "string \<Rightarrow> string \<Rightarrow> string \<Rightarrow> i64 \<Rightarrow> fetch_error + json"

definition fetch_ohlcv_from_cryptowat :: "remote \<Rightarrow> ohlcv_setting \<Rightarrow> fetch_error + json" where
  "fetch_ohlcv_from_cryptowat rmt st = rmt (st_exchange st) (st_pair st) (st_period st) (after st)"

section \<open>The reconciler\<close>


text \<open>
  What a successful run prints: no data (one of the three shape checks failed), an empty
  batch, or the count of candles with the first and last bucket time and the gap
  analysis.
\<close>

datatype store_report = No_Data | Empty_Batch | Ingested usize i64 i64 lack_state

text \<open>
  The loop body of lines 188--195: the tuple's fields are evaluated left to right, the
  five prices by \<open>as_f64().unwrap()\<close>, then the time by \<open>as_i64().unwrap()\<close>.
\<close>

definition parse_record :: "json \<Rightarrow> panic + ohlcv_tuple" where
  "parse_record v =
     bind_res (unwrap (as_f64 (json_idx v 1))) (\<lambda>op.
     bind_res (unwrap (as_f64 (json_idx v 2))) (\<lambda>hp.
     bind_res (unwrap (as_f64 (json_idx v 3))) (\<lambda>lp.
     bind_res (unwrap (as_f64 (json_idx v 4))) (\<lambda>cp.
     bind_res (unwrap (as_f64 (json_idx v 5))) (\<lambda>vol.
     bind_res (unwrap (as_i64 (json_idx v 0))) (\<lambda>t.
       Inr (op, hp, lp, cp, vol, t)))))))"

fun parse_records :: "json list \<Rightarrow> panic + ohlcv_tuple list" where
  "parse_records [] = Inr []"
| "parse_records (v # vs) =
     bind_res (parse_record v) (\<lambda>r. bind_res (parse_records vs) (\<lambda>rs. Inr (r # rs)))"

text \<open>Lines 154--163: the first and the last bucket time, each read and then converted
  by \<open>Utc.timestamp\<close> for printing.\<close>

definition head_tail :: "json list \<Rightarrow> panic + i64 \<times> i64" where
  "head_tail vs =
     bind_res (unwrap (as_i64 (json_idx (hd vs) 0))) (\<lambda>h.
     bind_res (utc_timestamp h) (\<lambda>_.
     bind_res (unwrap (as_i64 (json_idx (last vs) 0))) (\<lambda>t.
     bind_res (utc_timestamp t) (\<lambda>_. Inr (h, t)))))"

text \<open>Line 180: the boundary row is deleted unless the resume point is the default.\<close>

definition boundary_delete ::
  "atb_db \<Rightarrow> ohlcv_setting \<Rightarrow> (sql_error + usize) \<times> atb_db" where
  "boundary_delete db st =
     (if after st \<noteq> epoch_default
      then delete_ohlcv db (st_exchange st) (st_pair st) (st_period st) (after st)
      else (Inr 0, db))"

definition store_ohlcv_to_database ::
  "atb_db \<Rightarrow> ohlcv_setting \<Rightarrow> json \<Rightarrow> (fault + store_report) \<times> atb_db" where
  "store_ohlcv_to_database db st resp =
     (let ex = st_exchange st; pa = st_pair st; pe = st_period st;
          res = json_key resp ''result''
      in if json_get resp ''result'' = None then (Inr No_Data, db)
      else if json_get res pe = None then (Inr No_Data, db)
      else
        (case as_array (json_key res pe) of
           None \<Rightarrow> (Inr No_Data, db)
         | Some vs \<Rightarrow>
             if vs = [] then (Inr Empty_Batch, db)
             else
               (case head_tail vs of
                  Inl e \<Rightarrow> (Inl (Panic e), db)
                | Inr (h, t) \<Rightarrow>
                    (case boundary_delete db st of
                       (Inl e, db1) \<Rightarrow> (Inl (Sql e), db1)
                     | (Inr _, db1) \<Rightarrow>
                         (case parse_records vs of
                            Inl e \<Rightarrow> (Inl (Panic e), db1)
                          | Inr records \<Rightarrow>
                              (let db2 = insert_ohlcv_list db1 ex pa pe records
                               in case parse_i64 pe of
                                    None \<Rightarrow> (Inl (Panic Parse_Failed), db2)
                                  | Some i_period \<Rightarrow>
                                      (case gap_analysis i_period (map tuple_time records) of
                                         Inl e \<Rightarrow> (Inl (Panic e), db2)
                                       | Inr ls \<Rightarrow> (Inr (Ingested (length vs) h t ls), db2))))))))"

section \<open>The command\<close>

text \<open>
  \<open>main\<close> after the connection: resolve, fetch, store. A fetch error or a database
  error exits with status 1, a panic with Rust's 101, success with 0.
\<close>

definition fetch_ohlcv_main :: "atb_db \<Rightarrow> string \<Rightarrow> string \<Rightarrow> string \<Rightarrow> remote \<Rightarrow> int \<times> atb_db" where
  "fetch_ohlcv_main db ex pa pe rmt =
     (let st = get_ohlcv_setting db ex pa pe
      in case fetch_ohlcv_from_cryptowat rmt st of
           Inl _ \<Rightarrow> (1, db)
         | Inr resp \<Rightarrow>
             (case store_ohlcv_to_database db st resp of
                (Inl (Panic _), db') \<Rightarrow> (101, db')
              | (Inl (Sql _), db') \<Rightarrow> (1, db')
              | (Inr _, db') \<Rightarrow> (0, db')))"

section \<open>Provider responses\<close>

text \<open>
  The body the provider sends for a list of candles, each
  \<open>[bucket_time, open, high, low, close, volume]\<close> under \<open>result.<period>\<close>.
\<close>

definition candle_json :: "ohlcv_tuple \<Rightarrow> json" where
  "candle_json rec =
     (case rec of (op, hp, lp, cp, vol, t) \<Rightarrow>
        JArray [JInt t, JFloat op, JFloat hp, JFloat lp, JFloat cp, JFloat vol])"

definition candle_response :: "string \<Rightarrow> ohlcv_tuple list \<Rightarrow> json" where
  "candle_response pe recs = JObject [(''result'', JObject [(pe, JArray (map candle_json recs))])]"

text \<open>The abstract store after the boundary delete of a run.\<close>

definition boundary_candles :: "atb_db \<Rightarrow> ohlcv_setting \<Rightarrow> candle_key \<rightharpoonup> prices" where
  "boundary_candles db st =
     (if after st \<noteq> epoch_default
      then (candles db)((st_exchange st, st_pair st, st_period st, after st) := None)
      else candles db)"

section \<open>Runs of the reconciler\<close>

lemma chrono_ok_in_i64: "chrono_ok x \<Longrightarrow> in_i64 x"
  using chrono_ok_bound [of x] by (intro in_i64_if_abs_le) (simp add: abs_le_iff)

lemma parse_record_candle_json:
  "in_i64 (tuple_time rec) \<Longrightarrow> parse_record (candle_json rec) = Inr rec"
  by (cases rec) (simp add: parse_record_def candle_json_def tuple_time_def)

lemma parse_records_candles:
  "\<forall>rec \<in> set recs. in_i64 (tuple_time rec) \<Longrightarrow> parse_records (map candle_json recs) = Inr recs"
  by (induction recs) (simp_all add: parse_record_candle_json)

lemma candle_response_array [simp]:
  "json_get (candle_response pe recs) ''result'' = Some (JObject [(pe, JArray (map candle_json recs))])"
  "json_key (candle_response pe recs) ''result'' = JObject [(pe, JArray (map candle_json recs))]"
  by (simp_all add: candle_response_def json_key_def)

lemma candle_json_time [simp]:
  "json_idx (candle_json rec) 0 = JInt (tuple_time rec)"
  by (cases rec) (simp add: candle_json_def tuple_time_def)

lemma head_tail_candles:
  assumes "recs \<noteq> []" and "chrono_ok (tuple_time (hd recs))" and "chrono_ok (tuple_time (last recs))"
  shows "head_tail (map candle_json recs) = Inr (tuple_time (hd recs), tuple_time (last recs))"
  using assms chrono_ok_in_i64 by (simp add: head_tail_def hd_map last_map utc_timestamp_ok)

lemma lack_loop_Cons_Inr:
  "lack_loop p (t # ts) s = Inr s' \<Longrightarrow> \<exists>s1. head_unixtime s1 = t \<and> lack_loop p ts s1 = Inr s'"
  by (force split: if_splits)

lemma lack_loop_last:
  "lack_loop p ts s = Inr s' \<Longrightarrow> head_unixtime s' = last (head_unixtime s # ts)"
proof (induction ts arbitrary: s)
  case Nil
  then show ?case by simp
next
  case (Cons t ts)
  then obtain s1 where "head_unixtime s1 = t" and "lack_loop p ts s1 = Inr s'"
    using lack_loop_Cons_Inr by blast
  then show ?case
    using Cons.IH by simp
qed

lemma gap_analysis_head:
  assumes "gap_analysis p xs = Inr ls"
  shows "xs \<noteq> [] \<and> head_unixtime ls = Max (set xs)"
proof -
  obtain l0 ls0 where s: "sort xs = l0 # ls0"
    using assms by (cases "sort xs") (simp_all add: gap_analysis_def count_lacks_def)
  then have "xs \<noteq> []" by auto
  moreover obtain s0 where "lack_loop p (l0 # ls0) s0 = Inr ls"
    using assms s by (auto simp: gap_analysis_def count_lacks_def simp del: lack_loop.simps)
  then have "head_unixtime ls = last (sort xs)"
    using s lack_loop_last by fastforce
  ultimately show ?thesis
    using sorted_Max_last [of "sort xs"] by simp
qed

lemma candles_insert_fresh:
  assumes "distinct (map tuple_time recs)"
    and "\<forall>rec \<in> set recs. (ex, pa, pe, tuple_time rec) \<notin> dom (candles db)"
  shows "candles (insert_ohlcv_list db ex pa pe recs) =
           candles db ++ map_of (map (\<lambda>r. ((ex, pa, pe, tuple_time r), tuple_prices r)) recs)"
proof -
  let ?new = "map (\<lambda>r. ((ex, pa, pe, tuple_time r), tuple_prices r)) recs"
  have rows: "ohlcv (insert_ohlcv_list db ex pa pe recs) = ohlcv db @ map (row_of ex pa pe) recs"
    using assms by (rule insert_ohlcv_list_fresh)
  have "candles (insert_ohlcv_list db ex pa pe recs) = map_of ?new ++ candles db"
    using rows by (simp add: candles_def map_of_append comp_def)
  moreover have "dom (map_of ?new) \<inter> dom (candles db) = {}"
    using assms(2) by (force simp: dom_map_of_conv_image_fst)
  ultimately show ?thesis
    by (simp add: map_add_comm)
qed

lemma wf_insert_fresh:
  assumes "ohlcv_wf db" and "distinct (map tuple_time recs)"
    and "\<forall>rec \<in> set recs. (ex, pa, pe, tuple_time rec) \<notin> dom (candles db)"
  shows "ohlcv_wf (insert_ohlcv_list db ex pa pe recs)"
proof -
  have rows: "ohlcv (insert_ohlcv_list db ex pa pe recs) = ohlcv db @ map (row_of ex pa pe) recs"
    using assms(2,3) by (rule insert_ohlcv_list_fresh)
  have "map (\<lambda>r. (ex, pa, pe, tuple_time r)) recs = map (\<lambda>t. (ex, pa, pe, t)) (map tuple_time recs)"
    by simp
  then have d: "distinct (map (\<lambda>r. (ex, pa, pe, tuple_time r)) recs)"
    using assms(2) by (simp add: distinct_map inj_on_def)
  have "set (map row_key (ohlcv db)) \<inter> (\<lambda>r. (ex, pa, pe, tuple_time r)) ` set recs = {}"
    using assms(3) by (auto simp: keys_of_db)
  then show ?thesis
    using assms(1) rows d by (simp add: ohlcv_wf_def comp_def)
qed

lemma get_last_unixtime_Inr:
  assumes "get_last_unixtime_from_ohlcv db ex pa pe = Inr w" and "(ex, pa, pe, t) \<in> dom (candles db)"
  shows "t \<le> w"
proof (cases "map unixtime (filter (matches ex pa pe) (ohlcv db))")
  case Nil
  then show ?thesis using assms(1) by (simp add: get_last_unixtime_from_ohlcv_def)
next
  case (Cons a as)
  then have "w = Max (set (a # as))"
    using assms(1) by (simp add: get_last_unixtime_from_ohlcv_def)
  moreover have "t \<in> set (a # as)"
    using get_last_unixtime_keys [of ex pa pe db] assms(2) Cons by simp
  ultimately show ?thesis by simp
qed

lemma gap_analysis_Inr:
  "lack_bounds p xs \<Longrightarrow> xs \<noteq> [] \<Longrightarrow> \<exists>ls. gap_analysis p xs = Inr ls"
  using count_lacks_run [of "sort xs" p] by (simp add: gap_analysis_def)

lemma lack_bounds_chrono: "lack_bounds p (map tuple_time recs) \<Longrightarrow> r \<in> set recs \<Longrightarrow> chrono_ok (tuple_time r)"
  by (simp add: lack_bounds_def)

lemma boundary_delete_run:
  assumes "ohlcv_wf db" and "after st \<noteq> epoch_default \<longrightarrow> delete_limit db"
  shows "\<exists>c db1. boundary_delete db st = (Inr c, db1) \<and>
           candles db1 = boundary_candles db st \<and> ohlcv_wf db1"
proof (cases "after st \<noteq> epoch_default")
  case True
  then have lim: "delete_limit db" using assms(2) by simp
  show ?thesis
    using True delete_ohlcv_count [OF lim] candles_delete [OF assms(1) lim] delete_ohlcv_wf [OF assms(1)]
    by (simp add: boundary_delete_def boundary_candles_def prod_eq_iff)
next
  case False
  then show ?thesis using assms(1) by (simp add: boundary_delete_def boundary_candles_def)
qed

lemma store_candles_run:
  assumes wf: "ohlcv_wf db" and lim: "after st \<noteq> epoch_default \<longrightarrow> delete_limit db"
    and nonempty: "recs \<noteq> []" and dist: "distinct (map tuple_time recs)"
    and fresh: "\<forall>r \<in> set recs. (st_exchange st, st_pair st, st_period st, tuple_time r) \<notin> dom (boundary_candles db st)"
    and per: "parse_i64 (st_period st) = Some p" and bnd: "lack_bounds p (map tuple_time recs)"
  shows "\<exists>ls db'. store_ohlcv_to_database db st (candle_response (st_period st) recs) =
                    (Inr (Ingested (length recs) (tuple_time (hd recs)) (tuple_time (last recs)) ls), db') \<and>
           candles db' = boundary_candles db st ++
             map_of (map (\<lambda>r. ((st_exchange st, st_pair st, st_period st, tuple_time r), tuple_prices r)) recs) \<and>
           ohlcv_wf db'"
proof -
  let ?ex = "st_exchange st" and ?pa = "st_pair st" and ?pe = "st_period st"
  obtain c db1 where del: "boundary_delete db st = (Inr c, db1)"
    and c1: "candles db1 = boundary_candles db st" and wf1: "ohlcv_wf db1"
    using boundary_delete_run [OF wf lim] by blast
  let ?db1 = db1
  let ?db2 = "insert_ohlcv_list ?db1 ?ex ?pa ?pe recs"
  have fresh1: "\<forall>r \<in> set recs. (?ex, ?pa, ?pe, tuple_time r) \<notin> dom (candles ?db1)"
    using fresh c1 by simp
  have ch: "\<forall>r \<in> set recs. chrono_ok (tuple_time r)"
    using bnd lack_bounds_chrono by blast
  have pr: "parse_records (map candle_json recs) = Inr recs"
    using ch chrono_ok_in_i64 by (intro parse_records_candles) blast
  have ht: "head_tail (map candle_json recs) = Inr (tuple_time (hd recs), tuple_time (last recs))"
    using nonempty ch by (intro head_tail_candles) simp_all
  obtain ls where ga: "gap_analysis p (map tuple_time recs) = Inr ls"
    using gap_analysis_Inr [OF bnd] nonempty by auto
  have "store_ohlcv_to_database db st (candle_response ?pe recs) =
          (Inr (Ingested (length recs) (tuple_time (hd recs)) (tuple_time (last recs)) ls), ?db2)"
    using nonempty ht per ga pr del
    by (simp add: store_ohlcv_to_database_def Let_def split: prod.splits)
  moreover have "candles ?db2 = boundary_candles db st ++
                   map_of (map (\<lambda>r. ((?ex, ?pa, ?pe, tuple_time r), tuple_prices r)) recs)"
    using candles_insert_fresh [OF dist fresh1] c1 by simp
  moreover have "ohlcv_wf ?db2"
    using wf1 dist fresh1 by (rule wf_insert_fresh)
  ultimately show ?thesis by blast
qed

lemma parse_i64_60: "parse_i64 ''60'' = Some 60"
  by (simp add: parse_i64_def parse_int_def digit_value_def in_i64_iff)

lemma json_get_key: "json_get v k = Some w \<Longrightarrow> json_key v k = w"
  by (simp add: json_key_def)

lemma insert_ohlcv_list_mono: "set (ohlcv db) \<subseteq> set (ohlcv (insert_ohlcv_list db ex pa pe recs))"
proof (induction recs arbitrary: db)
  case Nil
  then show ?case by simp
next
  case (Cons rec recs)
  have "set (ohlcv db) \<subseteq> set (ohlcv (case insert_ohlcv db ex pa pe rec of Inl _ \<Rightarrow> db | Inr db' \<Rightarrow> db'))"
    by (auto simp: insert_ohlcv_def Let_def)
  then show ?case using Cons.IH by (auto simp del: insert_ohlcv_list.simps(1))
qed

lemma store_Ingested:
  assumes "store_ohlcv_to_database db st resp = (Inr (Ingested n h t ls), db')"
  shows "\<exists>db1 records p. db' = insert_ohlcv_list db1 (st_exchange st) (st_pair st) (st_period st) records \<and>
           gap_analysis p (map tuple_time records) = Inr ls"
  using assms
  by (auto simp: store_ohlcv_to_database_def Let_def split: option.splits sum.splits prod.splits if_splits)

lemma dom_candles_insert_list:
  "dom (candles_insert_list m ex pa pe recs) = dom m \<union> (\<lambda>r. (ex, pa, pe, tuple_time r)) ` set recs"
  by (induction recs arbitrary: m) (auto simp: candles_insert_list_def candle_insert_def)

lemma get_last_unixtime_ge:
  assumes "(ex, pa, pe, t) \<in> dom (candles db)"
  shows "t \<le> after (get_ohlcv_setting db ex pa pe)"
proof -
  let ?S = "{t. (ex, pa, pe, t) \<in> dom (candles db)}"
  have "finite ?S"
  proof -
    have "?S = (\<lambda>k. snd (snd (snd k))) ` (dom (candles db) \<inter> {k. fst k = ex \<and> fst (snd k) = pa \<and> fst (snd (snd k)) = pe})"
      by force
    moreover have "finite (dom (candles db))"
      by (simp add: candles_def finite_dom_map_of)
    ultimately show ?thesis by simp
  qed
  then show ?thesis
    using assms by (auto simp: get_ohlcv_setting_def get_last_unixtime_max)
qed

lemma fetch_main_state:
  "snd (fetch_ohlcv_main db ex pa pe rmt) =
     (case fetch_ohlcv_from_cryptowat rmt (get_ohlcv_setting db ex pa pe) of
        Inl _ \<Rightarrow> db
      | Inr resp \<Rightarrow> snd (store_ohlcv_to_database db (get_ohlcv_setting db ex pa pe) resp))"
  by (auto simp: fetch_ohlcv_main_def Let_def split: sum.split prod.split fault.split)

lemma parse_record_candle_json_Inr: "parse_record (candle_json rec) = Inr r \<Longrightarrow> r = rec"
  by (cases rec) (auto simp: parse_record_def candle_json_def split: if_splits)

lemma parse_records_candles_Inr: "parse_records (map candle_json recs) = Inr rs \<Longrightarrow> rs = recs"
  by (induction recs arbitrary: rs) (auto dest: parse_record_candle_json_Inr)

lemma store_Inr_rows:
  assumes "store_ohlcv_to_database db st (candle_response (st_period st) recs) = (Inr rep, db')"
    and "recs \<noteq> []"
  shows "\<exists>c. boundary_delete db st = (Inr c, snd (boundary_delete db st)) \<and>
           db' = insert_ohlcv_list (snd (boundary_delete db st)) (st_exchange st) (st_pair st) (st_period st) recs"
  using assms
  by (auto simp: store_ohlcv_to_database_def Let_def json_key_def dest: parse_records_candles_Inr
      split: option.splits sum.splits prod.splits if_splits)

lemma boundary_delete_Inr:
  assumes "boundary_delete db st = (Inr c, db1)" and "ohlcv_wf db"
  shows "candles db1 = boundary_candles db st"
proof (cases "after st \<noteq> epoch_default")
  case True
  then have lim: "delete_limit db" using assms(1) by (auto simp: boundary_delete_def delete_ohlcv_def split: if_splits)
  have "db1 = snd (delete_ohlcv db (st_exchange st) (st_pair st) (st_period st) (after st))"
    using True assms(1) by (simp add: boundary_delete_def)
  then show ?thesis using True candles_delete [OF assms(2) lim] by (simp add: boundary_candles_def)
qed (use assms in \<open>simp add: boundary_delete_def boundary_candles_def\<close>)

lemma fetch_main_exit0:
  "fetch_ohlcv_main db ex pa pe rmt = (0, db') \<Longrightarrow>
   \<exists>resp rep. fetch_ohlcv_from_cryptowat rmt (get_ohlcv_setting db ex pa pe) = Inr resp \<and>
     store_ohlcv_to_database db (get_ohlcv_setting db ex pa pe) resp = (Inr rep, db')"
  by (auto simp: fetch_ohlcv_main_def Let_def split: sum.splits prod.splits fault.splits)

lemma boundary_delete_unique_wf:
  "ohlcv_unique (snd (boundary_delete db st)) = ohlcv_unique db \<and>
   (ohlcv_wf db \<longrightarrow> ohlcv_wf (snd (boundary_delete db st)))"
  using delete_ohlcv_wf [of db] by (simp add: boundary_delete_def delete_ohlcv_def Let_def)

lemma store_unique_wf:
  "ohlcv_unique (snd (store_ohlcv_to_database db st resp)) = ohlcv_unique db \<and>
   (ohlcv_unique db \<longrightarrow> ohlcv_wf db \<longrightarrow> ohlcv_wf (snd (store_ohlcv_to_database db st resp)))"
proof -
  note b = boundary_delete_unique_wf [of db st]
  have "ohlcv_unique (insert_ohlcv_list (snd (boundary_delete db st)) ex pa pe rs) = ohlcv_unique db \<and>
        (ohlcv_unique db \<longrightarrow> ohlcv_wf db \<longrightarrow> ohlcv_wf (insert_ohlcv_list (snd (boundary_delete db st)) ex pa pe rs))"
    for ex pa pe rs
    using b insert_ohlcv_list_flags insert_ohlcv_list_unique_wf by metis
  with b show ?thesis
    by (auto simp: store_ohlcv_to_database_def Let_def split: option.split sum.split prod.split)
qed

lemma fetch_main_unique_wf:
  "ohlcv_unique (snd (fetch_ohlcv_main db ex pa pe rmt)) = ohlcv_unique db \<and>
   (ohlcv_unique db \<longrightarrow> ohlcv_wf db \<longrightarrow> ohlcv_wf (snd (fetch_ohlcv_main db ex pa pe rmt)))"
  using store_unique_wf by (simp add: fetch_main_state split: sum.split)

text \<open>A run from the stored watermark \<open>W\<close> on a page at or after \<open>W\<close>: the boundary
  delete removes exactly the candle at \<open>W\<close>, and no candle of the page is left stored.\<close>

lemma watermark_boundary:
  assumes W: "get_last_unixtime_from_ohlcv db ex pa pe = Inr W" and ne: "W \<noteq> epoch_default"
    and later: "\<forall>r \<in> set recs. W \<le> tuple_time r"
  shows "boundary_candles db (get_ohlcv_setting db ex pa pe) = (candles db)((ex, pa, pe, W) := None)"
    and "\<forall>r \<in> set recs. (ex, pa, pe, tuple_time r) \<notin> dom (boundary_candles db (get_ohlcv_setting db ex pa pe))"
proof -
  show bc: "boundary_candles db (get_ohlcv_setting db ex pa pe) = (candles db)((ex, pa, pe, W) := None)"
    using W ne by (simp add: boundary_candles_def get_ohlcv_setting_def)
  show "\<forall>r \<in> set recs. (ex, pa, pe, tuple_time r) \<notin> dom (boundary_candles db (get_ohlcv_setting db ex pa pe))"
  proof
    fix r assume r: "r \<in> set recs"
    show "(ex, pa, pe, tuple_time r) \<notin> dom (boundary_candles db (get_ohlcv_setting db ex pa pe))"
    proof (cases "tuple_time r = W")
      case False
      with later r have "W < tuple_time r" by fastforce
      then have "(ex, pa, pe, tuple_time r) \<notin> dom (candles db)"
        using get_last_unixtime_Inr [OF W] by fastforce
      then show ?thesis using bc by simp
    qed (use bc in simp)
  qed
qed

text \<open>A run on any page of in-range candles, whether or not their keys are stored: it
  succeeds, and the key's candles are the first-write-wins insertion of the page into the
  store after the boundary delete.\<close>

lemma store_run_any:
  assumes wf: "ohlcv_wf db" and lim: "after st \<noteq> epoch_default \<longrightarrow> delete_limit db"
    and nonempty: "recs \<noteq> []" and per: "parse_i64 (st_period st) = Some p"
    and bnd: "lack_bounds p (map tuple_time recs)"
  shows "\<exists>rep db'. store_ohlcv_to_database db st (candle_response (st_period st) recs) = (Inr rep, db') \<and>
           candles db' = candles_insert_list (boundary_candles db st) (st_exchange st) (st_pair st) (st_period st) recs"
proof -
  obtain c db1 where del: "boundary_delete db st = (Inr c, db1)"
    and c1: "candles db1 = boundary_candles db st"
    using boundary_delete_run [OF wf lim] by blast
  have ch: "\<forall>r \<in> set recs. chrono_ok (tuple_time r)"
    using bnd lack_bounds_chrono by blast
  have pr: "parse_records (map candle_json recs) = Inr recs"
    using ch chrono_ok_in_i64 by (intro parse_records_candles) blast
  have ht: "head_tail (map candle_json recs) = Inr (tuple_time (hd recs), tuple_time (last recs))"
    using nonempty ch by (intro head_tail_candles) simp_all
  obtain ls where ga: "gap_analysis p (map tuple_time recs) = Inr ls"
    using gap_analysis_Inr [OF bnd] nonempty by auto
  have "store_ohlcv_to_database db st (candle_response (st_period st) recs) =
          (Inr (Ingested (length recs) (tuple_time (hd recs)) (tuple_time (last recs)) ls),
           insert_ohlcv_list db1 (st_exchange st) (st_pair st) (st_period st) recs)"
    using nonempty ht per ga pr del
    by (simp add: store_ohlcv_to_database_def Let_def split: prod.splits)
  then show ?thesis
    using c1 candles_insert_ohlcv_list by auto
qed

lemma get_last_unixtime_in:
  assumes "get_last_unixtime_from_ohlcv db ex pa pe = Inr w"
  shows "(ex, pa, pe, w) \<in> dom (candles db)"
proof (cases "map unixtime (filter (matches ex pa pe) (ohlcv db))")
  case Nil
  then show ?thesis using assms by (simp add: get_last_unixtime_from_ohlcv_def)
next
  case (Cons t ts)
  then have "w = Max (set (t # ts))"
    using assms by (simp add: get_last_unixtime_from_ohlcv_def)
  then have "w \<in> set (map unixtime (filter (matches ex pa pe) (ohlcv db)))"
    using Cons Max_in [of "set (t # ts)"] by simp
  then show ?thesis
    by (metis (mono_tags) get_last_unixtime_keys mem_Collect_eq)
qed

lemma candles_insert_list_present:
  "m k = Some v \<Longrightarrow> candles_insert_list m ex pa pe recs k = Some v"
proof (induction recs arbitrary: m)
  case (Cons r recs)
  have "candle_insert m (ex, pa, pe, tuple_time r) (tuple_prices r) k = Some v"
    using Cons.prems by (auto simp: candle_insert_def)
  then show ?case
    using Cons.IH by (simp add: candles_insert_list_def)
qed (simp add: candles_insert_list_def)

lemma insert_ohlcv_list_nonunique:
  "\<not> ohlcv_unique db \<Longrightarrow> ohlcv (insert_ohlcv_list db ex pa pe recs) = ohlcv db @ map (row_of ex pa pe) recs"
  by (induction recs arbitrary: db) (simp_all add: insert_ohlcv_def Let_def)

lemmas store_eval = store_ohlcv_to_database_def Let_def head_tail_def boundary_delete_def
  delete_ohlcv_def parse_record_def insert_ohlcv_def gap_analysis_def lack_eval json_key_def
  epoch_default_def tuple_time_def get_ohlcv_setting_def get_last_unixtime_from_ohlcv_def
  matches_def candle_response_def candle_json_def parse_i64_def parse_int_def digit_value_def row_key_def

section \<open>Properties of the pipeline\<close>

text \<open>
  Claim C1. Boundary correction. When the key's watermark \<open>W\<close> is not the default and the
  provider sends distinct candles at or after \<open>W\<close>, the run succeeds, the stored candle
  at \<open>W\<close> is replaced by the refetched one, every other old candle is kept, every fetched
  candle is stored with its new prices, and the keys stay unique.
\<close>

theorem store_boundary_correction:
  assumes wf: "ohlcv_wf db" and lim: "delete_limit db"
    and W: "get_last_unixtime_from_ohlcv db ex pa pe = Inr W" and ne: "W \<noteq> epoch_default"
    and nonempty: "recs \<noteq> []" and dist: "distinct (map tuple_time recs)"
    and later: "\<forall>r \<in> set recs. W \<le> tuple_time r"
    and per: "parse_i64 pe = Some p" and bnd: "lack_bounds p (map tuple_time recs)"
  shows "\<exists>rep db'. store_ohlcv_to_database db (get_ohlcv_setting db ex pa pe) (candle_response pe recs) =
                    (Inr rep, db') \<and>
           candles db' = (candles db)((ex, pa, pe, W) := None) ++
                           map_of (map (\<lambda>r. ((ex, pa, pe, tuple_time r), tuple_prices r)) recs) \<and>
           ohlcv_wf db'"
proof -
  let ?st = "get_ohlcv_setting db ex pa pe"
  have st: "after ?st = W" "st_exchange ?st = ex" "st_pair ?st = pa" "st_period ?st = pe"
    using W by (simp_all add: get_ohlcv_setting_def)
  note bc = watermark_boundary [OF W ne later]
  show ?thesis
    using store_candles_run [of db ?st recs p] wf lim nonempty dist per bnd st bc by auto
qed

theorem store_boundary_correction_witness:
  "\<exists>rep db'. store_ohlcv_to_database
       \<lparr>ohlcv = [row_of ''ex'' ''pa'' ''60'' (1, 2, 0, 1, 5, 1514764860)], ohlcv_unique = False, delete_limit = True\<rparr>
       (get_ohlcv_setting \<lparr>ohlcv = [row_of ''ex'' ''pa'' ''60'' (1, 2, 0, 1, 5, 1514764860)],
                            ohlcv_unique = False, delete_limit = True\<rparr> ''ex'' ''pa'' ''60'')
       (candle_response ''60'' [(3, 4, 2, 3, 7, 1514764860), (3, 4, 2, 3, 7, 1514764920)]) = (Inr rep, db') \<and>
     candles db' = [(''ex'', ''pa'', ''60'', 1514764860) \<mapsto> (3, 4, 2, 3, 7),
                    (''ex'', ''pa'', ''60'', 1514764920) \<mapsto> (3, 4, 2, 3, 7)] \<and>
     ohlcv_wf db'"
proof -
  let ?db = "\<lparr>ohlcv = [row_of ''ex'' ''pa'' ''60'' (1, 2, 0, 1, 5, 1514764860)], ohlcv_unique = False,
              delete_limit = True\<rparr>"
  have wf: "ohlcv_wf ?db" by (simp add: ohlcv_wf_def)
  have W: "get_last_unixtime_from_ohlcv ?db ''ex'' ''pa'' ''60'' = Inr 1514764860"
    by (simp add: get_last_unixtime_from_ohlcv_def matches_def)
  have b: "lack_bounds 60 (map tuple_time [(3, 4, 2, 3, 7, 1514764860), (3, 4, 2, 3, 7, 1514764920)])"
    by (simp add: lack_bounds_def tuple_time_def chrono_ok_def chrono_min_def chrono_max_def)
  have c: "candles ?db = [(''ex'', ''pa'', ''60'', 1514764860) \<mapsto> (1, 2, 0, 1, 5)]"
    by (simp add: candles_def row_key_def row_prices_def)
  show ?thesis
    using store_boundary_correction [OF wf _ W _ _ _ _ parse_i64_60 b] c
    by (simp add: tuple_time_def tuple_prices_def epoch_default_def fun_upd_twist)
qed

text \<open>
  Claim C5. A body without a \<open>result\<close>, without the period's key, with a non-array there or
  with an empty array is a successful no-op: the store is unchanged and the report is
  \<open>No_Data\<close> or \<open>Empty_Batch\<close>.
\<close>

theorem store_empty_batch:
  assumes "\<forall>vs. json_key (json_key resp ''result'') (st_period st) = JArray vs \<longrightarrow> vs = []"
  shows "snd (store_ohlcv_to_database db st resp) = db \<and>
         fst (store_ohlcv_to_database db st resp) \<in> {Inr No_Data, Inr Empty_Batch}"
  using assms
  by (auto simp: store_ohlcv_to_database_def Let_def json_get_key split: option.splits)

theorem store_empty_batch_witness:
  "snd (store_ohlcv_to_database \<lparr>ohlcv = [], ohlcv_unique = True, delete_limit = True\<rparr> \<lparr>st_exchange = ''ex'', st_pair = ''pa'', st_period = ''60'', after = 1514764860\<rparr>
          (JObject [(''result'', JObject [(''60'', JArray [])])])) = \<lparr>ohlcv = [], ohlcv_unique = True, delete_limit = True\<rparr> \<and>
   fst (store_ohlcv_to_database \<lparr>ohlcv = [], ohlcv_unique = True, delete_limit = True\<rparr> \<lparr>st_exchange = ''ex'', st_pair = ''pa'', st_period = ''60'', after = 1514764860\<rparr>
          (JObject [(''result'', JObject [(''60'', JArray [])])])) \<in> {Inr No_Data, Inr Empty_Batch}"
  by (rule store_empty_batch) (simp add: json_key_def)

text \<open>
  Claim C6. The resolver resumes from the latest stored bucket time of the key, and from the fixed
  default 1514764800 when the key has no candle.
\<close>

theorem get_ohlcv_setting_after:
  "after (get_ohlcv_setting db ex pa pe) =
     (if {t. (ex, pa, pe, t) \<in> dom (candles db)} = {} then epoch_default
      else Max {t. (ex, pa, pe, t) \<in> dom (candles db)})"
  by (simp add: get_ohlcv_setting_def get_last_unixtime_max)

text \<open>
  Claim C7. When the resume point is the default, the run deletes nothing: every row of the table
  before the run is still there after it, whatever the body.
\<close>

theorem store_epoch_no_delete:
  assumes "after st = epoch_default"
  shows "set (ohlcv db) \<subseteq> set (ohlcv (snd (store_ohlcv_to_database db st resp)))"
  using assms insert_ohlcv_list_mono [of db]
  by (auto simp: store_ohlcv_to_database_def boundary_delete_def Let_def
      split: option.splits sum.splits prod.splits)

theorem store_epoch_no_delete_witness:
  "set (ohlcv \<lparr>ohlcv = [row_of ''ex'' ''pa'' ''60'' (1, 2, 0, 1, 5, 1514764860)], ohlcv_unique = False,
                 delete_limit = True\<rparr>) \<subseteq>
   set (ohlcv (snd (store_ohlcv_to_database
      \<lparr>ohlcv = [row_of ''ex'' ''pa'' ''60'' (1, 2, 0, 1, 5, 1514764860)], ohlcv_unique = False, delete_limit = True\<rparr>
      \<lparr>st_exchange = ''ex'', st_pair = ''pa'', st_period = ''60'', after = 1514764800\<rparr>
      (candle_response ''60'' [(3, 4, 2, 3, 7, 1514764860)]))))"
  by (rule store_epoch_no_delete) (simp add: epoch_default_def)

text \<open>
  Claim C4. After a run that ingested a batch, the resolver never resumes before the latest bucket
  time of that batch.
\<close>

theorem store_watermark_monotone:
  assumes "store_ohlcv_to_database db st resp = (Inr (Ingested n h t ls), db')"
  shows "head_unixtime ls \<le> after (get_ohlcv_setting db' (st_exchange st) (st_pair st) (st_period st))"
proof -
  obtain db1 records p where db': "db' = insert_ohlcv_list db1 (st_exchange st) (st_pair st) (st_period st) records"
    and ga: "gap_analysis p (map tuple_time records) = Inr ls"
    using store_Ingested [OF assms] by blast
  have ne: "map tuple_time records \<noteq> []" and hd: "head_unixtime ls = Max (set (map tuple_time records))"
    using gap_analysis_head [OF ga] by simp_all
  then have "head_unixtime ls \<in> tuple_time ` set records"
    using Max_in [of "set (map tuple_time records)"] by simp
  then obtain r where r: "r \<in> set records" and "tuple_time r = head_unixtime ls"
    by (metis imageE)
  moreover have "(st_exchange st, st_pair st, st_period st, tuple_time r) \<in> dom (candles db')"
    using r db' by (simp add: candles_insert_ohlcv_list dom_candles_insert_list)
  ultimately show ?thesis
    using get_last_unixtime_ge by metis
qed

theorem store_watermark_monotone_witness:
  "store_ohlcv_to_database \<lparr>ohlcv = [], ohlcv_unique = True, delete_limit = True\<rparr>
      \<lparr>st_exchange = ''ex'', st_pair = ''pa'', st_period = ''60'', after = 1514764800\<rparr>
      (candle_response ''60'' [(3, 4, 2, 3, 7, 1514764860), (3, 4, 2, 3, 7, 1514764980)]) =
     (Inr (Ingested 2 1514764860 1514764980
             \<lparr>head_unixtime = 1514764980, lack = 1, lack_reports = [(1514764920, 1514764980, 1)]\<rparr>),
      \<lparr>ohlcv = [row_of ''ex'' ''pa'' ''60'' (3, 4, 2, 3, 7, 1514764860),
                row_of ''ex'' ''pa'' ''60'' (3, 4, 2, 3, 7, 1514764980)],
       ohlcv_unique = True, delete_limit = True\<rparr>) \<and>
   (1514764980::int) \<le> after (get_ohlcv_setting
      \<lparr>ohlcv = [row_of ''ex'' ''pa'' ''60'' (3, 4, 2, 3, 7, 1514764860),
                row_of ''ex'' ''pa'' ''60'' (3, 4, 2, 3, 7, 1514764980)],
       ohlcv_unique = True, delete_limit = True\<rparr> ''ex'' ''pa'' ''60'')"
proof -
  have eq: "store_ohlcv_to_database \<lparr>ohlcv = [], ohlcv_unique = True, delete_limit = True\<rparr>
      \<lparr>st_exchange = ''ex'', st_pair = ''pa'', st_period = ''60'', after = 1514764800\<rparr>
      (candle_response ''60'' [(3, 4, 2, 3, 7, 1514764860), (3, 4, 2, 3, 7, 1514764980)]) =
     (Inr (Ingested 2 1514764860 1514764980
             \<lparr>head_unixtime = 1514764980, lack = 1, lack_reports = [(1514764920, 1514764980, 1)]\<rparr>),
      \<lparr>ohlcv = [row_of ''ex'' ''pa'' ''60'' (3, 4, 2, 3, 7, 1514764860),
                row_of ''ex'' ''pa'' ''60'' (3, 4, 2, 3, 7, 1514764980)],
       ohlcv_unique = True, delete_limit = True\<rparr>)"
    by (simp add: store_eval)
  show ?thesis
    using eq store_watermark_monotone [OF eq] by simp
qed

text \<open>
  Claim C13. The resolver cannot tell a key whose latest candle is exactly at 1514764800 from
  an empty key: it resumes from that time and the boundary delete is skipped. A run on a
  page that refetches that bucket then succeeds but never stores the revised prices, and on a
  table without the unique key it leaves two rows for the bucket.
\<close>

theorem store_sentinel_collision:
  assumes wf: "ohlcv_wf db" and W: "get_last_unixtime_from_ohlcv db ex pa pe = Inr epoch_default"
    and nonempty: "recs \<noteq> []" and at: "epoch_default \<in> tuple_time ` set recs"
    and per: "parse_i64 pe = Some p" and bnd: "lack_bounds p (map tuple_time recs)"
  shows "\<exists>rep db'. store_ohlcv_to_database db (get_ohlcv_setting db ex pa pe) (candle_response pe recs) =
                    (Inr rep, db') \<and>
           candles db' (ex, pa, pe, epoch_default) = candles db (ex, pa, pe, epoch_default) \<and>
           (\<not> ohlcv_unique db \<longrightarrow> \<not> ohlcv_wf db')"
proof -
  let ?st = "get_ohlcv_setting db ex pa pe"
  let ?k = "(ex, pa, pe, epoch_default)"
  have st: "after ?st = epoch_default" "st_exchange ?st = ex" "st_pair ?st = pa" "st_period ?st = pe"
    using W by (simp_all add: get_ohlcv_setting_def)
  obtain rep db' where run: "store_ohlcv_to_database db ?st (candle_response pe recs) = (Inr rep, db')"
    and c: "candles db' = candles_insert_list (boundary_candles db ?st) ex pa pe recs"
    using store_run_any [OF wf _ nonempty _ bnd, of ?st] st per by auto
  have old: "?k \<in> dom (candles db)"
    using W by (rule get_last_unixtime_in)
  then have same: "candles db' ?k = candles db ?k"
    using c st candles_insert_list_present [of "candles db" ?k] by (auto simp: boundary_candles_def)
  have "\<not> ohlcv_wf db'" if nu: "\<not> ohlcv_unique db"
  proof -
    have "db' = insert_ohlcv_list db ex pa pe recs"
      using store_Inr_rows [of db ?st recs rep db'] run nonempty st by (simp add: boundary_delete_def)
    then have rows: "ohlcv db' = ohlcv db @ map (row_of ex pa pe) recs"
      using nu by (simp add: insert_ohlcv_list_nonunique)
    have "?k \<in> set (map row_key (ohlcv db))"
      using old by (simp add: keys_of_db)
    moreover have "?k \<in> set (map row_key (map (row_of ex pa pe) recs))"
      using at by auto
    ultimately show ?thesis
      using rows by (auto simp: ohlcv_wf_def)
  qed
  then show ?thesis
    using run same by blast
qed

theorem store_sentinel_collision_witness:
  "\<exists>rep db'. store_ohlcv_to_database
       \<lparr>ohlcv = [row_of ''ex'' ''pa'' ''60'' (1, 2, 0, 1, 5, 1514764800)], ohlcv_unique = False, delete_limit = True\<rparr>
       (get_ohlcv_setting \<lparr>ohlcv = [row_of ''ex'' ''pa'' ''60'' (1, 2, 0, 1, 5, 1514764800)],
                            ohlcv_unique = False, delete_limit = True\<rparr> ''ex'' ''pa'' ''60'')
       (candle_response ''60'' [(3, 4, 2, 3, 7, 1514764800), (3, 4, 2, 3, 7, 1514764860)]) = (Inr rep, db') \<and>
     candles db' (''ex'', ''pa'', ''60'', epoch_default) =
       candles \<lparr>ohlcv = [row_of ''ex'' ''pa'' ''60'' (1, 2, 0, 1, 5, 1514764800)], ohlcv_unique = False,
                delete_limit = True\<rparr> (''ex'', ''pa'', ''60'', epoch_default) \<and>
     (\<not> ohlcv_unique \<lparr>ohlcv = [row_of ''ex'' ''pa'' ''60'' (1, 2, 0, 1, 5, 1514764800)], ohlcv_unique = False,
                       delete_limit = True\<rparr> \<longrightarrow> \<not> ohlcv_wf db')"
  by (rule store_sentinel_collision [where p = 60])
    (simp_all add: ohlcv_wf_def row_key_def get_last_unixtime_from_ohlcv_def matches_def epoch_default_def
      tuple_time_def parse_i64_60 lack_bounds_def chrono_ok_def chrono_min_def chrono_max_def)

text \<open>
  Claim C14. A malformed row anywhere in the batch panics after the boundary delete has been
  committed: the candle at the watermark is gone, nothing is inserted, and the next run
  resumes from another point.
\<close>

theorem store_panic_after_delete:
  assumes wf: "ohlcv_wf db" and lim: "delete_limit db"
    and W: "get_last_unixtime_from_ohlcv db ex pa pe = Inr W" and ne: "W \<noteq> epoch_default"
    and nonempty: "vs \<noteq> []" and ht: "head_tail vs = Inr hts" and bad: "parse_records vs = Inl e"
  shows "store_ohlcv_to_database db (get_ohlcv_setting db ex pa pe)
            (JObject [(''result'', JObject [(pe, JArray vs)])]) =
           (Inl (Panic e), snd (delete_ohlcv db ex pa pe W)) \<and>
         (ex, pa, pe, W) \<in> dom (candles db) \<and>
         (ex, pa, pe, W) \<notin> dom (candles (snd (delete_ohlcv db ex pa pe W))) \<and>
         after (get_ohlcv_setting (snd (delete_ohlcv db ex pa pe W)) ex pa pe) \<noteq> W"
proof -
  let ?db1 = "snd (delete_ohlcv db ex pa pe W)"
  have st: "after (get_ohlcv_setting db ex pa pe) = W"
    using W by (simp add: get_ohlcv_setting_def)
  obtain c where c: "fst (delete_ohlcv db ex pa pe W) = Inr c"
    using delete_ohlcv_count [OF lim] by blast
  obtain db1 where dd: "delete_ohlcv db ex pa pe W = (Inr c, db1)"
    using c by (metis prod.collapse)
  then have db1: "?db1 = db1" by simp
  have run: "store_ohlcv_to_database db (get_ohlcv_setting db ex pa pe)
               (JObject [(''result'', JObject [(pe, JArray vs)])]) = (Inl (Panic e), ?db1)"
    using nonempty ht bad ne W dd db1
    by (cases hts) (simp add: store_ohlcv_to_database_def boundary_delete_def Let_def get_ohlcv_setting_def
        json_key_def)
  have inW: "(ex, pa, pe, W) \<in> dom (candles db)"
  proof -
    obtain t ts where l: "map unixtime (filter (matches ex pa pe) (ohlcv db)) = t # ts"
      using W by (cases "map unixtime (filter (matches ex pa pe) (ohlcv db))")
        (simp_all add: get_last_unixtime_from_ohlcv_def)
    then have "W = Max (set (t # ts))"
      using W by (simp add: get_last_unixtime_from_ohlcv_def)
    then have "W \<in> set (map unixtime (filter (matches ex pa pe) (ohlcv db)))"
      using l Max_in [of "set (t # ts)"] by simp
    then show ?thesis
      using get_last_unixtime_keys [of ex pa pe db] by blast
  qed
  have gone: "(ex, pa, pe, W) \<notin> dom (candles ?db1)"
    using candles_delete [OF wf lim] by simp
  have "after (get_ohlcv_setting ?db1 ex pa pe) \<noteq> W"
  proof (cases "{t. (ex, pa, pe, t) \<in> dom (candles ?db1)} = {}")
    case True
    then show ?thesis using ne by (simp add: get_ohlcv_setting_def get_last_unixtime_max)
  next
    case False
    have "finite {t. (ex, pa, pe, t) \<in> dom (candles ?db1)}"
    proof -
      have "{t. (ex, pa, pe, t) \<in> dom (candles ?db1)} \<subseteq> (\<lambda>k. snd (snd (snd k))) ` dom (candles ?db1)"
        by force
      moreover have "finite (dom (candles ?db1))"
        by (simp add: candles_def finite_dom_map_of)
      ultimately show ?thesis by (rule finite_subset [OF _ finite_imageI])
    qed
    then have "Max {t. (ex, pa, pe, t) \<in> dom (candles ?db1)} \<in> {t. (ex, pa, pe, t) \<in> dom (candles ?db1)}"
      using False by (rule Max_in)
    then show ?thesis
      using False gone by (auto simp: get_ohlcv_setting_def get_last_unixtime_max)
  qed
  then show ?thesis
    using run inW gone by simp
qed

theorem store_panic_after_delete_witness:
  "store_ohlcv_to_database
      \<lparr>ohlcv = [row_of ''ex'' ''pa'' ''60'' (1, 2, 0, 1, 5, 1514764860)], ohlcv_unique = False, delete_limit = True\<rparr>
      (get_ohlcv_setting \<lparr>ohlcv = [row_of ''ex'' ''pa'' ''60'' (1, 2, 0, 1, 5, 1514764860)],
                           ohlcv_unique = False, delete_limit = True\<rparr> ''ex'' ''pa'' ''60'')
      (JObject [(''result'', JObject [(''60'', JArray [candle_json (3, 4, 2, 3, 7, 1514764860),
                                                      JArray [JInt 1514764920, JNull]])])]) =
     (Inl (Panic Unwrap_None), \<lparr>ohlcv = [], ohlcv_unique = False, delete_limit = True\<rparr>) \<and>
   after (get_ohlcv_setting \<lparr>ohlcv = [], ohlcv_unique = False, delete_limit = True\<rparr> ''ex'' ''pa'' ''60'')
     \<noteq> 1514764860"
proof -
  let ?db = "\<lparr>ohlcv = [row_of ''ex'' ''pa'' ''60'' (1, 2, 0, 1, 5, 1514764860)], ohlcv_unique = False,
              delete_limit = True\<rparr>"
  let ?vs = "[candle_json (3, 4, 2, 3, 7, 1514764860), JArray [JInt 1514764920, JNull]]"
  have wf: "ohlcv_wf ?db" by (simp add: ohlcv_wf_def)
  have W: "get_last_unixtime_from_ohlcv ?db ''ex'' ''pa'' ''60'' = Inr 1514764860"
    by (simp add: get_last_unixtime_from_ohlcv_def matches_def)
  have ht: "head_tail ?vs = Inr (1514764860, 1514764920)"
    by (simp add: head_tail_def candle_json_def utc_timestamp_def chrono_ok_def chrono_min_def
        chrono_max_def in_i64_iff)
  have bad: "parse_records ?vs = Inl Unwrap_None"
    by (simp add: parse_record_def candle_json_def in_i64_iff)
  have del: "snd (delete_ohlcv ?db ''ex'' ''pa'' ''60'' 1514764860) =
               \<lparr>ohlcv = [], ohlcv_unique = False, delete_limit = True\<rparr>"
    by (simp add: delete_ohlcv_def matches_def)
  show ?thesis
    using store_panic_after_delete [OF wf _ W _ _ ht bad] del by (simp add: epoch_default_def)
qed

text \<open>
  Claim C15. On a SQLite build without \<open>DELETE \<dots> LIMIT\<close>, every run on a key that already
  has data exits with status 1 and stores nothing.
\<close>

theorem fetch_main_delete_unsupported:
  assumes lim: "\<not> delete_limit db"
    and W: "get_last_unixtime_from_ohlcv db ex pa pe = Inr W" and ne: "W \<noteq> epoch_default"
    and resp: "rmt ex pa pe W = Inr (candle_response pe recs)"
    and nonempty: "recs \<noteq> []" and ch: "\<forall>r \<in> set recs. chrono_ok (tuple_time r)"
  shows "fetch_ohlcv_main db ex pa pe rmt = (1, db)"
proof -
  have ht: "head_tail (map candle_json recs) = Inr (tuple_time (hd recs), tuple_time (last recs))"
    using nonempty ch by (intro head_tail_candles) simp_all
  show ?thesis
    using lim W ne resp nonempty ht
    by (simp add: fetch_ohlcv_main_def fetch_ohlcv_from_cryptowat_def get_ohlcv_setting_def
        store_ohlcv_to_database_def boundary_delete_def delete_ohlcv_def Let_def)
qed

theorem fetch_main_delete_unsupported_witness:
  "fetch_ohlcv_main \<lparr>ohlcv = [row_of ''ex'' ''pa'' ''60'' (1, 2, 0, 1, 5, 1514764860)], ohlcv_unique = False,
                      delete_limit = False\<rparr> ''ex'' ''pa'' ''60''
     (\<lambda>_ _ pe a. Inr (candle_response pe [(3, 4, 2, 3, 7, 1514764860), (3, 4, 2, 3, 7, 1514764920)])) =
   (1, \<lparr>ohlcv = [row_of ''ex'' ''pa'' ''60'' (1, 2, 0, 1, 5, 1514764860)], ohlcv_unique = False,
        delete_limit = False\<rparr>)"
proof (rule fetch_main_delete_unsupported [where W = 1514764860])
  show "get_last_unixtime_from_ohlcv \<lparr>ohlcv = [row_of ''ex'' ''pa'' ''60'' (1, 2, 0, 1, 5, 1514764860)],
          ohlcv_unique = False, delete_limit = False\<rparr> ''ex'' ''pa'' ''60'' = Inr 1514764860"
    by (simp add: get_last_unixtime_from_ohlcv_def matches_def)
  show "(1514764860::int) \<noteq> epoch_default"
    by (simp add: epoch_default_def)
  show "\<forall>r \<in> set [(3, 4, 2, 3, 7, 1514764860), (3, 4, 2, 3, 7, 1514764920)]. chrono_ok (tuple_time r)"
    by (simp add: tuple_time_def chrono_ok_def chrono_min_def chrono_max_def)
qed simp_all

end
