(* ===== verification/Clap.thy ===== *)
theory Clap
  imports Prelude
begin

text \<open>
  The part of clap 2 the command-line programs use: the \<open>ArgMatches\<close> a parse returns,
  the declaration of an argument (\<open>Arg::with_name\<close> with \<open>takes_value\<close>,
  \<open>possible_values\<close> and \<open>required\<close>) and of a subcommand with an optional
  \<open>ArgGroup\<close>, and \<open>clap_accepts\<close>, the matches \<open>get_matches\<close> can return for a
  declaration: only declared arguments, each value among its possible values, every
  required argument present, and at most one member of the group (at least one when the
  group is required). A command line clap refuses ends the process inside
  \<open>get_matches\<close>; the programs' code runs only on accepted matches.
\<close>

text \<open>The values and flags of one subcommand, as \<open>ArgMatches\<close> reports them.\<close>

record arg_matches =
  am_values :: "(string \<times> string) list"
  am_flags :: "string list"

definition value_of :: "arg_matches \<Rightarrow> string \<Rightarrow> string option" where
  "value_of m k = map_of (am_values m) k"

definition is_present :: "arg_matches \<Rightarrow> string \<Rightarrow> bool" where
  "is_present m k \<longleftrightarrow> k \<in> set (am_flags m) \<or> value_of m k \<noteq> None"

text \<open>What \<open>get_matches\<close> returns: the subcommand given, with its matches.\<close>

type_synonym subcommand = "(string \<times> arg_matches) option"

record clap_arg =
  ca_name :: string
  ca_takes_value :: bool
  ca_possible :: "string list option"
  ca_required :: bool

definition clap_value_arg :: "string \<Rightarrow> clap_arg" where
  "clap_value_arg n = \<lparr>ca_name = n, ca_takes_value = True, ca_possible = None, ca_required = False\<rparr>"

definition clap_flag_arg :: "string \<Rightarrow> clap_arg" where
  "clap_flag_arg n = \<lparr>ca_name = n, ca_takes_value = False, ca_possible = None, ca_required = False\<rparr>"

definition clap_required :: "clap_arg \<Rightarrow> clap_arg" where
  "clap_required a = a\<lparr>ca_required := True\<rparr>"

record clap_subcommand =
  cs_name :: string
  cs_args :: "clap_arg list"
  cs_group :: "(string list \<times> bool) option"

definition clap_matches_ok :: "clap_subcommand \<Rightarrow> arg_matches \<Rightarrow> bool" where
  "clap_matches_ok s m \<longleftrightarrow>
     distinct (map fst (am_values m)) \<and> distinct (am_flags m) \<and>
     list_all (\<lambda>(k, v). list_ex (\<lambda>a. ca_name a = k \<and> ca_takes_value a \<and>
                          (case ca_possible a of None \<Rightarrow> True | Some vs \<Rightarrow> v \<in> set vs)) (cs_args s))
       (am_values m) \<and>
     list_all (\<lambda>k. list_ex (\<lambda>a. ca_name a = k \<and> \<not> ca_takes_value a) (cs_args s)) (am_flags m) \<and>
     list_all (\<lambda>a. \<not> ca_required a \<or> is_present m (ca_name a)) (cs_args s) \<and>
     (case cs_group s of
        None \<Rightarrow> True
      | Some (g, req) \<Rightarrow> length (filter (is_present m) g) \<le> 1 \<and> (\<not> req \<or> list_ex (is_present m) g))"

definition clap_accepts :: "clap_subcommand list \<Rightarrow> subcommand \<Rightarrow> bool" where
  "clap_accepts app sc =
     (case sc of
        None \<Rightarrow> False
      | Some (n, m) \<Rightarrow> (case find (\<lambda>s. cs_name s = n) app of None \<Rightarrow> False | Some s \<Rightarrow> clap_matches_ok s m))"

section \<open>Lemmas\<close>

text \<open>A required argument that takes a value, with no flag of the same name, has a value.\<close>

lemma clap_required_value:
  assumes "clap_matches_ok s m" and "clap_required (clap_value_arg k) \<in> set (cs_args s)"
    and "\<not> list_ex (\<lambda>a. ca_name a = k \<and> \<not> ca_takes_value a) (cs_args s)"
  shows "value_of m k \<noteq> None"
proof -
  have "is_present m k"
    using assms(1,2) by (auto simp: clap_matches_ok_def list_all_iff clap_required_def clap_value_arg_def)
  moreover have "k \<notin> set (am_flags m)"
    using assms(1,3) by (auto simp: clap_matches_ok_def list_all_iff list_ex_iff)
  ultimately show ?thesis by (simp add: is_present_def)
qed

end
