(* ===== verification/FetchCli.thy ===== *)
theory FetchCli
  imports FetchOhlcv Clap
begin

text \<open>
  The command line of \<open>fetch-ohlcv-rs\<close> (\<open>src/app/src/fetch-ohlcv-rs/src/main.rs\<close>):
  \<open>get_args_matches\<close> (lines 50-74) declares three required positional arguments, and
  \<open>get_ohlcv_setting\<close> (lines 81-83) reads them with \<open>value_of(..).unwrap()\<close> before the
  run that \<open>fetch_ohlcv_main\<close> models.
\<close>

section \<open>Definitions\<close>

definition fetch_get_args_matches :: clap_subcommand where
  "fetch_get_args_matches =
     \<lparr>cs_name = ''fetch-ohlcv-rs'',
      cs_args = [clap_required (clap_value_arg ''exchange''), clap_required (clap_value_arg ''pair''),
                 clap_required (clap_value_arg ''period'')],
      cs_group = None\<rparr>"

text \<open>The program after the connection: read the three arguments (a missing one panics), then run.\<close>

definition fetch_cli_main :: "atb_db \<Rightarrow> arg_matches \<Rightarrow> remote \<Rightarrow> int \<times> atb_db" where
  "fetch_cli_main db m rmt =
     (case value_of m ''exchange'' of
        None \<Rightarrow> (101, db)
      | Some ex \<Rightarrow>
     (case value_of m ''pair'' of
        None \<Rightarrow> (101, db)
      | Some pa \<Rightarrow>
     (case value_of m ''period'' of
        None \<Rightarrow> (101, db)
      | Some pe \<Rightarrow> fetch_ohlcv_main db ex pa pe rmt)))"

section \<open>Lemmas\<close>

lemma fetch_args_no_flags: "\<not> list_ex (\<lambda>a. ca_name a = k \<and> \<not> ca_takes_value a) (cs_args fetch_get_args_matches)"
    by (simp add: fetch_get_args_matches_def clap_required_def clap_value_arg_def)
lemma fetch_args_values:
  assumes "clap_matches_ok fetch_get_args_matches m"
  shows "value_of m ''exchange'' \<noteq> None" "value_of m ''pair'' \<noteq> None" "value_of m ''period'' \<noteq> None"
  by (rule clap_required_value [OF assms _ fetch_args_no_flags]; simp add: fetch_get_args_matches_def)+
section \<open>Properties\<close>

text \<open>
  Claim C28. On every command line clap accepts, the three arguments are present, so the
  argument reads never panic and the program runs the fetch for exactly the exchange, pair
  and period given.
\<close>

theorem fetch_cli_runs_given_key:
  assumes "clap_matches_ok fetch_get_args_matches m"
  shows "\<exists>ex pa pe. value_of m ''exchange'' = Some ex \<and> value_of m ''pair'' = Some pa \<and>
           value_of m ''period'' = Some pe \<and> fetch_cli_main db m rmt = fetch_ohlcv_main db ex pa pe rmt"
proof -
  obtain ex pa pe where "value_of m ''exchange'' = Some ex" "value_of m ''pair'' = Some pa"
    "value_of m ''period'' = Some pe" using fetch_args_values [OF assms] by blast
  then show ?thesis by (simp add: fetch_cli_main_def)
qed

section \<open>Witnesses\<close>

theorem fetch_cli_runs_given_key_witness:
  "\<exists>ex pa pe.
     value_of \<lparr>am_values = [(''exchange'', ''bitflyer''), (''pair'', ''btcjpy''), (''period'', ''60'')], am_flags = []\<rparr> ''exchange'' = Some ex \<and>
     value_of \<lparr>am_values = [(''exchange'', ''bitflyer''), (''pair'', ''btcjpy''), (''period'', ''60'')], am_flags = []\<rparr> ''pair'' = Some pa \<and>
     value_of \<lparr>am_values = [(''exchange'', ''bitflyer''), (''pair'', ''btcjpy''), (''period'', ''60'')], am_flags = []\<rparr> ''period'' = Some pe \<and>
     fetch_cli_main \<lparr>ohlcv = [], ohlcv_unique = True, delete_limit = True\<rparr>
       \<lparr>am_values = [(''exchange'', ''bitflyer''), (''pair'', ''btcjpy''), (''period'', ''60'')], am_flags = []\<rparr>
       (\<lambda>_ _ _ _. Inl Transport_Error) =
     fetch_ohlcv_main \<lparr>ohlcv = [], ohlcv_unique = True, delete_limit = True\<rparr> ex pa pe (\<lambda>_ _ _ _. Inl Transport_Error)"
  by (rule fetch_cli_runs_given_key)
     (simp add: clap_matches_ok_def fetch_get_args_matches_def clap_required_def clap_value_arg_def is_present_def value_of_def)

end
