(* ===== verification/FetchRuns.thy ===== *)
theory FetchRuns
  imports FetchOhlcv
begin

text \<open>
  Repeated runs of \<open>fetch-ohlcv-rs\<close> on one key. The program fetches one page of candles
  per run and is meant to be run again and again; this theory shows that against a
  provider with a fixed feed the runs make progress and store the whole feed. The
  provider answers a query with the feed's candles at or after the resume point, oldest
  first, at most \<open>k\<close> per page (\<open>feed_remote\<close>); \<open>fetch_rounds\<close> runs \<open>main\<close>
  (\<open>fetch_ohlcv_main\<close>) \<open>n\<close> times, each run on the database the previous one left. The
  measure of progress is the length of the stored prefix of the feed: every run with
  \<open>k \<ge> 2\<close> extends it by at least one candle until it is the whole feed. With
  \<open>k = 1\<close> the prefix never grows past the first candle, because every run refetches
  its boundary candle.
\<close>

section \<open>A provider with a fixed feed\<close>

definition feed_remote :: "nat \<Rightarrow> ohlcv_tuple list \<Rightarrow> remote" where
  "feed_remote k feed ex pa pe a =
     Inr (candle_response pe (take k (filter (\<lambda>r. a \<le> tuple_time r) feed)))"

text \<open>A feed the runs can store: strictly increasing bucket times after the default
  resume point, within the bounds of the gap analysis.\<close>

definition feed_ok :: "i64 \<Rightarrow> ohlcv_tuple list \<Rightarrow> bool" where
  "feed_ok p feed \<longleftrightarrow>
     sorted_wrt (<) (map tuple_time feed) \<and> (\<forall>r \<in> set feed. epoch_default < tuple_time r) \<and>
     lack_bounds p (map tuple_time feed)"

section \<open>Repeated runs\<close>

fun fetch_rounds ::
  "nat \<Rightarrow> atb_db \<Rightarrow> string \<Rightarrow> string \<Rightarrow> string \<Rightarrow> remote \<Rightarrow> int list \<times> atb_db" where
  "fetch_rounds 0 db ex pa pe rmt = ([], db)"
| "fetch_rounds (Suc n) db ex pa pe rmt =
     (case fetch_ohlcv_main db ex pa pe rmt of
        (c, db1) \<Rightarrow> (case fetch_rounds n db1 ex pa pe rmt of (cs, db2) \<Rightarrow> (c # cs, db2)))"

text \<open>The candles stored under one key, by bucket time, and the same view of a list of
  candles.\<close>

definition key_candles :: "atb_db \<Rightarrow> string \<Rightarrow> string \<Rightarrow> string \<Rightarrow> i64 \<rightharpoonup> prices" where
  "key_candles db ex pa pe t = candles db (ex, pa, pe, t)"

definition feed_map :: "ohlcv_tuple list \<Rightarrow> i64 \<rightharpoonup> prices" where
  "feed_map rs = map_of (map (\<lambda>r. (tuple_time r, tuple_prices r)) rs)"

text \<open>The invariant of the runs: the key holds exactly the first \<open>m\<close> candles of the
  feed, the keys are unique and the boundary delete is supported.\<close>

definition caught :: "ohlcv_tuple list \<Rightarrow> nat \<Rightarrow> atb_db \<Rightarrow> string \<Rightarrow> string \<Rightarrow> string \<Rightarrow> bool" where
  "caught feed m db ex pa pe \<longleftrightarrow>
     ohlcv_wf db \<and> delete_limit db \<and> m \<le> length feed \<and>
     key_candles db ex pa pe = feed_map (take m feed)"

section \<open>The feed as a sorted list\<close>

lemma dom_feed_map [simp]: "dom (feed_map rs) = tuple_time ` set rs"
  by (force simp: feed_map_def dom_map_of_conv_image_fst)

lemma key_map_of:
  "map_of (map (\<lambda>r. ((ex, pa, pe, tuple_time r), tuple_prices r)) rs) (ex, pa, pe, t) = feed_map rs t"
  by (induction rs) (auto simp: feed_map_def)

lemma feed_map_single [simp]: "feed_map [r] = [tuple_time r \<mapsto> tuple_prices r]"
  by (simp add: feed_map_def)

lemma feed_distinct:
  "sorted_wrt (<) (map tuple_time feed) \<Longrightarrow> distinct (map tuple_time feed)"
  by (simp add: strict_sorted_iff)

lemma feed_take_drop_disjoint:
  assumes "sorted_wrt (<) (map tuple_time feed)"
  shows "tuple_time ` set (take i feed) \<inter> tuple_time ` set (drop i feed) = {}"
proof -
  have "distinct (map tuple_time (take i feed) @ map tuple_time (drop i feed))"
    using feed_distinct [OF assms] by (simp flip: map_append)
  then show ?thesis by simp
qed

lemma feed_map_append:
  assumes "tuple_time ` set xs \<inter> tuple_time ` set ys = {}"
  shows "feed_map (xs @ ys) = feed_map xs ++ feed_map ys"
proof -
  have "dom (feed_map ys) \<inter> dom (feed_map xs) = {}" using assms by auto
  then show ?thesis by (simp add: feed_map_def map_of_append map_add_comm)
qed

lemma feed_filter_after:
  "sorted_wrt (<) (map tuple_time feed) \<Longrightarrow> i < length feed \<Longrightarrow>
   filter (\<lambda>r. tuple_time (feed ! i) \<le> tuple_time r) feed = drop i feed"
proof (induction feed arbitrary: i)
  case (Cons r rs)
  show ?case
  proof (cases i)
    case 0
    then show ?thesis using Cons.prems by (auto simp: less_imp_le intro!: filter_True)
  next
    case (Suc j)
    then have lt: "tuple_time r < tuple_time (rs ! j)" using Cons.prems by (simp add: nth_mem)
    have "\<not> tuple_time (rs ! j) \<le> tuple_time r" using lt by simp
    then show ?thesis using Cons.IH [of j] Cons.prems Suc by simp
  qed
qed simp

lemma feed_last_time:
  assumes "sorted_wrt (<) (map tuple_time feed)" and "0 < m" and "m \<le> length feed"
  shows "Max (tuple_time ` set (take m feed)) = tuple_time (feed ! (m - 1))"
proof -
  have "sorted_wrt (<) (map tuple_time (take m feed))"
    using assms(1) by (simp add: sorted_wrt_take flip: take_map)
  then have "sorted (map tuple_time (take m feed))"
    by (simp add: strict_sorted_iff)
  moreover have ne: "take m feed \<noteq> []" using assms(2,3) by auto
  then have "map tuple_time (take m feed) \<noteq> []" by simp
  ultimately have "Max (set (map tuple_time (take m feed))) = last (map tuple_time (take m feed))"
    by (rule sorted_Max_last)
  then show ?thesis using assms(2,3) ne by (simp add: last_map last_conv_nth min_def)
qed

lemma feed_map_drop_last:
  assumes "sorted_wrt (<) (map tuple_time feed)" and "0 < m" and "m \<le> length feed"
  shows "(feed_map (take m feed))(tuple_time (feed ! (m - 1)) := None) = feed_map (take (m - 1) feed)"
proof -
  have tk: "take m feed = take (m - 1) feed @ [feed ! (m - 1)]"
    using assms(2,3) take_Suc_conv_app_nth [of "m - 1" feed] by simp
  have "distinct (map tuple_time (take m feed))"
    using feed_distinct [OF assms(1)] by (simp flip: take_map)
  then have "tuple_time (feed ! (m - 1)) \<notin> tuple_time ` set (take (m - 1) feed)"
    using tk by simp
  then show ?thesis
    using tk feed_map_append [of "take (m - 1) feed" "[feed ! (m - 1)]"]
    by (simp add: fun_upd_None_if_notin_dom)
qed

lemma lack_bounds_sub:
  "lack_bounds p xs \<Longrightarrow> set ys \<subseteq> set xs \<Longrightarrow> length ys \<le> length xs \<Longrightarrow> lack_bounds p ys"
  by (auto simp: lack_bounds_def)

lemma take_min_length: "take (min n (length xs)) xs = take n xs"
  by (simp add: min_def)

section \<open>One run\<close>

lemma store_delete_limit:
  "delete_limit (snd (store_ohlcv_to_database db st resp)) = delete_limit db"
proof -
  have b: "delete_limit (snd (boundary_delete db st)) = delete_limit db"
    by (simp add: boundary_delete_def delete_ohlcv_def Let_def)
  then have "delete_limit (insert_ohlcv_list (snd (boundary_delete db st)) ex pa pe rs) = delete_limit db"
    for ex pa pe rs
    using insert_ohlcv_list_flags by metis
  with b show ?thesis
    by (auto simp: store_ohlcv_to_database_def Let_def split: option.split sum.split prod.split)
qed

text \<open>The resume point of a run on the invariant: the default on an empty key, else the
  bucket time of the last stored candle of the feed; the provider's page starts there.\<close>

lemma caught_after:
  assumes ok: "feed_ok p feed" and inv: "caught feed m db ex pa pe"
  shows "after (get_ohlcv_setting db ex pa pe) = (if m = 0 then epoch_default else tuple_time (feed ! (m - 1)))"
    and "filter (\<lambda>r. after (get_ohlcv_setting db ex pa pe) \<le> tuple_time r) feed = drop (m - 1) feed"
proof -
  have srt: "sorted_wrt (<) (map tuple_time feed)" and gt: "\<forall>r \<in> set feed. epoch_default < tuple_time r"
    using ok by (simp_all add: feed_ok_def)
  have mlen: "m \<le> length feed" and key: "key_candles db ex pa pe = feed_map (take m feed)"
    using inv by (simp_all add: caught_def)
  have "{t. (ex, pa, pe, t) \<in> dom (candles db)} = dom (key_candles db ex pa pe)"
    by (auto simp: key_candles_def)
  then have S: "{t. (ex, pa, pe, t) \<in> dom (candles db)} = tuple_time ` set (take m feed)"
    using key by simp
  show a: "after (get_ohlcv_setting db ex pa pe) = (if m = 0 then epoch_default else tuple_time (feed ! (m - 1)))"
  proof (cases "m = 0")
    case True
    then show ?thesis using S by (simp add: get_ohlcv_setting_def get_last_unixtime_max)
  next
    case False
    then have "take m feed \<noteq> []" using mlen by auto
    then show ?thesis
      using False S feed_last_time [OF srt _ mlen] by (simp add: get_ohlcv_setting_def get_last_unixtime_max)
  qed
  show "filter (\<lambda>r. after (get_ohlcv_setting db ex pa pe) \<le> tuple_time r) feed = drop (m - 1) feed"
  proof (cases "m = 0")
    case True
    then show ?thesis using a gt by (auto simp: less_imp_le intro!: filter_True)
  next
    case False
    then show ?thesis using a mlen feed_filter_after [OF srt, of "m - 1"] by simp
  qed
qed

text \<open>After the boundary delete the key holds the feed's prefix without its last candle.\<close>

lemma caught_boundary:
  assumes ok: "feed_ok p feed" and inv: "caught feed m db ex pa pe"
  shows "boundary_candles db (get_ohlcv_setting db ex pa pe) (ex, pa, pe, t) = feed_map (take (m - 1) feed) t"
proof -
  have srt: "sorted_wrt (<) (map tuple_time feed)"
    using ok by (simp add: feed_ok_def)
  have mlen: "m \<le> length feed" and key: "key_candles db ex pa pe = feed_map (take m feed)"
    using inv by (simp_all add: caught_def)
  note a = caught_after(1) [OF ok inv]
  show ?thesis
  proof (cases "m = 0")
    case True
    then show ?thesis using a key by (simp add: boundary_candles_def key_candles_def fun_eq_iff)
  next
    case False
    have "feed ! (m - 1) \<in> set feed" using False mlen by simp
    then have "epoch_default \<noteq> tuple_time (feed ! (m - 1))"
      using ok by (force simp: feed_ok_def)
    moreover have "((feed_map (take m feed))(tuple_time (feed ! (m - 1)) := None)) t =
                   feed_map (take (m - 1) feed) t"
      using feed_map_drop_last [OF srt _ mlen] False by simp
    moreover have "candles db (ex, pa, pe, t) = feed_map (take m feed) t"
      using fun_cong [OF key, of t] by (simp add: key_candles_def)
    ultimately show ?thesis
      using False a by (simp add: boundary_candles_def get_ohlcv_setting_def split: if_splits)
  qed
qed

text \<open>One run on the invariant stores the provider's page: it exits with 0 and the key
  then holds the feed's prefix of length \<open>m - 1 + k\<close>, or the whole feed.\<close>

lemma fetch_round_step:
  assumes ok: "feed_ok p feed" and ne: "feed \<noteq> []" and per: "parse_i64 pe = Some p"
    and k: "1 \<le> k" and inv: "caught feed m db ex pa pe"
  shows "\<exists>db'. fetch_ohlcv_main db ex pa pe (feed_remote k feed) = (0, db') \<and>
           caught feed (min (m - 1 + k) (length feed)) db' ex pa pe"
proof -
  let ?st = "get_ohlcv_setting db ex pa pe"
  let ?recs = "take k (drop (m - 1) feed)"
  have srt: "sorted_wrt (<) (map tuple_time feed)" and bnd: "lack_bounds p (map tuple_time feed)"
    using ok by (simp_all add: feed_ok_def)
  have wf: "ohlcv_wf db" and lim: "delete_limit db" and mlen: "m \<le> length feed"
    using inv by (simp_all add: caught_def)
  have st: "st_exchange ?st = ex" "st_pair ?st = pa" "st_period ?st = pe"
    by (simp_all add: get_ohlcv_setting_def)
  have fetched: "fetch_ohlcv_from_cryptowat (feed_remote k feed) ?st = Inr (candle_response pe ?recs)"
    using caught_after(2) [OF ok inv] st by (simp add: fetch_ohlcv_from_cryptowat_def feed_remote_def)
  have sub: "set ?recs \<subseteq> set (drop (m - 1) feed)"
    by (rule set_take_subset)
  have disj: "tuple_time ` set (take (m - 1) feed) \<inter> tuple_time ` set ?recs = {}"
    using feed_take_drop_disjoint [OF srt, of "m - 1"] sub by blast
  have fresh: "\<forall>r \<in> set ?recs. (st_exchange ?st, st_pair ?st, st_period ?st, tuple_time r) \<notin>
                 dom (boundary_candles db ?st)"
  proof
    fix r assume "r \<in> set ?recs"
    then have "tuple_time r \<notin> tuple_time ` set (take (m - 1) feed)" using disj by auto
    then have "feed_map (take (m - 1) feed) (tuple_time r) = None"
      by (metis dom_feed_map domIff)
    then show "(st_exchange ?st, st_pair ?st, st_period ?st, tuple_time r) \<notin> dom (boundary_candles db ?st)"
      using caught_boundary [OF ok inv, of "tuple_time r"] st by (simp add: domIff)
  qed
  have dist: "distinct (map tuple_time ?recs)"
    using feed_distinct [OF srt] by (simp add: distinct_take distinct_drop flip: take_map drop_map)
  have bnd': "lack_bounds p (map tuple_time ?recs)"
    using sub set_drop_subset [of "m - 1" feed] by (intro lack_bounds_sub [OF bnd]) auto
  have "m - 1 < length feed"
  proof -
    have "0 < length feed" using ne by simp
    then show ?thesis using mlen by linarith
  qed
  then have rne: "?recs \<noteq> []"
    using k by auto
  have lim': "after ?st \<noteq> epoch_default \<longrightarrow> delete_limit db"
    using lim by simp
  obtain ls db' where run: "store_ohlcv_to_database db ?st (candle_response pe ?recs) =
      (Inr (Ingested (length ?recs) (tuple_time (hd ?recs)) (tuple_time (last ?recs)) ls), db')"
    and cd: "candles db' = boundary_candles db ?st ++
               map_of (map (\<lambda>r. ((ex, pa, pe, tuple_time r), tuple_prices r)) ?recs)"
    and wf': "ohlcv_wf db'"
    using store_candles_run [OF wf lim' rne dist fresh _ bnd'] per st by auto
  have main: "fetch_ohlcv_main db ex pa pe (feed_remote k feed) = (0, db')"
    using fetched run by (simp add: fetch_ohlcv_main_def)
  have lim2: "delete_limit db'"
    using store_delete_limit [of db ?st "candle_response pe ?recs"] run lim by simp
  have "key_candles db' ex pa pe = feed_map (take (m - 1) feed) ++ feed_map ?recs"
    using cd caught_boundary [OF ok inv]
    by (simp add: key_candles_def fun_eq_iff map_add_def key_map_of split: option.split)
  also have "\<dots> = feed_map (take (m - 1 + k) feed)"
    using feed_map_append [OF disj] by (simp add: take_add)
  finally have "key_candles db' ex pa pe = feed_map (take (min (m - 1 + k) (length feed)) feed)"
    by (simp add: take_min_length)
  then show ?thesis
    using main wf' lim2 by (simp add: caught_def)
qed

section \<open>Two runs on the same page\<close>

text \<open>Inserting a page into a store that already holds it, less at most one of its keys,
  gives back that store: the missing key is stored again with the page's prices and every
  other key is refused.\<close>

lemma candles_insert_list_restore:
  assumes "m \<subseteq>\<^sub>m M" and "dom M \<subseteq> dom m \<union> (\<lambda>r. (ex, pa, pe, tuple_time r)) ` set recs"
    and "\<forall>r \<in> set recs. M (ex, pa, pe, tuple_time r) = Some (tuple_prices r)"
  shows "candles_insert_list m ex pa pe recs = M"
  using assms
proof (induction recs arbitrary: m)
  case Nil
  have "M \<subseteq>\<^sub>m m"
    unfolding map_le_def
  proof
    fix a assume "a \<in> dom M"
    then have "a \<in> dom m" using Nil.prems(2) by auto
    then show "M a = m a" using Nil.prems(1) by (simp add: map_le_def)
  qed
  then show ?case
    using Nil.prems(1) by (simp add: candles_insert_list_def map_le_antisym)
next
  case (Cons r recs)
  let ?m' = "candle_insert m (ex, pa, pe, tuple_time r) (tuple_prices r)"
  have "?m' \<subseteq>\<^sub>m M"
    using Cons.prems(1,3) by (auto simp: candle_insert_def map_le_def)
  moreover have "dom M \<subseteq> dom ?m' \<union> (\<lambda>r. (ex, pa, pe, tuple_time r)) ` set recs"
    using Cons.prems(2) by (auto simp: candle_insert_def)
  ultimately have "candles_insert_list ?m' ex pa pe recs = M"
    using Cons.prems(3) by (intro Cons.IH) simp_all
  then show ?case
    by (simp add: candles_insert_list_def)
qed

text \<open>On tables with unique keys the abstract store determines the set of rows.\<close>

lemma row_in_candles:
  assumes "ohlcv_wf db"
  shows "r \<in> set (ohlcv db) \<longleftrightarrow> candles db (row_key r) = Some (row_prices r)"
proof -
  have d: "distinct (map fst (map (\<lambda>r. (row_key r, row_prices r)) (ohlcv db)))"
    using assms by (simp add: ohlcv_wf_def comp_def)
  have "r' = r" if "row_key r' = row_key r" and "row_prices r' = row_prices r" for r'
    using that by (simp add: row_key_def row_prices_def)
  then show ?thesis
    using map_of_eq_Some_iff [OF d] by (auto simp: candles_def)
qed

lemma rows_eq_of_candles:
  "ohlcv_wf db \<Longrightarrow> ohlcv_wf db' \<Longrightarrow> candles db' = candles db \<Longrightarrow> set (ohlcv db') = set (ohlcv db)"
  by (auto simp: row_in_candles)

text \<open>After that run the next resume point is a bucket of the page: every older candle
  left is before \<open>W\<close>, and the page starts at or after \<open>W\<close>.\<close>

lemma rerun_after_in_page:
  assumes W: "get_last_unixtime_from_ohlcv db ex pa pe = Inr W"
    and nonempty: "recs \<noteq> []" and later: "\<forall>r \<in> set recs. W \<le> tuple_time r"
    and c1: "candles db1 = (candles db)((ex, pa, pe, W) := None) ++
                           map_of (map (\<lambda>r. ((ex, pa, pe, tuple_time r), tuple_prices r)) recs)"
  shows "after (get_ohlcv_setting db1 ex pa pe) \<in> tuple_time ` set recs"
proof -
  let ?new = "map (\<lambda>r. ((ex, pa, pe, tuple_time r), tuple_prices r)) recs"
  have b: "(ex, pa, pe, tuple_time (hd recs)) \<in> dom (candles db1)"
    using c1 hd_in_set [OF nonempty] by (auto simp: dom_map_of_conv_image_fst image_image)
  then have ne1: "{t. (ex, pa, pe, t) \<in> dom (candles db1)} \<noteq> {}"
    by blast
  define W' where "W' = Max {t. (ex, pa, pe, t) \<in> dom (candles db1)}"
  have W': "get_last_unixtime_from_ohlcv db1 ex pa pe = Inr W'"
    unfolding get_last_unixtime_max W'_def by (simp only: ne1 if_False)
  have "W \<le> W'"
    using later nonempty get_last_unixtime_Inr [OF W' b] by (meson hd_in_set order_trans)
  moreover have "(ex, pa, pe, W') \<in> dom (candles db1)"
    using W' by (rule get_last_unixtime_in)
  ultimately have "W' \<in> tuple_time ` set recs"
    using c1 get_last_unixtime_Inr [OF W, of W'] by (auto simp: dom_map_of_conv_image_fst split: if_splits)
  then show ?thesis
    using W' by (simp add: get_ohlcv_setting_def)
qed

text \<open>
  Claim C8. Idempotence. On a table with unique keys whose SQLite supports the boundary
  delete, let the key's watermark \<open>W\<close> not be the default and the provider send the same
  page of distinct candles at or after \<open>W\<close> twice. Both runs succeed, and the second leaves
  exactly the set of rows the first left.
\<close>

theorem store_idempotent:
  assumes wf: "ohlcv_wf db" and uq: "ohlcv_unique db" and lim: "delete_limit db"
    and W: "get_last_unixtime_from_ohlcv db ex pa pe = Inr W" and ne: "W \<noteq> epoch_default"
    and nonempty: "recs \<noteq> []" and dist: "distinct (map tuple_time recs)"
    and later: "\<forall>r \<in> set recs. W \<le> tuple_time r"
    and per: "parse_i64 pe = Some p" and bnd: "lack_bounds p (map tuple_time recs)"
  shows "\<exists>rep1 db1 rep2 db2.
           store_ohlcv_to_database db (get_ohlcv_setting db ex pa pe) (candle_response pe recs) = (Inr rep1, db1) \<and>
           store_ohlcv_to_database db1 (get_ohlcv_setting db1 ex pa pe) (candle_response pe recs) = (Inr rep2, db2) \<and>
           set (ohlcv db2) = set (ohlcv db1)"
proof -
  let ?st = "get_ohlcv_setting db ex pa pe"
  let ?new = "map (\<lambda>r. ((ex, pa, pe, tuple_time r), tuple_prices r)) recs"
  have st: "st_exchange ?st = ex" "st_pair ?st = pa" "st_period ?st = pe"
    by (simp_all add: get_ohlcv_setting_def)
  note bc = watermark_boundary [OF W ne later]
  have lim': "after ?st \<noteq> epoch_default \<longrightarrow> delete_limit db"
    using lim by simp
  have fresh: "\<forall>r \<in> set recs. (st_exchange ?st, st_pair ?st, st_period ?st, tuple_time r) \<notin>
                 dom (boundary_candles db ?st)"
    using bc(2) st by simp
  have per': "parse_i64 (st_period ?st) = Some p"
    using per st by simp
  obtain rep1 db1 where run1: "store_ohlcv_to_database db ?st (candle_response pe recs) = (Inr rep1, db1)"
    and c1: "candles db1 = boundary_candles db ?st ++ map_of ?new" and wf1: "ohlcv_wf db1"
    using store_candles_run [OF wf lim' nonempty dist fresh per' bnd] st by auto
  have uq1: "ohlcv_unique db1" and lim1: "delete_limit db1"
    using store_unique_wf [of db ?st "candle_response pe recs"] store_delete_limit [of db ?st "candle_response pe recs"]
      run1 uq lim by simp_all
  let ?st2 = "get_ohlcv_setting db1 ex pa pe"
  have st2: "st_exchange ?st2 = ex" "st_pair ?st2 = pa" "st_period ?st2 = pe"
    by (simp_all add: get_ohlcv_setting_def)
  obtain rep2 db2 where run2: "store_ohlcv_to_database db1 ?st2 (candle_response pe recs) = (Inr rep2, db2)"
    and c2: "candles db2 = candles_insert_list (boundary_candles db1 ?st2) ex pa pe recs"
    using store_run_any [OF wf1 _ nonempty _ bnd, of ?st2] lim1 per st2 by auto
  have wf2: "ohlcv_wf db2"
    using store_unique_wf [of db1 ?st2 "candle_response pe recs"] run2 uq1 wf1 by simp
  have "distinct (map fst ?new)"
    using dist by (simp add: comp_def distinct_map inj_on_def)
  then have inM: "\<forall>r \<in> set recs. candles db1 (ex, pa, pe, tuple_time r) = Some (tuple_prices r)"
    using c1 by (auto intro: map_add_find_right map_of_is_SomeI)
  have le: "boundary_candles db1 ?st2 \<subseteq>\<^sub>m candles db1"
    by (auto simp: boundary_candles_def map_le_def st2)
  have "dom (candles db1) \<subseteq> dom (boundary_candles db1 ?st2) \<union> (\<lambda>r. (ex, pa, pe, tuple_time r)) ` set recs"
    using rerun_after_in_page [OF W nonempty later] c1 bc(1) st2
    by (auto simp: boundary_candles_def)
  then have "candles db2 = candles db1"
    using c2 candles_insert_list_restore [OF le _ inM] by simp
  then show ?thesis
    using run1 run2 rows_eq_of_candles [OF wf1 wf2] by blast
qed

theorem store_idempotent_witness:
  "\<exists>rep1 db1 rep2 db2.
     store_ohlcv_to_database \<lparr>ohlcv = [row_of ''ex'' ''pa'' ''60'' (1, 2, 0, 1, 5, 1514764860)], ohlcv_unique = True, delete_limit = True\<rparr>
       (get_ohlcv_setting \<lparr>ohlcv = [row_of ''ex'' ''pa'' ''60'' (1, 2, 0, 1, 5, 1514764860)], ohlcv_unique = True,
          delete_limit = True\<rparr> ''ex'' ''pa'' ''60'')
       (candle_response ''60'' [(3, 4, 2, 3, 7, 1514764860), (3, 4, 2, 3, 7, 1514764920)]) = (Inr rep1, db1) \<and>
     store_ohlcv_to_database db1 (get_ohlcv_setting db1 ''ex'' ''pa'' ''60'')
       (candle_response ''60'' [(3, 4, 2, 3, 7, 1514764860), (3, 4, 2, 3, 7, 1514764920)]) = (Inr rep2, db2) \<and>
     set (ohlcv db2) = set (ohlcv db1)"
  by (rule store_idempotent [where W = 1514764860 and p = 60])
    (simp_all add: ohlcv_wf_def row_key_def get_last_unixtime_from_ohlcv_def matches_def epoch_default_def
      tuple_time_def parse_i64_60 lack_bounds_def chrono_ok_def chrono_min_def chrono_max_def)

section \<open>Progress over runs\<close>

text \<open>The measure of progress: every run takes the stored prefix from \<open>m\<close> to at least
  \<open>min (m + 1) (length feed)\<close> when \<open>k \<ge> 2\<close>, so after \<open>n\<close> runs it is at least
  \<open>min (m + n) (length feed)\<close>.\<close>

lemma fetch_rounds_progress:
  assumes ok: "feed_ok p feed" and ne: "feed \<noteq> []" and per: "parse_i64 pe = Some p"
    and k: "2 \<le> k"
  shows "caught feed m db ex pa pe \<Longrightarrow>
         \<exists>m' db'. fetch_rounds n db ex pa pe (feed_remote k feed) = (replicate n 0, db') \<and>
           caught feed m' db' ex pa pe \<and> min (m + n) (length feed) \<le> m'"
proof (induction n arbitrary: m db)
  case 0
  then show ?case by (auto simp: caught_def)
next
  case (Suc n)
  obtain db1 where run: "fetch_ohlcv_main db ex pa pe (feed_remote k feed) = (0, db1)"
    and inv1: "caught feed (min (m - 1 + k) (length feed)) db1 ex pa pe"
    using fetch_round_step [OF ok ne per _ Suc.prems, of k] k by auto
  obtain m' db' where rest: "fetch_rounds n db1 ex pa pe (feed_remote k feed) = (replicate n 0, db')"
    and inv': "caught feed m' db' ex pa pe"
    and le: "min (min (m - 1 + k) (length feed) + n) (length feed) \<le> m'"
    using Suc.IH [OF inv1] by blast
  have "min (m + Suc n) (length feed) \<le> m'"
    using le k by linarith
  then show ?case
    using run rest inv' by auto
qed

text \<open>A provider that serves one candle per page stalls the runs: every run deletes the
  boundary candle and stores it again, so the key never holds more than the feed's first
  candle.\<close>

lemma fetch_rounds_single_page_stalls:
  assumes ok: "feed_ok p feed" and ne: "feed \<noteq> []" and per: "parse_i64 pe = Some p"
  shows "caught feed m db ex pa pe \<Longrightarrow> 0 < m \<Longrightarrow>
         \<exists>db'. fetch_rounds n db ex pa pe (feed_remote 1 feed) = (replicate n 0, db') \<and>
           caught feed m db' ex pa pe"
proof (induction n arbitrary: db)
  case (Suc n)
  obtain db1 where run: "fetch_ohlcv_main db ex pa pe (feed_remote 1 feed) = (0, db1)"
    and inv1: "caught feed (min (m - 1 + 1) (length feed)) db1 ex pa pe"
    using fetch_round_step [OF ok ne per _ Suc.prems(1), of 1] by auto
  have "min (m - 1 + 1) (length feed) = m"
    using Suc.prems by (simp add: caught_def)
  then show ?case
    using run inv1 Suc.IH Suc.prems(2) by fastforce
qed simp

section \<open>Catching up\<close>

text \<open>
  Claim C9. Repeated runs catch up with the provider. Start from a key with no candle on a
  table with unique keys whose SQLite supports the boundary delete. Let the provider serve a
  feed of strictly increasing candles after the default resume point, at least two per
  page. Then any number of runs at least the feed's length all exit with 0, and afterwards
  the key holds exactly the feed's candles.
\<close>

theorem fetch_rounds_catch_up:
  assumes "feed_ok p feed" and "feed \<noteq> []" and "parse_i64 pe = Some p" and "2 \<le> k"
    and "ohlcv_wf db" and "delete_limit db" and "\<forall>t. candles db (ex, pa, pe, t) = None"
    and "length feed \<le> n"
  shows "\<exists>db'. fetch_rounds n db ex pa pe (feed_remote k feed) = (replicate n 0, db') \<and>
           key_candles db' ex pa pe = feed_map feed \<and> ohlcv_wf db'"
proof -
  have "caught feed 0 db ex pa pe"
    using assms(5-7) by (simp add: caught_def key_candles_def fun_eq_iff feed_map_def)
  then obtain m' db' where run: "fetch_rounds n db ex pa pe (feed_remote k feed) = (replicate n 0, db')"
    and inv: "caught feed m' db' ex pa pe" and le: "min n (length feed) \<le> m'"
    using fetch_rounds_progress [OF assms(1-4)] by fastforce
  have "m' = length feed"
    using inv le assms(8) by (simp add: caught_def)
  then show ?thesis
    using run inv by (simp add: caught_def)
qed

theorem fetch_rounds_catch_up_witness:
  "\<exists>db'. fetch_rounds 3 \<lparr>ohlcv = [], ohlcv_unique = True, delete_limit = True\<rparr> ''ex'' ''pa'' ''60''
           (feed_remote 2 [(1, 2, 0, 1, 5, 1514764860), (2, 3, 1, 2, 6, 1514764920), (3, 4, 2, 3, 7, 1514764980)]) =
         (replicate 3 0, db') \<and>
         key_candles db' ''ex'' ''pa'' ''60'' =
           feed_map [(1, 2, 0, 1, 5, 1514764860), (2, 3, 1, 2, 6, 1514764920), (3, 4, 2, 3, 7, 1514764980)] \<and>
         ohlcv_wf db'"
  by (rule fetch_rounds_catch_up [where p = 60])
    (simp_all add: feed_ok_def lack_bounds_def chrono_ok_def chrono_min_def chrono_max_def
      epoch_default_def tuple_time_def parse_i64_60 ohlcv_wf_def candles_def)

text \<open>
  Claim C10. One candle per page stalls the runs. Under the hypotheses of the catch-up claim
  but with pages of one candle, every run exits with 0, yet after any positive number of
  runs the key holds only the feed's first candle: each run deletes its boundary candle and
  fetches it again.
\<close>

theorem fetch_rounds_single_page:
  assumes ok: "feed_ok p feed" and ne: "feed \<noteq> []" and per: "parse_i64 pe = Some p"
    and "ohlcv_wf db" and "delete_limit db" and "\<forall>t. candles db (ex, pa, pe, t) = None"
    and n: "0 < n"
  shows "\<exists>db'. fetch_rounds n db ex pa pe (feed_remote 1 feed) = (replicate n 0, db') \<and>
           key_candles db' ex pa pe = feed_map (take 1 feed)"
proof -
  have "caught feed 0 db ex pa pe"
    using assms(4-6) by (simp add: caught_def key_candles_def fun_eq_iff feed_map_def)
  then obtain db1 where run: "fetch_ohlcv_main db ex pa pe (feed_remote 1 feed) = (0, db1)"
    and inv1: "caught feed (min (0 - 1 + 1) (length feed)) db1 ex pa pe"
    using fetch_round_step [OF ok ne per, of 1 0 db ex pa] by auto
  have inv: "caught feed 1 db1 ex pa pe"
  proof -
    have "min (0 - 1 + 1) (length feed) = (1::nat)" using ne by (simp add: Suc_le_eq)
    then show ?thesis using inv1 by simp
  qed
  obtain n' where n': "n = Suc n'" using n by (cases n) auto
  obtain db' where rest: "fetch_rounds n' db1 ex pa pe (feed_remote 1 feed) = (replicate n' 0, db')"
    and inv': "caught feed 1 db' ex pa pe"
    using fetch_rounds_single_page_stalls [OF ok ne per inv] by auto
  show ?thesis
    using run rest inv' n' by (simp add: caught_def)
qed

theorem fetch_rounds_single_page_witness:
  "\<exists>db'. fetch_rounds 3 \<lparr>ohlcv = [], ohlcv_unique = True, delete_limit = True\<rparr> ''ex'' ''pa'' ''60''
           (feed_remote 1 [(1, 2, 0, 1, 5, 1514764860), (2, 3, 1, 2, 6, 1514764920), (3, 4, 2, 3, 7, 1514764980)]) =
         (replicate 3 0, db') \<and>
         key_candles db' ''ex'' ''pa'' ''60'' =
           feed_map (take 1 [(1, 2, 0, 1, 5, 1514764860), (2, 3, 1, 2, 6, 1514764920), (3, 4, 2, 3, 7, 1514764980)])"
  by (rule fetch_rounds_single_page [where p = 60])
    (simp_all add: feed_ok_def lack_bounds_def chrono_ok_def chrono_min_def chrono_max_def
      epoch_default_def tuple_time_def parse_i64_60 ohlcv_wf_def candles_def)

end
