(* ===== verification/BotStore.thy ===== *)
theory BotStore
  imports Prelude
begin

text \<open>
  The \<open>bot\<close> table of \<open>atb-db\<close> (\<open>src/app/lib/atb-db/src/lib.rs\<close>, lines 14-41 and
  186-342): the \<open>Bot\<close> and \<open>BotForGet\<close> structs, \<open>insert_bot\<close>, \<open>update_bot\<close>,
  \<open>delete_bot\<close>, \<open>get_bot\<close>, \<open>get_bot_for_api\<close> and \<open>get_bot_list\<close>.

  The repository does not contain the table's schema, so the schema is part of the state:
  the columns after \<open>id\<close> in declaration order, each with its type affinity, its
  \<open>NOT NULL\<close> flag and its default. \<open>id\<close> is taken to be the first column, an
  \<open>INTEGER PRIMARY KEY\<close> (the rowid) without \<open>AUTOINCREMENT\<close>, so that a new row gets
  the largest id plus one. Values are SQLite's dynamic values; binding a \<open>String\<close> into a
  column of \<open>INTEGER\<close> affinity stores an integer when the text is an integer literal
  (the model recognises the literals of \<open>parse_i64\<close>: SQLite's conversion of real
  literals such as \<open>1.0\<close> is not modelled). The rows are kept in rowid order, the
  order of a table scan. The option map \<open>HashMap<String, String>\<close> is an association
  list with distinct keys in iteration order; the SQL the code builds pairs each key with
  its value, so the order does not matter to the result.
\<close>

section \<open>Values, schema and rows\<close>

datatype sql_value = SqlNull | SqlInt i64 | SqlText string

datatype affinity = Aff_Integer | Aff_Text

record bot_column =
  col_name :: string
  col_affinity :: affinity
  col_notnull :: bool
  col_default :: sql_value

text \<open>
  \<open>bot_limit\<close> is the same compile option as \<open>delete_limit\<close> of the candle table:
  \<open>UPDATE \<dots> LIMIT\<close> and \<open>DELETE \<dots> LIMIT\<close> are both accepted only with
  \<open>SQLITE_ENABLE_UPDATE_DELETE_LIMIT\<close>.
\<close>

record bot_table =
  bot_cols :: "bot_column list"
  bot_rows :: "(i64 \<times> sql_value list) list"
  bot_limit :: bool

type_synonym bot_option = "(string \<times> string) list"

text \<open>\<open>struct Bot\<close> and \<open>struct BotForGet\<close> (lines 14-36); \<open>BotList\<close> is a list.\<close>

record bot =
  bot_id :: i64
  bot_name :: string
  bot_description :: string
  bot_enable :: bool
  bot_registered :: i64
  bot_token :: string
  bot_long_order :: bool
  bot_short_order :: bool
  bot_operate_type :: string

record bot_for_get =
  bfg_name :: string
  bfg_description :: string
  bfg_enable :: bool
  bfg_registered :: i64
  bfg_long_order :: bool
  bfg_short_order :: bool
  bfg_operate_type :: string

text \<open>\<open>Bot::get_id\<close> and \<open>BotList::get_list_len\<close> (lines 328-342); a \<open>BotList\<close> is its vector.\<close>

definition get_id :: "bot \<Rightarrow> i64" where
  "get_id b = bot_id b"

definition get_list_len :: "bot list \<Rightarrow> usize" where
  "get_list_len bs = length bs"

text \<open>A bound \<open>String\<close> under the column's affinity.\<close>

definition apply_affinity :: "affinity \<Rightarrow> string \<Rightarrow> sql_value" where
  "apply_affinity a s =
     (case a of
        Aff_Text \<Rightarrow> SqlText s
      | Aff_Integer \<Rightarrow> (case parse_i64 s of Some n \<Rightarrow> SqlInt n | None \<Rightarrow> SqlText s))"

fun col_pos :: "string \<Rightarrow> bot_column list \<Rightarrow> nat option" where
  "col_pos c [] = None"
| "col_pos c (x # xs) = (if col_name x = c then Some 0 else map_option Suc (col_pos c xs))"

text \<open>A name the statement may use: \<open>id\<close> or a declared column (else \<open>no such column\<close>).\<close>

definition column_ok :: "bot_column list \<Rightarrow> string \<Rightarrow> bool" where
  "column_ok cs k \<longleftrightarrow> k = ''id'' \<or> k \<in> set (map col_name cs)"

text \<open>\<open>where id = ?1\<close> with the id bound as text: the rowid compares with the text
  under integer affinity.\<close>

definition row_has_id :: "string \<Rightarrow> i64 \<times> sql_value list \<Rightarrow> bool" where
  "row_has_id bid r \<longleftrightarrow> apply_affinity Aff_Integer bid = SqlInt (fst r)"

section \<open>Writes\<close>

definition new_rowid :: "bot_table \<Rightarrow> int" where
  "new_rowid t = (if bot_rows t = [] then 1 else Max (set (map fst (bot_rows t))) + 1)"

text \<open>
  The rowid of an insert: the given \<open>id\<close>, or the largest plus one. Past
  \<open>i64::MAX\<close> SQLite tries random rowids; the model reports that case as a failure.
\<close>

definition insert_rowid :: "bot_option \<Rightarrow> bot_table \<Rightarrow> sql_error + i64" where
  "insert_rowid opt t =
     (case map_of opt ''id'' of
        None \<Rightarrow> if in_i64 (new_rowid t) then Inr (new_rowid t) else Inl SqliteFull
      | Some s \<Rightarrow>
          (case apply_affinity Aff_Integer s of
             SqlInt n \<Rightarrow> if n \<in> set (map fst (bot_rows t)) then Inl ConstraintViolation else Inr n
           | _ \<Rightarrow> Inl DatatypeMismatch))"

definition insert_values :: "bot_option \<Rightarrow> bot_column list \<Rightarrow> sql_value list" where
  "insert_values opt cs =
     map (\<lambda>c. case map_of opt (col_name c) of
                Some s \<Rightarrow> apply_affinity (col_affinity c) s
              | None \<Rightarrow> col_default c) cs"

text \<open>
  \<open>insert_bot\<close> (lines 187-207): \<open>INSERT INTO bot (k1,\<dots>) VALUES (?,\<dots>)\<close>. An empty
  map gives \<open>INSERT INTO bot () VALUES ()\<close>, a syntax error; an unknown key is
  \<open>no such column\<close>. On success the result is the number of changed rows, 1.
\<close>

definition insert_bot :: "bot_option \<Rightarrow> bot_table \<Rightarrow> (sql_error + usize) \<times> bot_table" where
  "insert_bot opt t =
     (if opt = [] \<or> \<not> list_all (column_ok (bot_cols t) \<circ> fst) opt then (Inl SqlInputError, t)
      else
        let vs = insert_values opt (bot_cols t) in
        if list_ex (\<lambda>(c, v). col_notnull c \<and> v = SqlNull) (zip (bot_cols t) vs)
        then (Inl ConstraintViolation, t)
        else
          (case insert_rowid opt t of
             Inl e \<Rightarrow> (Inl e, t)
           | Inr rid \<Rightarrow> (Inr 1, t\<lparr>bot_rows := insort_key fst (rid, vs) (bot_rows t)\<rparr>)))"

definition set_values :: "bot_option \<Rightarrow> bot_column list \<Rightarrow> sql_value list \<Rightarrow> sql_value list" where
  "set_values opt cs vs =
     map2 (\<lambda>c v. case map_of opt (col_name c) of
                   Some s \<Rightarrow> apply_affinity (col_affinity c) s
                 | None \<Rightarrow> v) cs vs"

text \<open>The rowid after \<open>SET id = ?\<close>, if the map sets it.\<close>

definition update_rowid :: "bot_option \<Rightarrow> i64 \<Rightarrow> (i64 \<times> sql_value list) list \<Rightarrow> sql_error + i64" where
  "update_rowid opt rid rest =
     (case map_of opt ''id'' of
        None \<Rightarrow> Inr rid
      | Some s \<Rightarrow>
          (case apply_affinity Aff_Integer s of
             SqlInt n \<Rightarrow> if n \<in> set (map fst rest) then Inl ConstraintViolation else Inr n
           | _ \<Rightarrow> Inl DatatypeMismatch))"

text \<open>
  \<open>update_bot\<close> (lines 210-237): \<open>UPDATE bot SET k1 = ?2, \<dots> where id = ?1 limit 1\<close>.
  An empty map leaves \<open>SET  where\<close>, a syntax error; \<open>limit\<close> needs the compile
  option. The count is 1 when a row has the id and 0 otherwise.
\<close>

definition update_bot ::
  "string \<Rightarrow> bot_option \<Rightarrow> bot_table \<Rightarrow> (sql_error + usize) \<times> bot_table" where
  "update_bot bid opt t =
     (if opt = [] \<or> \<not> bot_limit t \<or> \<not> list_all (column_ok (bot_cols t) \<circ> fst) opt
      then (Inl SqlInputError, t)
      else
        (case find (row_has_id bid) (bot_rows t) of
           None \<Rightarrow> (Inr 0, t)
         | Some (rid, vs) \<Rightarrow>
             let rest = remove1 (rid, vs) (bot_rows t) in
             (case update_rowid opt rid rest of
                Inl e \<Rightarrow> (Inl e, t)
              | Inr nid \<Rightarrow>
                  (Inr 1, t\<lparr>bot_rows := insort_key fst (nid, set_values opt (bot_cols t) vs) rest\<rparr>))))"

text \<open>\<open>delete_bot\<close> (lines 240-252): \<open>delete from bot where id = ?1 limit 1\<close>.\<close>

definition delete_bot :: "string \<Rightarrow> bot_table \<Rightarrow> (sql_error + usize) \<times> bot_table" where
  "delete_bot bid t =
     (if \<not> bot_limit t then (Inl SqlInputError, t)
      else if list_ex (row_has_id bid) (bot_rows t)
      then (Inr 1, t\<lparr>bot_rows := remove_first (row_has_id bid) (bot_rows t)\<rparr>)
      else (Inr 0, t))"

section \<open>Reads\<close>

text \<open>
  \<open>row.get(i)\<close> into \<open>i64\<close>, \<open>String\<close> and \<open>bool\<close> (rusqlite's \<open>FromSql\<close>:
  a \<open>bool\<close> is an integer, nonzero for true; \<open>NULL\<close> and a value of the other
  storage class are \<open>InvalidColumnType\<close>), and \<open>.unwrap()\<close> of it.
\<close>

fun get_i64 :: "sql_value \<Rightarrow> sql_error + i64" where
  "get_i64 (SqlInt n) = Inr n"
| "get_i64 _ = Inl InvalidColumnType"

fun get_string :: "sql_value \<Rightarrow> sql_error + string" where
  "get_string (SqlText s) = Inr s"
| "get_string _ = Inl InvalidColumnType"

fun get_bool :: "sql_value \<Rightarrow> sql_error + bool" where
  "get_bool (SqlInt n) = Inr (n \<noteq> 0)"
| "get_bool _ = Inl InvalidColumnType"

definition row_get :: "sql_value list \<Rightarrow> nat \<Rightarrow> (sql_value \<Rightarrow> sql_error + 'a) \<Rightarrow> panic + 'a" where
  "row_get vs i g = unwrap_result (if i < length vs then g (vs ! i) else Inl InvalidColumnIndex)"

text \<open>The row closures of \<open>get_bot\<close> and \<open>get_bot_list\<close> (lines 263-273, 305-315).\<close>

definition read_bot :: "sql_value list \<Rightarrow> panic + bot" where
  "read_bot vs =
     bind_res (row_get vs 0 get_i64) (\<lambda>i.
     bind_res (row_get vs 1 get_string) (\<lambda>n.
     bind_res (row_get vs 2 get_string) (\<lambda>d.
     bind_res (row_get vs 3 get_bool) (\<lambda>e.
     bind_res (row_get vs 4 get_i64) (\<lambda>r.
     bind_res (row_get vs 5 get_string) (\<lambda>tk.
     bind_res (row_get vs 6 get_bool) (\<lambda>lo.
     bind_res (row_get vs 7 get_bool) (\<lambda>so.
     bind_res (row_get vs 8 get_string) (\<lambda>op.
     Inr \<lparr>bot_id = i, bot_name = n, bot_description = d, bot_enable = e, bot_registered = r,
          bot_token = tk, bot_long_order = lo, bot_short_order = so, bot_operate_type = op\<rparr>)))))))))"

text \<open>The row closure of \<open>get_bot_for_api\<close> (lines 285-293).\<close>

definition read_bot_for_get :: "sql_value list \<Rightarrow> panic + bot_for_get" where
  "read_bot_for_get vs =
     bind_res (row_get vs 0 get_string) (\<lambda>n.
     bind_res (row_get vs 1 get_string) (\<lambda>d.
     bind_res (row_get vs 2 get_bool) (\<lambda>e.
     bind_res (row_get vs 3 get_i64) (\<lambda>r.
     bind_res (row_get vs 4 get_bool) (\<lambda>lo.
     bind_res (row_get vs 5 get_bool) (\<lambda>so.
     bind_res (row_get vs 6 get_string) (\<lambda>op.
     Inr \<lparr>bfg_name = n, bfg_description = d, bfg_enable = e, bfg_registered = r,
          bfg_long_order = lo, bfg_short_order = so, bfg_operate_type = op\<rparr>)))))))"

text \<open>The value of a named column of a row (\<open>NULL\<close> for a name the prepare check refuses).\<close>

definition column_value :: "bot_column list \<Rightarrow> i64 \<times> sql_value list \<Rightarrow> string \<Rightarrow> sql_value" where
  "column_value cs r c =
     (if c = ''id'' then SqlInt (fst r)
      else case col_pos c cs of Some i \<Rightarrow> snd r ! i | None \<Rightarrow> SqlNull)"

definition bot_fields :: "string list" where
  "bot_fields = [''id'', ''name'', ''description'', ''enable'', ''registered'', ''token'',
                 ''long_order'', ''short_order'', ''operate_type'']"

definition api_fields :: "string list" where
  "api_fields = [''name'', ''description'', ''enable'', ''registered'', ''long_order'',
                 ''short_order'', ''operate_type'']"

text \<open>
  \<open>get_bot\<close> (lines 255-275): \<open>query_row\<close> of the select by id; no row is
  \<open>QueryReturnedNoRows\<close>, a bad column panics in the closure.
\<close>

definition get_bot :: "string \<Rightarrow> bot_table \<Rightarrow> fault + bot" where
  "get_bot bid t =
     (if \<not> list_all (column_ok (bot_cols t)) bot_fields then Inl (Sql SqlInputError)
      else
        (case find (row_has_id bid) (bot_rows t) of
           None \<Rightarrow> Inl (Sql QueryReturnedNoRows)
         | Some r \<Rightarrow>
             (case read_bot (map (column_value (bot_cols t) r) bot_fields) of
                Inl p \<Rightarrow> Inl (Panic p)
              | Inr b \<Rightarrow> Inr b)))"

text \<open>\<open>token = ?2\<close>: the stored token equals the bound text under the column's affinity.\<close>

definition token_matches :: "bot_column list \<Rightarrow> string \<Rightarrow> i64 \<times> sql_value list \<Rightarrow> bool" where
  "token_matches cs tok r =
     (case col_pos ''token'' cs of
        None \<Rightarrow> False
      | Some i \<Rightarrow> snd r ! i = apply_affinity (col_affinity (cs ! i)) tok)"

text \<open>\<open>get_bot_for_api\<close> (lines 278-295): the select by id and token.\<close>

definition get_bot_for_api :: "string \<Rightarrow> string \<Rightarrow> bot_table \<Rightarrow> fault + bot_for_get" where
  "get_bot_for_api bid tok t =
     (if \<not> list_all (column_ok (bot_cols t)) (''token'' # api_fields) then Inl (Sql SqlInputError)
      else
        (case find (\<lambda>r. row_has_id bid r \<and> token_matches (bot_cols t) tok r) (bot_rows t) of
           None \<Rightarrow> Inl (Sql QueryReturnedNoRows)
         | Some r \<Rightarrow>
             (case read_bot_for_get (map (column_value (bot_cols t) r) api_fields) of
                Inl p \<Rightarrow> Inl (Panic p)
              | Inr b \<Rightarrow> Inr b)))"

fun read_bots :: "sql_value list list \<Rightarrow> panic + bot list" where
  "read_bots [] = Inr []"
| "read_bots (vs # vss) = bind_res (read_bot vs) (\<lambda>b. bind_res (read_bots vss) (\<lambda>bs. Inr (b # bs)))"

text \<open>
  \<open>get_bot_list\<close> (lines 298-327): \<open>SELECT * FROM bot\<close> yields the id and then the
  columns in declaration order, read by position; the rows come in rowid order.
\<close>

definition get_bot_list :: "bot_table \<Rightarrow> fault + bot list" where
  "get_bot_list t =
     (case read_bots (map (\<lambda>r. SqlInt (fst r) # snd r) (bot_rows t)) of
        Inl p \<Rightarrow> Inl (Panic p)
      | Inr bs \<Rightarrow> Inr bs)"

section \<open>Invariants and the schema the reads expect\<close>

text \<open>
  The table invariant: rows in rowid order, rowids unique \<open>i64\<close> values, each row with
  one value per column.
\<close>

definition bot_wf :: "bot_table \<Rightarrow> bool" where
  "bot_wf t \<longleftrightarrow>
     sorted (map fst (bot_rows t)) \<and> distinct (map fst (bot_rows t)) \<and>
     list_all (\<lambda>r. in_i64 (fst r) \<and> length (snd r) = length (bot_cols t)) (bot_rows t)"

fun value_fits :: "affinity \<Rightarrow> sql_value \<Rightarrow> bool" where
  "value_fits Aff_Integer (SqlInt _) = True"
| "value_fits Aff_Text (SqlText _) = True"
| "value_fits _ _ = False"

text \<open>The columns, in order, that \<open>Bot\<close> and \<open>SELECT *\<close> expect after \<open>id\<close>.\<close>

definition bot_layout :: "(string \<times> affinity) list" where
  "bot_layout =
     [(''name'', Aff_Text), (''description'', Aff_Text), (''enable'', Aff_Integer),
      (''registered'', Aff_Integer), (''token'', Aff_Text), (''long_order'', Aff_Integer),
      (''short_order'', Aff_Integer), (''operate_type'', Aff_Text)]"

definition standard_schema :: "bot_column list \<Rightarrow> bool" where
  "standard_schema cs \<longleftrightarrow>
     map (\<lambda>c. (col_name c, col_affinity c)) cs = bot_layout \<and>
     list_all (\<lambda>c. value_fits (col_affinity c) (col_default c)) cs"

text \<open>Every stored value has its column's storage class.\<close>

definition rows_typed :: "bot_table \<Rightarrow> bool" where
  "rows_typed t \<longleftrightarrow>
     list_all (\<lambda>r. list_all2 (\<lambda>c v. value_fits (col_affinity c) v) (bot_cols t) (snd r)) (bot_rows t)"

text \<open>A write's values fit their columns: each given value, under the column's affinity,
  has the column's storage class. The defaults fit likewise.\<close>

definition option_typed :: "bot_column list \<Rightarrow> bot_option \<Rightarrow> bool" where
  "option_typed cs opt \<longleftrightarrow>
     list_all (\<lambda>(k, v). list_all (\<lambda>c. col_name c = k \<longrightarrow> value_fits (col_affinity c) (apply_affinity (col_affinity c) v)) cs) opt"

definition defaults_fit :: "bot_column list \<Rightarrow> bool" where
  "defaults_fit cs \<longleftrightarrow> list_all (\<lambda>c. value_fits (col_affinity c) (col_default c)) cs"

text \<open>The bot a row of the expected layout reads as, when every value has its column's type.\<close>

fun sql_text :: "sql_value \<Rightarrow> string" where
  "sql_text (SqlText s) = s"
| "sql_text _ = []"

fun sql_int :: "sql_value \<Rightarrow> i64" where
  "sql_int (SqlInt n) = n"
| "sql_int _ = 0"

definition bot_of_row :: "i64 \<Rightarrow> sql_value list \<Rightarrow> bot" where
  "bot_of_row n vs =
     \<lparr>bot_id = n, bot_name = sql_text (vs ! 0), bot_description = sql_text (vs ! 1),
      bot_enable = (sql_int (vs ! 2) \<noteq> 0), bot_registered = sql_int (vs ! 3),
      bot_token = sql_text (vs ! 4), bot_long_order = (sql_int (vs ! 5) \<noteq> 0),
      bot_short_order = (sql_int (vs ! 6) \<noteq> 0), bot_operate_type = sql_text (vs ! 7)\<rparr>"

text \<open>The value \<open>get_bot_for_api\<close> reads from a row of the expected layout.\<close>

definition bot_for_get_of_row :: "sql_value list \<Rightarrow> bot_for_get" where
  "bot_for_get_of_row vs =
     \<lparr>bfg_name = sql_text (vs ! 0), bfg_description = sql_text (vs ! 1),
      bfg_enable = (sql_int (vs ! 2) \<noteq> 0), bfg_registered = sql_int (vs ! 3),
      bfg_long_order = (sql_int (vs ! 5) \<noteq> 0), bfg_short_order = (sql_int (vs ! 6) \<noteq> 0),
      bfg_operate_type = sql_text (vs ! 7)\<rparr>"

section \<open>The abstract table and the writes\<close>

text \<open>
  What the table promises: a finite map from id to the row's values. A write is one of
  the three statements, each one program run on the database (each \<open>bot-admin\<close>
  or \<open>POST /bot\<close> call commits one).
\<close>

definition bot_map :: "bot_table \<Rightarrow> i64 \<rightharpoonup> sql_value list" where
  "bot_map t = map_of (bot_rows t)"

datatype bot_op = Insert_Bot bot_option | Update_Bot string bot_option | Delete_Bot string

fun bot_exec :: "bot_op \<Rightarrow> bot_table \<Rightarrow> (sql_error + usize) \<times> bot_table" where
  "bot_exec (Insert_Bot opt) t = insert_bot opt t"
| "bot_exec (Update_Bot bid opt) t = update_bot bid opt t"
| "bot_exec (Delete_Bot bid) t = delete_bot bid t"

section \<open>Lemmas\<close>

lemmas bot_eval = insert_bot_def insert_values_def column_ok_def insert_rowid_def new_rowid_def
  bot_layout_def apply_affinity_def parse_i64_def parse_int_def digit_value_def in_i64_iff
  update_bot_def update_rowid_def set_values_def delete_bot_def row_has_id_def bot_wf_def

lemma apply_affinity_int_iff [simp]:
  "apply_affinity Aff_Integer s = SqlInt n \<longleftrightarrow> parse_i64 s = Some n"
  by (simp add: apply_affinity_def split: option.split)

lemma row_has_id_iff: "row_has_id bid r \<longleftrightarrow> parse_i64 bid = Some (fst r)"
  by (simp add: row_has_id_def)

lemma map_of_insort_key:
  assumes "distinct (map fst xs)" and "fst x \<notin> fst ` set xs"
  shows "map_of (insort_key fst x xs) = (map_of xs)(fst x \<mapsto> snd x)"
proof -
  have "map_of (insort_key fst x xs) = map_of (x # xs)"
    using assms by (subst map_of_inject_set) (simp_all add: distinct_insort_key set_insort_key)
  then show ?thesis by (cases x) simp
qed

lemma distinct_map_remove1: "distinct (map f xs) \<Longrightarrow> distinct (map f (remove1 x xs))"
  by (induction xs) (auto dest: subsetD [OF set_remove1_subset])

lemma map_of_remove1:
  "distinct (map fst xs) \<Longrightarrow> x \<in> set xs \<Longrightarrow> map_of (remove1 x xs) = (map_of xs)(fst x := None)"
proof (induction xs)
  case Nil
  then show ?case by simp
next
  case (Cons y xs)
  show ?case
  proof (cases "x = y")
    case True
    with Cons.prems have "map_of xs (fst x) = None" by (simp add: map_of_eq_None_iff)
    with True show ?thesis by (simp add: fun_eq_iff)
  next
    case False
    with Cons have "fst y \<noteq> fst x" by (auto simp: image_iff)
    with False Cons show ?thesis by (auto simp: fun_eq_iff)
  qed
qed

lemma fst_notin_remove1:
  "distinct (map fst xs) \<Longrightarrow> x \<in> set xs \<Longrightarrow> fst x \<notin> set (map fst (remove1 x xs))"
proof -
  assume d: "distinct (map fst xs)" and x: "x \<in> set xs"
  have "map_of (remove1 x xs) (fst x) = None" using map_of_remove1 [OF d x] by simp
  then show ?thesis by (simp add: map_of_eq_None_iff)
qed

lemma new_rowid_fresh: "new_rowid t \<notin> set (map fst (bot_rows t))"
proof (cases "bot_rows t = []")
  case False
  then have "\<And>x. x \<in> set (map fst (bot_rows t)) \<Longrightarrow> x < new_rowid t"
    by (simp add: new_rowid_def le_imp_less_Suc)
  then show ?thesis by blast
qed (simp add: new_rowid_def)

lemma bot_map_new_rowid:
  "new_rowid t = (if dom (bot_map t) = {} then 1 else Max (dom (bot_map t)) + 1)"
  by (simp add: new_rowid_def bot_map_def dom_map_of_conv_image_fst)

lemma insert_rowid_fresh: "insert_rowid opt t = Inr rid \<Longrightarrow> rid \<notin> set (map fst (bot_rows t))"
  using new_rowid_fresh [of t]
  by (auto simp: insert_rowid_def split: option.splits if_splits sql_value.splits)

lemma insert_rowid_range: "insert_rowid opt t = Inr rid \<Longrightarrow> in_i64 rid"
  by (auto simp: insert_rowid_def parse_i64_range split: option.splits if_splits sql_value.splits)

lemma update_rowid_range: "in_i64 rid \<Longrightarrow> update_rowid opt rid rest = Inr nid \<Longrightarrow> in_i64 nid"
  by (auto simp: update_rowid_def parse_i64_range split: option.splits if_splits sql_value.splits)

lemma insert_rowid_default: "insert_rowid opt t = Inr rid \<Longrightarrow> map_of opt ''id'' = None \<Longrightarrow> rid = new_rowid t"
  by (simp add: insert_rowid_def split: if_splits)

lemma length_insert_values [simp]: "length (insert_values opt cs) = length cs"
  by (simp add: insert_values_def)

lemma length_set_values [simp]: "length vs = length cs \<Longrightarrow> length (set_values opt cs vs) = length cs"
  by (simp add: set_values_def)

lemma insert_bot_Inr:
  assumes "insert_bot opt t = (Inr c, t')"
  shows "\<exists>rid. insert_rowid opt t = Inr rid \<and> c = 1 \<and>
           t' = t\<lparr>bot_rows := insort_key fst (rid, insert_values opt (bot_cols t)) (bot_rows t)\<rparr>"
  using assms by (auto simp: insert_bot_def Let_def split: if_splits sum.splits)

lemma insert_bot_wf:
  assumes "bot_wf t" and "insert_bot opt t = (Inr c, t')"
  shows "bot_wf t'"
proof -
  obtain rid where r: "insert_rowid opt t = Inr rid"
    and t': "t' = t\<lparr>bot_rows := insort_key fst (rid, insert_values opt (bot_cols t)) (bot_rows t)\<rparr>"
    using insert_bot_Inr [OF assms(2)] by blast
  show ?thesis
    using assms(1) insert_rowid_fresh [OF r] insert_rowid_range [OF r]
    by (simp add: t' bot_wf_def sorted_insort_key distinct_insort_key list_all_iff set_insort_key)
qed

lemma find_row_has_id:
  "distinct (map fst xs) \<Longrightarrow>
   find (row_has_id bid) xs = (case parse_i64 bid of None \<Rightarrow> None | Some n \<Rightarrow> map_option (Pair n) (map_of xs n))"
  by (induction xs) (auto simp: row_has_id_iff split: option.splits)

lemma sorted_remove_first: "sorted (map f xs) \<Longrightarrow> sorted (map f (remove_first P xs))"
  by (induction xs) (auto dest: subsetD [OF set_remove_first])

lemma distinct_remove_first: "distinct (map f xs) \<Longrightarrow> distinct (map f (remove_first P xs))"
  by (induction xs) (auto dest: subsetD [OF set_remove_first])

lemma update_bot_Inr:
  assumes "update_bot bid opt t = (Inr c, t')"
  shows "(find (row_has_id bid) (bot_rows t) = None \<and> c = 0 \<and> t' = t) \<or>
         (\<exists>rid vs nid. find (row_has_id bid) (bot_rows t) = Some (rid, vs) \<and>
            update_rowid opt rid (remove1 (rid, vs) (bot_rows t)) = Inr nid \<and> c = 1 \<and>
            t' = t\<lparr>bot_rows := insort_key fst (nid, set_values opt (bot_cols t) vs)
                                   (remove1 (rid, vs) (bot_rows t))\<rparr>)"
  using assms by (auto simp: update_bot_def Let_def split: if_splits option.splits sum.splits)

lemma update_rowid_fresh:
  assumes "distinct (map fst xs)" and "(rid, vs) \<in> set xs"
    and "update_rowid opt rid (remove1 (rid, vs) xs) = Inr nid"
  shows "nid \<notin> set (map fst (remove1 (rid, vs) xs))"
  using assms fst_notin_remove1 [OF assms(1,2)]
  by (auto simp: update_rowid_def split: option.splits if_splits sql_value.splits)

lemma update_bot_wf:
  assumes "bot_wf t" and "update_bot bid opt t = (Inr c, t')"
  shows "bot_wf t'"
  using update_bot_Inr [OF assms(2)]
proof
  assume "find (row_has_id bid) (bot_rows t) = None \<and> c = 0 \<and> t' = t"
  with assms(1) show ?thesis by simp
next
  assume "\<exists>rid vs nid. find (row_has_id bid) (bot_rows t) = Some (rid, vs) \<and>
            update_rowid opt rid (remove1 (rid, vs) (bot_rows t)) = Inr nid \<and> c = 1 \<and>
            t' = t\<lparr>bot_rows := insort_key fst (nid, set_values opt (bot_cols t) vs)
                                   (remove1 (rid, vs) (bot_rows t))\<rparr>"
  then obtain rid vs nid where f: "find (row_has_id bid) (bot_rows t) = Some (rid, vs)"
    and u: "update_rowid opt rid (remove1 (rid, vs) (bot_rows t)) = Inr nid"
    and t': "t' = t\<lparr>bot_rows := insort_key fst (nid, set_values opt (bot_cols t) vs)
                                   (remove1 (rid, vs) (bot_rows t))\<rparr>"
    by blast
  have m: "(rid, vs) \<in> set (bot_rows t)" using f by (auto simp: find_Some_iff nth_mem)
  have d: "distinct (map fst (bot_rows t))" using assms(1) by (simp add: bot_wf_def)
  have l: "length vs = length (bot_cols t)" and i: "in_i64 rid"
    using assms(1) m by (auto simp: bot_wf_def list_all_iff)
  show ?thesis
    using assms(1) update_rowid_fresh [OF d m u] distinct_map_remove1 [OF d] l update_rowid_range [OF i u]
    by (auto simp: t' bot_wf_def sorted_insort_key distinct_insort_key list_all_iff set_insort_key
        sorted_map_remove1 dest: subsetD [OF set_remove1_subset])
qed

lemma delete_bot_wf:
  assumes "bot_wf t" and "delete_bot bid t = (Inr c, t')"
  shows "bot_wf t'"
  using assms set_remove_first [of "row_has_id bid" "bot_rows t"]
  by (fastforce simp: delete_bot_def bot_wf_def sorted_remove_first distinct_remove_first list_all_iff
      split: if_splits)

lemma insert_bot_Inl: "insert_bot opt t = (Inl e, t') \<Longrightarrow> t' = t"
  by (auto simp: insert_bot_def Let_def split: if_splits sum.splits)

lemma update_bot_Inl: "update_bot bid opt t = (Inl e, t') \<Longrightarrow> t' = t"
  by (auto simp: update_bot_def Let_def split: if_splits option.splits sum.splits)

lemma delete_bot_Inl: "delete_bot bid t = (Inl e, t') \<Longrightarrow> t' = t"
  by (auto simp: delete_bot_def split: if_splits)

lemmas bot_write_Inl = insert_bot_Inl update_bot_Inl delete_bot_Inl

lemma bot_exec_Inl: "bot_exec op t = (Inl e, t') \<Longrightarrow> t' = t"
  by (cases op) (auto dest: bot_write_Inl)

lemma bot_exec_wf: "bot_wf t \<Longrightarrow> bot_wf (snd (bot_exec op t))"
proof -
  assume wf: "bot_wf t"
  show ?thesis
  proof (cases "fst (bot_exec op t)")
    case (Inl e)
    then have "bot_exec op t = (Inl e, snd (bot_exec op t))" by (metis prod.collapse)
    with wf show ?thesis using bot_exec_Inl by metis
  next
    case (Inr c)
    then have "bot_exec op t = (Inr c, snd (bot_exec op t))" by (metis prod.collapse)
    with wf show ?thesis
      by (cases op) (auto intro: insert_bot_wf update_bot_wf delete_bot_wf)
  qed
qed

lemma standard_schema_names:
  assumes "standard_schema cs"
  shows "map col_name cs = map fst bot_layout" and "map col_affinity cs = map snd bot_layout"
proof -
  have l: "map (\<lambda>c. (col_name c, col_affinity c)) cs = bot_layout"
    using assms by (simp add: standard_schema_def)
  show "map col_name cs = map fst bot_layout"
    using arg_cong [OF l, of "map fst"] by (simp add: comp_def)
  show "map col_affinity cs = map snd bot_layout"
    using arg_cong [OF l, of "map snd"] by (simp add: comp_def)
qed

lemma standard_schema_fields:
  assumes "standard_schema cs"
  shows "bot_fields = ''id'' # map col_name cs" and "distinct (map col_name cs)"
    and "''id'' \<notin> set (map col_name cs)" and "length cs = 8"
proof -
  note n = standard_schema_names(1) [OF assms]
  show "bot_fields = ''id'' # map col_name cs" "distinct (map col_name cs)"
    "''id'' \<notin> set (map col_name cs)"
    by (simp_all only: n) (simp_all add: bot_fields_def bot_layout_def)
  have "length (map col_name cs) = length (map fst bot_layout)" by (simp only: n)
  then show "length cs = 8" by (simp add: bot_layout_def)
qed

lemma col_pos_nth: "distinct (map col_name cs) \<Longrightarrow> i < length cs \<Longrightarrow> col_pos (col_name (cs ! i)) cs = Some i"
proof (induction cs arbitrary: i)
  case (Cons c cs)
  show ?case
  proof (cases i)
    case (Suc j)
    with Cons.prems have "cs ! j \<in> set cs" by (simp add: nth_mem)
    with Cons.prems have "col_name (cs ! j) \<noteq> col_name c" by (auto simp: image_iff)
    with Cons Suc show ?thesis by simp
  qed simp
qed simp

lemma column_values_standard:
  assumes "standard_schema cs" and "length (snd r) = length cs"
  shows "map (column_value cs r) bot_fields = SqlInt (fst r) # snd r"
proof -
  note f = standard_schema_fields [OF assms(1)]
  have "map (column_value cs r) (map col_name cs) = snd r"
  proof (rule nth_equalityI)
    fix i assume "i < length (map (column_value cs r) (map col_name cs))"
    then have i: "i < length cs" by simp
    then have "cs ! i \<in> set cs" by (simp add: nth_mem)
    then have "col_name (cs ! i) \<noteq> ''id''" using f(3) by (auto simp: image_iff)
    then show "map (column_value cs r) (map col_name cs) ! i = snd r ! i"
      using i col_pos_nth [OF f(2) i] by (simp add: column_value_def)
  qed (simp add: assms(2))
  then show ?thesis by (simp add: f(1) column_value_def)
qed

lemma standard_schema_column_ok:
  assumes "standard_schema cs"
  shows "list_all (column_ok cs) bot_fields"
  unfolding standard_schema_fields(1) [OF assms] by (auto simp: list_all_iff column_ok_def)

lemma get_bot_standard:
  assumes "standard_schema (bot_cols t)" and "bot_wf t"
  shows "get_bot bid t =
           (case parse_i64 bid of
              None \<Rightarrow> Inl (Sql QueryReturnedNoRows)
            | Some n \<Rightarrow>
                (case bot_map t n of
                   None \<Rightarrow> Inl (Sql QueryReturnedNoRows)
                 | Some vs \<Rightarrow> (case read_bot (SqlInt n # vs) of Inl p \<Rightarrow> Inl (Panic p) | Inr b \<Rightarrow> Inr b)))"
proof -
  have d: "distinct (map fst (bot_rows t))" using assms(2) by (simp add: bot_wf_def)
  have len: "\<And>n vs. map_of (bot_rows t) n = Some vs \<Longrightarrow> length vs = length (bot_cols t)"
    using assms(2) by (auto simp: bot_wf_def list_all_iff dest: map_of_SomeD)
  show ?thesis
    using find_row_has_id [OF d, of bid] standard_schema_column_ok [OF assms(1)]
      column_values_standard [OF assms(1)] len
    by (auto simp: get_bot_def bot_map_def split: option.splits)
qed

lemma length_8_cases:
  "length xs = 8 \<Longrightarrow> \<exists>v0 v1 v2 v3 v4 v5 v6 v7. xs = [v0, v1, v2, v3, v4, v5, v6, v7]"
  by (simp add: numeral_eq_Suc length_Suc_conv) blast

lemma value_fits_Text: "value_fits Aff_Text v \<longleftrightarrow> (\<exists>s. v = SqlText s)"
  by (cases v) simp_all

lemma value_fits_Integer: "value_fits Aff_Integer v \<longleftrightarrow> (\<exists>n. v = SqlInt n)"
  by (cases v) simp_all

lemma read_bot_typed:
  assumes "standard_schema cs" and "list_all2 (\<lambda>c v. value_fits (col_affinity c) v) cs vs"
  shows "read_bot (SqlInt n # vs) = Inr (bot_of_row n vs)"
proof -
  have a: "map col_affinity cs = map snd bot_layout" by (rule standard_schema_names(2) [OF assms(1)])
  have "list_all2 (\<lambda>a v. value_fits a v) (map col_affinity cs) vs"
    using assms(2) by (simp add: list_all2_map1)
  then have f: "list_all2 value_fits (map snd bot_layout) vs" by (simp add: a)
  then have "length vs = 8" by (simp add: list_all2_lengthD [OF f, symmetric] bot_layout_def)
  then obtain v0 v1 v2 v3 v4 v5 v6 v7 where vs: "vs = [v0, v1, v2, v3, v4, v5, v6, v7]"
    using length_8_cases by blast
  from f show ?thesis
    by (auto simp: vs bot_layout_def value_fits_Text value_fits_Integer read_bot_def row_get_def bot_of_row_def)
qed

lemma read_bots_Inr: "read_bots vss = Inr bs \<Longrightarrow> list_all2 (\<lambda>vs b. read_bot vs = Inr b) vss bs"
  by (induction vss arbitrary: bs) auto

lemma read_bot_id: "read_bot (SqlInt n # vs) = Inr b \<Longrightarrow> bot_id b = n"
  by (auto simp: read_bot_def row_get_def)

lemma get_bot_list_rows:
  assumes "get_bot_list t = Inr bs"
  shows "list_all2 (\<lambda>r b. read_bot (SqlInt (fst r) # snd r) = Inr b) (bot_rows t) bs"
proof -
  have "read_bots (map (\<lambda>r. SqlInt (fst r) # snd r) (bot_rows t)) = Inr bs"
    using assms by (simp add: get_bot_list_def split: sum.splits)
  then have "list_all2 (\<lambda>vs b. read_bot vs = Inr b) (map (\<lambda>r. SqlInt (fst r) # snd r) (bot_rows t)) bs"
    by (rule read_bots_Inr)
  then show ?thesis by (simp add: list_all2_map1)
qed

lemma read_bots_typed:
  "standard_schema cs \<Longrightarrow> \<forall>r \<in> set rs. list_all2 (\<lambda>c v. value_fits (col_affinity c) v) cs (snd r) \<Longrightarrow>
   read_bots (map (\<lambda>r. SqlInt (fst r) # snd r) rs) = Inr (map (\<lambda>r. bot_of_row (fst r) (snd r)) rs)"
  by (induction rs) (simp_all add: read_bot_typed)

lemma list_all2_read_bot_ids:
  "list_all2 (\<lambda>r b. read_bot (SqlInt (fst r) # snd r) = Inr b) rs bs \<Longrightarrow> map bot_id bs = map fst rs"
  by (induction rule: list_all2_induct) (simp_all add: read_bot_id)

lemma get_bot_list_typed:
  assumes "standard_schema (bot_cols t)" and "rows_typed t"
  shows "get_bot_list t = Inr (map (\<lambda>r. bot_of_row (fst r) (snd r)) (bot_rows t))"
proof -
  have "\<forall>r \<in> set (bot_rows t). list_all2 (\<lambda>c v. value_fits (col_affinity c) v) (bot_cols t) (snd r)"
    using assms(2) by (simp add: rows_typed_def list_all_iff)
  then have "read_bots (map (\<lambda>r. SqlInt (fst r) # snd r) (bot_rows t)) =
             Inr (map (\<lambda>r. bot_of_row (fst r) (snd r)) (bot_rows t))"
    by (rule read_bots_typed [OF assms(1)])
  then show ?thesis by (simp add: get_bot_list_def)
qed

lemma option_typed_lookup:
  "option_typed cs opt \<Longrightarrow> map_of opt (col_name c) = Some v \<Longrightarrow> c \<in> set cs \<Longrightarrow>
   value_fits (col_affinity c) (apply_affinity (col_affinity c) v)"
  by (auto simp: option_typed_def list_all_iff dest!: map_of_SomeD)

lemma insert_values_typed:
  assumes "defaults_fit cs" and "option_typed cs opt"
  shows "list_all2 (\<lambda>c v. value_fits (col_affinity c) v) cs (insert_values opt cs)"
  using assms option_typed_lookup [OF assms(2)]
  by (auto simp: insert_values_def list_all2_map2 list_all2_same defaults_fit_def list_all_iff
           split: option.split)

lemma set_values_typed:
  assumes "list_all2 (\<lambda>c v. value_fits (col_affinity c) v) cs vs" and "option_typed cs opt"
  shows "list_all2 (\<lambda>c v. value_fits (col_affinity c) v) cs (set_values opt cs vs)"
proof -
  have "length cs = length vs" using assms(1) by (rule list_all2_lengthD)
  then show ?thesis
    using assms option_typed_lookup [OF assms(2)]
    by (auto simp: set_values_def list_all2_conv_all_nth split: option.split)
qed

lemma bot_cols_exec [simp]: "bot_cols (snd (bot_exec op t)) = bot_cols t"
  by (cases op)
     (auto simp: insert_bot_def update_bot_def delete_bot_def Let_def
           split: if_splits option.splits sum.splits prod.splits)

lemma rows_typed_insert_bot:
  assumes "defaults_fit (bot_cols t)" and "option_typed (bot_cols t) opt" and "rows_typed t"
  shows "rows_typed (snd (insert_bot opt t))"
  using assms insert_values_typed [OF assms(1,2)]
  by (auto simp: insert_bot_def Let_def rows_typed_def list_all_iff set_insort_key
           split: sum.split)

lemma rows_typed_update_bot:
  assumes "option_typed (bot_cols t) opt" and "rows_typed t"
  shows "rows_typed (snd (update_bot bid opt t))"
proof (cases "fst (update_bot bid opt t)")
  case (Inl e)
  then have "update_bot bid opt t = (Inl e, snd (update_bot bid opt t))" by (metis prod.collapse)
  then show ?thesis using update_bot_Inl assms(2) by metis
next
  case (Inr c)
  then have "update_bot bid opt t = (Inr c, snd (update_bot bid opt t))" by (metis prod.collapse)
  from update_bot_Inr [OF this] show ?thesis
  proof
    assume "find (row_has_id bid) (bot_rows t) = None \<and> c = 0 \<and> snd (update_bot bid opt t) = t"
    then show ?thesis using assms(2) by simp
  next
    assume "\<exists>rid vs nid. find (row_has_id bid) (bot_rows t) = Some (rid, vs) \<and>
            update_rowid opt rid (remove1 (rid, vs) (bot_rows t)) = Inr nid \<and> c = 1 \<and>
            snd (update_bot bid opt t) = t\<lparr>bot_rows := insort_key fst (nid, set_values opt (bot_cols t) vs)
                                   (remove1 (rid, vs) (bot_rows t))\<rparr>"
    then obtain rid vs nid where f: "find (row_has_id bid) (bot_rows t) = Some (rid, vs)"
      and t': "snd (update_bot bid opt t) = t\<lparr>bot_rows := insort_key fst (nid, set_values opt (bot_cols t) vs)
                                   (remove1 (rid, vs) (bot_rows t))\<rparr>"
      by blast
    have "(rid, vs) \<in> set (bot_rows t)" using f by (auto simp: find_Some_iff nth_mem)
    then have "list_all2 (\<lambda>c v. value_fits (col_affinity c) v) (bot_cols t) vs"
      using assms(2) by (auto simp: rows_typed_def list_all_iff)
    then show ?thesis
      using assms(2) set_values_typed [OF _ assms(1)]
      by (auto simp: t' rows_typed_def list_all_iff set_insort_key dest: subsetD [OF set_remove1_subset])
  qed
qed

lemma rows_typed_delete_bot: "rows_typed t \<Longrightarrow> rows_typed (snd (delete_bot bid t))"
  using set_remove_first [of "row_has_id bid" "bot_rows t"]
  by (auto simp: delete_bot_def rows_typed_def list_all_iff)

lemma standard_schema_defaults: "standard_schema cs \<Longrightarrow> defaults_fit cs"
  by (simp add: standard_schema_def defaults_fit_def)

lemma option_typed_distinct:
  assumes "distinct (map fst opt)"
    and "\<And>k v c. map_of opt k = Some v \<Longrightarrow> c \<in> set cs \<Longrightarrow> col_name c = k \<Longrightarrow>
                  value_fits (col_affinity c) (apply_affinity (col_affinity c) v)"
  shows "option_typed cs opt"
  using assms by (auto simp: option_typed_def list_all_iff intro: map_of_is_SomeI)

lemma standard_schema_column:
  assumes "standard_schema cs" and "c \<in> set cs"
  shows "(col_name c, col_affinity c) \<in> set bot_layout"
proof -
  have eq: "map (\<lambda>c. (col_name c, col_affinity c)) cs = bot_layout"
    using assms(1) by (simp add: standard_schema_def)
  have "(col_name c, col_affinity c) \<in> set (map (\<lambda>c. (col_name c, col_affinity c)) cs)"
    using assms(2) by auto
  then show ?thesis by (simp only: eq)
qed

lemma bot_layout_integer:
  "(k, Aff_Integer) \<in> set bot_layout \<Longrightarrow>
   k = ''enable'' \<or> k = ''registered'' \<or> k = ''long_order'' \<or> k = ''short_order''"
  by (auto simp: bot_layout_def)

lemma list_all_keys:
  "list_all (P \<circ> fst) xs \<longleftrightarrow> (\<forall>k. map_of xs k \<noteq> None \<longrightarrow> P k)"
  by (induction xs) auto

lemma insert_bot_key_error:
  assumes "map_of opt k \<noteq> None" and "\<not> column_ok (bot_cols t) k"
  shows "insert_bot opt t = (Inl SqlInputError, t)"
proof -
  have "\<not> list_all (column_ok (bot_cols t) \<circ> fst) opt" using assms by (auto simp: list_all_keys)
  then show ?thesis by (simp add: insert_bot_def)
qed

lemma apply_affinity_Text [simp]: "apply_affinity Aff_Text s = SqlText s"
  by (simp add: apply_affinity_def)

lemma value_fits_SqlNull [simp]: "\<not> value_fits a SqlNull"
  by (cases a) simp_all

lemma typed_no_null:
  "list_all2 (\<lambda>c v. value_fits (col_affinity c) v) cs vs \<Longrightarrow>
   \<not> list_ex (\<lambda>(c, v). col_notnull c \<and> v = SqlNull) (zip cs vs)"
  by (induction rule: list_all2_induct) auto

lemma insert_bot_ok:
  assumes "opt \<noteq> []" and "list_all (column_ok (bot_cols t) \<circ> fst) opt"
    and "list_all2 (\<lambda>c v. value_fits (col_affinity c) v) (bot_cols t) (insert_values opt (bot_cols t))"
    and "insert_rowid opt t = Inr rid"
  shows "insert_bot opt t =
           (Inr 1, t\<lparr>bot_rows := insort_key fst (rid, insert_values opt (bot_cols t)) (bot_rows t)\<rparr>)"
  using assms typed_no_null [OF assms(3)] by (simp add: insert_bot_def Let_def)

lemma insert_values_nth:
  "i < length cs \<Longrightarrow> insert_values opt cs ! i =
     (case map_of opt (col_name (cs ! i)) of
        Some s \<Rightarrow> apply_affinity (col_affinity (cs ! i)) s
      | None \<Rightarrow> col_default (cs ! i))"
  by (simp add: insert_values_def)

lemma standard_schema_nth:
  assumes "standard_schema cs" and "i < length bot_layout"
  shows "col_name (cs ! i) = fst (bot_layout ! i)" and "col_affinity (cs ! i) = snd (bot_layout ! i)"
proof -
  have l: "i < length cs" using assms(2) standard_schema_fields(4) [OF assms(1)] by (simp add: bot_layout_def)
  show "col_name (cs ! i) = fst (bot_layout ! i)"
    using arg_cong [OF standard_schema_names(1) [OF assms(1)], of "\<lambda>xs. xs ! i"] l assms(2) by simp
  show "col_affinity (cs ! i) = snd (bot_layout ! i)"
    using arg_cong [OF standard_schema_names(2) [OF assms(1)], of "\<lambda>xs. xs ! i"] l assms(2) by simp
qed

lemma standard_column_ok:
  "standard_schema cs \<Longrightarrow> k \<in> set (map fst bot_layout) \<Longrightarrow> column_ok cs k"
  using standard_schema_names(1) [of cs] by (simp add: column_ok_def)

lemma find_row_has_id_and:
  "distinct (map fst xs) \<Longrightarrow>
   find (\<lambda>r. row_has_id bid r \<and> Q r) xs =
     (case parse_i64 bid of
        None \<Rightarrow> None
      | Some n \<Rightarrow> (case map_of xs n of None \<Rightarrow> None | Some vs \<Rightarrow> if Q (n, vs) then Some (n, vs) else None))"
  by (induction xs) (auto simp: row_has_id_iff image_iff split: option.splits)

lemma api_fields_values:
  assumes "standard_schema cs" and "length (snd r) = length cs"
  shows "map (column_value cs r) api_fields =
           [snd r ! 0, snd r ! 1, snd r ! 2, snd r ! 3, snd r ! 5, snd r ! 6, snd r ! 7]"
proof -
  have l: "length bot_fields = 9" by (simp add: bot_fields_def)
  have e: "column_value cs r (bot_fields ! i) = (SqlInt (fst r) # snd r) ! i" if "i < 9" for i
    using that l nth_map [of i bot_fields "column_value cs r"] column_values_standard [OF assms]
    by simp
  show ?thesis
    using e [of 1] e [of 2] e [of 3] e [of 4] e [of 6] e [of 7] e [of 8]
    by (simp add: api_fields_def bot_fields_def)
qed

lemma token_matches_standard:
  assumes "standard_schema cs"
  shows "token_matches cs tok r \<longleftrightarrow> snd r ! 4 = SqlText tok"
proof -
  note f = standard_schema_fields [OF assms]
  have n: "col_name (cs ! 4) = ''token''" and a: "col_affinity (cs ! 4) = Aff_Text"
    using standard_schema_nth [OF assms, of 4] by (simp_all add: bot_layout_def f(4))
  show ?thesis
    using col_pos_nth [OF f(2), of 4] f(4) n a by (simp add: token_matches_def apply_affinity_def)
qed

lemma read_bot_for_get_typed:
  assumes "standard_schema cs" and "list_all2 (\<lambda>c v. value_fits (col_affinity c) v) cs vs"
  shows "read_bot_for_get [vs ! 0, vs ! 1, vs ! 2, vs ! 3, vs ! 5, vs ! 6, vs ! 7] = Inr (bot_for_get_of_row vs)"
proof -
  have a: "map col_affinity cs = map snd bot_layout" by (rule standard_schema_names(2) [OF assms(1)])
  have "list_all2 (\<lambda>a v. value_fits a v) (map col_affinity cs) vs"
    using assms(2) by (simp add: list_all2_map1)
  then have f: "list_all2 value_fits (map snd bot_layout) vs" by (simp add: a)
  then have "length vs = 8" by (simp add: list_all2_lengthD [OF f, symmetric] bot_layout_def)
  then obtain v0 v1 v2 v3 v4 v5 v6 v7 where vs: "vs = [v0, v1, v2, v3, v4, v5, v6, v7]"
    using length_8_cases by blast
  from f show ?thesis
    by (auto simp: vs bot_layout_def value_fits_Text value_fits_Integer read_bot_for_get_def row_get_def
        bot_for_get_of_row_def)
qed

lemma rows_typed_bot_map:
  assumes "rows_typed t" and "bot_map t n = Some vs"
  shows "list_all2 (\<lambda>c v. value_fits (col_affinity c) v) (bot_cols t) vs"
proof -
  have "(n, vs) \<in> set (bot_rows t)" using assms(2) by (simp add: bot_map_def map_of_SomeD)
  then show ?thesis using assms(1) by (fastforce simp: rows_typed_def list_all_iff)
qed

lemma get_bot_no_panic:
  assumes "standard_schema (bot_cols t)" and "bot_wf t" and "rows_typed t"
  shows "get_bot bid t \<noteq> Inl (Panic p)"
  using get_bot_standard [OF assms(1,2), of bid] read_bot_typed [OF assms(1) rows_typed_bot_map [OF assms(3)]]
  by (auto split: option.split)

lemma get_bot_for_api_standard:
  assumes "standard_schema (bot_cols t)" and "bot_wf t" and "rows_typed t"
  shows "get_bot_for_api bid tok t =
           (case parse_i64 bid of
              None \<Rightarrow> Inl (Sql QueryReturnedNoRows)
            | Some n \<Rightarrow>
                (case bot_map t n of
                   None \<Rightarrow> Inl (Sql QueryReturnedNoRows)
                 | Some vs \<Rightarrow>
                     if vs ! 4 = SqlText tok then Inr (bot_for_get_of_row vs)
                     else Inl (Sql QueryReturnedNoRows)))"
proof -
  have d: "distinct (map fst (bot_rows t))" using assms(2) by (simp add: bot_wf_def)
  have ty: "list_all2 (\<lambda>c v. value_fits (col_affinity c) v) (bot_cols t) vs"
    if "map_of (bot_rows t) n = Some vs" for n vs
    using rows_typed_bot_map [OF assms(3)] that by (simp add: bot_map_def)
  have ok: "list_all (column_ok (bot_cols t)) (''token'' # api_fields)"
    using standard_schema_column_ok [OF assms(1)] by (simp add: bot_fields_def api_fields_def)
  show ?thesis
    using find_row_has_id_and [OF d, of bid "token_matches (bot_cols t) tok"] ok
      token_matches_standard [OF assms(1)] api_fields_values [OF assms(1)]
      read_bot_for_get_typed [OF assms(1)] ty list_all2_lengthD [OF ty]
    by (auto simp: get_bot_for_api_def bot_map_def split: option.splits)
qed

lemma bot_map_fresh: "rid \<notin> set (map fst (bot_rows t)) \<Longrightarrow> bot_map t rid = None"
  by (simp add: bot_map_def map_of_eq_None_iff)

text \<open>
  Claim C17. A successful \<open>insert_bot\<close> returns 1 and adds one row under a fresh id to the
  id-to-row map, with the given values under the column affinities and the defaults
  elsewhere; without an explicit \<open>id\<close> the new id is one more than the largest (1 for
  an empty table).
\<close>

lemma insert_bot_refines:
  assumes "bot_wf t" and "insert_bot opt t = (Inr c, t')"
  shows "c = 1 \<and>
         (\<exists>rid. bot_map t rid = None \<and>
            bot_map t' = (bot_map t)(rid \<mapsto> insert_values opt (bot_cols t)) \<and>
            (map_of opt ''id'' = None \<longrightarrow>
               rid = (if dom (bot_map t) = {} then 1 else Max (dom (bot_map t)) + 1)))"
proof -
  obtain rid where r: "insert_rowid opt t = Inr rid" and c: "c = 1"
    and t': "t' = t\<lparr>bot_rows := insort_key fst (rid, insert_values opt (bot_cols t)) (bot_rows t)\<rparr>"
    using insert_bot_Inr [OF assms(2)] by blast
  have fresh: "rid \<notin> set (map fst (bot_rows t))" using insert_rowid_fresh [OF r] .
  have d: "distinct (map fst (bot_rows t))" using assms(1) by (simp add: bot_wf_def)
  have "bot_map t' = (bot_map t)(rid \<mapsto> insert_values opt (bot_cols t))"
    using map_of_insort_key [OF d] fresh by (simp add: t' bot_map_def)
  moreover have "map_of opt ''id'' = None \<longrightarrow>
      rid = (if dom (bot_map t) = {} then 1 else Max (dom (bot_map t)) + 1)"
    using insert_rowid_default [OF r] bot_map_new_rowid [of t] by simp
  ultimately show ?thesis using c bot_map_fresh [OF fresh] by (intro conjI exI [of _ rid]) auto
qed

text \<open>
  Claim C18. A successful \<open>update_bot\<close> that does not set \<open>id\<close> overwrites the given
  columns of the row whose id the text denotes and returns 1, or returns 0 and changes
  nothing when no row has that id (or the text is not an integer).
\<close>

lemma update_bot_refines:
  assumes "bot_wf t" and "update_bot bid opt t = (Inr c, t')" and "map_of opt ''id'' = None"
  shows "case parse_i64 bid of
           Some n \<Rightarrow> (case bot_map t n of
                       Some vs \<Rightarrow> c = 1 \<and> bot_map t' = (bot_map t)(n \<mapsto> set_values opt (bot_cols t) vs)
                     | None \<Rightarrow> c = 0 \<and> t' = t)
         | None \<Rightarrow> c = 0 \<and> t' = t"
proof -
  have d: "distinct (map fst (bot_rows t))" using assms(1) by (simp add: bot_wf_def)
  note f = find_row_has_id [OF d, of bid]
  show ?thesis
    using update_bot_Inr [OF assms(2)]
  proof
    assume "find (row_has_id bid) (bot_rows t) = None \<and> c = 0 \<and> t' = t"
    then show ?thesis using f by (auto simp: bot_map_def split: option.splits)
  next
    assume "\<exists>rid vs nid. find (row_has_id bid) (bot_rows t) = Some (rid, vs) \<and>
            update_rowid opt rid (remove1 (rid, vs) (bot_rows t)) = Inr nid \<and> c = 1 \<and>
            t' = t\<lparr>bot_rows := insort_key fst (nid, set_values opt (bot_cols t) vs)
                                   (remove1 (rid, vs) (bot_rows t))\<rparr>"
    then obtain rid vs nid where fs: "find (row_has_id bid) (bot_rows t) = Some (rid, vs)"
      and u: "update_rowid opt rid (remove1 (rid, vs) (bot_rows t)) = Inr nid" and c: "c = 1"
      and t': "t' = t\<lparr>bot_rows := insort_key fst (nid, set_values opt (bot_cols t) vs)
                                   (remove1 (rid, vs) (bot_rows t))\<rparr>"
      by blast
    have p: "parse_i64 bid = Some rid" and mo: "map_of (bot_rows t) rid = Some vs"
      using fs f by (auto split: option.splits)
    have m: "(rid, vs) \<in> set (bot_rows t)" using mo by (simp add: map_of_SomeD)
    have nid: "nid = rid" using u assms(3) by (simp add: update_rowid_def)
    have "bot_map t' = ((map_of (bot_rows t))(rid := None))(rid \<mapsto> set_values opt (bot_cols t) vs)"
      using map_of_insort_key [OF distinct_map_remove1 [OF d]] fst_notin_remove1 [OF d m]
        map_of_remove1 [OF d m]
      by (simp add: t' nid bot_map_def)
    then show ?thesis using p mo c by (simp add: bot_map_def)
  qed
qed

text \<open>
  Claim C19. A successful \<open>delete_bot\<close> removes the id the text denotes from the id-to-row
  map and returns 1 if it was present and 0 otherwise.
\<close>

lemma delete_bot_refines:
  assumes "bot_wf t" and "delete_bot bid t = (Inr c, t')"
  shows "case parse_i64 bid of
           Some n \<Rightarrow> bot_map t' = (bot_map t)(n := None) \<and> c = (if n \<in> dom (bot_map t) then 1 else 0)
         | None \<Rightarrow> t' = t \<and> c = 0"
proof -
  have d: "distinct (map fst (bot_rows t))" using assms(1) by (simp add: bot_wf_def)
  have ex: "list_ex (row_has_id bid) (bot_rows t) \<longleftrightarrow>
            (\<exists>n. parse_i64 bid = Some n \<and> n \<in> dom (bot_map t))"
    by (auto simp: list_ex_iff row_has_id_iff bot_map_def dom_map_of_conv_image_fst)
  show ?thesis
  proof (cases "parse_i64 bid")
    case None
    then show ?thesis using assms(2) ex by (auto simp: delete_bot_def split: if_splits)
  next
    case (Some n)
    have "map_of (map (\<lambda>x. x) (remove_first (row_has_id bid) (bot_rows t))) =
          (map_of (map (\<lambda>x. x) (bot_rows t)))(n := None)"
      using d Some by (intro map_of_remove_first) (auto simp: row_has_id_iff comp_def)
    then have "map_of (remove_first (row_has_id bid) (bot_rows t)) = (map_of (bot_rows t))(n := None)"
      by simp
    moreover have "n \<notin> dom (bot_map t) \<Longrightarrow> (bot_map t)(n := None) = bot_map t"
      by (auto simp: fun_eq_iff)
    ultimately show ?thesis using assms(2) ex Some
      by (auto simp: delete_bot_def bot_map_def split: if_splits)
  qed
qed

text \<open>
  Claim C20. On the schema the code expects, \<open>get_bot_list\<close>, which reads \<open>SELECT *\<close>
  by position, returns the rows in id order, and each bot it returns is what
  \<open>get_bot\<close> returns for that bot's id.
\<close>

theorem get_bot_list_agrees:
  assumes "standard_schema (bot_cols t)" and "bot_wf t" and "get_bot_list t = Inr bs"
  shows "map bot_id bs = map fst (bot_rows t) \<and>
         (\<forall>b \<in> set bs. get_bot (i64_to_string (bot_id b)) t = Inr b)"
proof -
  note rows = get_bot_list_rows [OF assms(3)]
  have ids: "map bot_id bs = map fst (bot_rows t)"
    using list_all2_read_bot_ids [OF rows] .
  have d: "distinct (map fst (bot_rows t))" using assms(2) by (simp add: bot_wf_def)
  have "get_bot (i64_to_string (bot_id b)) t = Inr b" if b: "b \<in> set bs" for b
  proof -
    obtain i where i: "i < length bs" "bs ! i = b" using b by (auto simp: in_set_conv_nth)
    let ?r = "bot_rows t ! i"
    have len: "length (bot_rows t) = length bs" using list_all2_lengthD [OF rows] .
    have r: "read_bot (SqlInt (fst ?r) # snd ?r) = Inr b" using rows i len by (auto simp: list_all2_conv_all_nth)
    have mem: "?r \<in> set (bot_rows t)" using i len by simp
    have id: "bot_id b = fst ?r" using read_bot_id [OF r] .
    have "in_i64 (fst ?r)" using assms(2) mem by (auto simp: bot_wf_def list_all_iff)
    then have p: "parse_i64 (i64_to_string (bot_id b)) = Some (fst ?r)" by (simp add: id)
    have m: "bot_map t (fst ?r) = Some (snd ?r)"
      using d mem by (simp add: bot_map_def map_of_is_SomeI)
    show ?thesis using get_bot_standard [OF assms(1,2)] p m r by simp
  qed
  with ids show ?thesis by blast
qed

section \<open>Witnesses\<close>

theorem insert_bot_refines_witness:
  "bot_wf \<lparr>bot_cols = map (\<lambda>(n, a). \<lparr>col_name = n, col_affinity = a, col_notnull = False,
                                    col_default = SqlNull\<rparr>) bot_layout,
            bot_rows = [(1, replicate 8 SqlNull)], bot_limit = True\<rparr> \<and>
   (\<exists>rid. rid = 2 \<and>
     bot_map \<lparr>bot_cols = map (\<lambda>(n, a). \<lparr>col_name = n, col_affinity = a, col_notnull = False,
                                col_default = SqlNull\<rparr>) bot_layout,
            bot_rows = [(1, replicate 8 SqlNull), (2, [SqlText ''a'', SqlNull, SqlInt 1, SqlNull, SqlNull, SqlNull, SqlNull, SqlNull])],
            bot_limit = True\<rparr> =
     (bot_map \<lparr>bot_cols = map (\<lambda>(n, a). \<lparr>col_name = n, col_affinity = a, col_notnull = False,
                                col_default = SqlNull\<rparr>) bot_layout,
            bot_rows = [(1, replicate 8 SqlNull)], bot_limit = True\<rparr>)(rid \<mapsto>
        [SqlText ''a'', SqlNull, SqlInt 1, SqlNull, SqlNull, SqlNull, SqlNull, SqlNull]))"
proof -
  let ?t = "\<lparr>bot_cols = map (\<lambda>(n, a). \<lparr>col_name = n, col_affinity = a, col_notnull = False,
                                col_default = SqlNull\<rparr>) bot_layout,
            bot_rows = [(1, replicate 8 SqlNull)], bot_limit = True\<rparr>"
  let ?o = "[(''name'', ''a''), (''enable'', ''1'')]"
  have w: "bot_wf ?t" by (simp add: bot_wf_def in_i64_iff bot_layout_def)
  have e: "insert_bot ?o ?t = (Inr 1, snd (insert_bot ?o ?t))" by (simp add: bot_eval)
  show ?thesis
    using insert_bot_refines [OF w e] w by (simp add: bot_eval bot_map_def numeral_eq_Suc)
qed

theorem update_bot_refines_witness:
  "bot_map (snd (update_bot ''3'' [(''enable'', ''1'')] \<lparr>bot_cols = map (\<lambda>(n, a). \<lparr>col_name = n, col_affinity = a, col_notnull = False,
                                col_default = SqlNull\<rparr>) bot_layout,
            bot_rows = [(1, replicate 8 SqlNull), (3, replicate 8 SqlNull)], bot_limit = True\<rparr>)) 3 =
     Some [SqlNull, SqlNull, SqlInt 1, SqlNull, SqlNull, SqlNull, SqlNull, SqlNull] \<and>
   bot_map (snd (update_bot ''3'' [(''enable'', ''1'')] \<lparr>bot_cols = map (\<lambda>(n, a). \<lparr>col_name = n, col_affinity = a, col_notnull = False,
                                col_default = SqlNull\<rparr>) bot_layout,
            bot_rows = [(1, replicate 8 SqlNull), (3, replicate 8 SqlNull)], bot_limit = True\<rparr>)) 1 = bot_map \<lparr>bot_cols = map (\<lambda>(n, a). \<lparr>col_name = n, col_affinity = a, col_notnull = False,
                                col_default = SqlNull\<rparr>) bot_layout,
            bot_rows = [(1, replicate 8 SqlNull), (3, replicate 8 SqlNull)], bot_limit = True\<rparr> 1 \<and>
   fst (update_bot ''3'' [(''enable'', ''1'')] \<lparr>bot_cols = map (\<lambda>(n, a). \<lparr>col_name = n, col_affinity = a, col_notnull = False,
                                col_default = SqlNull\<rparr>) bot_layout,
            bot_rows = [(1, replicate 8 SqlNull), (3, replicate 8 SqlNull)], bot_limit = True\<rparr>) = Inr 1"
proof -
  let ?t = "\<lparr>bot_cols = map (\<lambda>(n, a). \<lparr>col_name = n, col_affinity = a, col_notnull = False,
                                col_default = SqlNull\<rparr>) bot_layout,
            bot_rows = [(1, replicate 8 SqlNull), (3, replicate 8 SqlNull)], bot_limit = True\<rparr>"
  let ?o = "[(''enable'', ''1'')]"
  have w: "bot_wf ?t" by (simp add: bot_wf_def in_i64_iff bot_layout_def)
  have e: "update_bot ''3'' ?o ?t = (fst (update_bot ''3'' ?o ?t), snd (update_bot ''3'' ?o ?t))" by simp
  have f: "fst (update_bot ''3'' ?o ?t) = Inr 1" by (simp add: bot_eval)
  have p: "parse_i64 ''3'' = Some 3" by (simp add: parse_i64_def parse_int_def digit_value_def in_i64_iff)
  have m: "bot_map ?t 3 = Some (replicate 8 SqlNull)" by (simp add: bot_map_def)
  have r: "bot_map (snd (update_bot ''3'' ?o ?t)) = (bot_map ?t)(3 \<mapsto> set_values ?o (bot_cols ?t) (replicate 8 SqlNull))"
    using update_bot_refines [of ?t "''3''" ?o 1 "snd (update_bot ''3'' ?o ?t)"] w e f
    by (simp only: p m option.simps f) simp
  have v: "set_values ?o (bot_cols ?t) (replicate 8 SqlNull) =
           [SqlNull, SqlNull, SqlInt 1, SqlNull, SqlNull, SqlNull, SqlNull, SqlNull]"
    by (simp add: set_values_def bot_layout_def numeral_eq_Suc apply_affinity_def p parse_i64_def parse_int_def digit_value_def in_i64_iff)
  show ?thesis using fun_cong [OF r, of 3] fun_cong [OF r, of 1] v f by simp
qed

theorem delete_bot_refines_witness:
  "bot_map (snd (delete_bot ''3'' \<lparr>bot_cols = map (\<lambda>(n, a). \<lparr>col_name = n, col_affinity = a, col_notnull = False,
                                col_default = SqlNull\<rparr>) bot_layout,
            bot_rows = [(1, replicate 8 SqlNull), (3, replicate 8 SqlNull)], bot_limit = True\<rparr>)) = (bot_map \<lparr>bot_cols = map (\<lambda>(n, a). \<lparr>col_name = n, col_affinity = a, col_notnull = False,
                                col_default = SqlNull\<rparr>) bot_layout,
            bot_rows = [(1, replicate 8 SqlNull), (3, replicate 8 SqlNull)], bot_limit = True\<rparr>)(3 := None) \<and> fst (delete_bot ''3'' \<lparr>bot_cols = map (\<lambda>(n, a). \<lparr>col_name = n, col_affinity = a, col_notnull = False,
                                col_default = SqlNull\<rparr>) bot_layout,
            bot_rows = [(1, replicate 8 SqlNull), (3, replicate 8 SqlNull)], bot_limit = True\<rparr>) = Inr 1"
proof -
  let ?t = "\<lparr>bot_cols = map (\<lambda>(n, a). \<lparr>col_name = n, col_affinity = a, col_notnull = False,
                                col_default = SqlNull\<rparr>) bot_layout,
            bot_rows = [(1, replicate 8 SqlNull), (3, replicate 8 SqlNull)], bot_limit = True\<rparr>"
  have w: "bot_wf ?t" by (simp add: bot_wf_def in_i64_iff bot_layout_def)
  have e: "delete_bot ''3'' ?t = (fst (delete_bot ''3'' ?t), snd (delete_bot ''3'' ?t))" by simp
  have f: "fst (delete_bot ''3'' ?t) = Inr 1" by (simp add: bot_eval)
  have "parse_i64 ''3'' = Some 3" by (simp add: parse_i64_def parse_int_def digit_value_def in_i64_iff)
  then show ?thesis
    using delete_bot_refines [of ?t "''3''" 1 "snd (delete_bot ''3'' ?t)"] w e f
    by (simp add: bot_map_def)
qed

theorem get_bot_list_agrees_witness:
  "get_bot_list \<lparr>bot_cols = map (\<lambda>(n, a). \<lparr>col_name = n, col_affinity = a, col_notnull = False,
                                col_default = if a = Aff_Text then SqlText [] else SqlInt 0\<rparr>) bot_layout,
      bot_rows = [(1, [SqlText ''a'', SqlText ''b'', SqlInt 1, SqlInt 0, SqlText ''k'', SqlInt 0, SqlInt 1, SqlText []])],
      bot_limit = True\<rparr> = Inr [\<lparr>bot_id = 1, bot_name = ''a'', bot_description = ''b'', bot_enable = True, bot_registered = 0,
      bot_token = ''k'', bot_long_order = False, bot_short_order = True, bot_operate_type = []\<rparr>] \<and> get_bot ''1'' \<lparr>bot_cols = map (\<lambda>(n, a). \<lparr>col_name = n, col_affinity = a, col_notnull = False,
                                col_default = if a = Aff_Text then SqlText [] else SqlInt 0\<rparr>) bot_layout,
      bot_rows = [(1, [SqlText ''a'', SqlText ''b'', SqlInt 1, SqlInt 0, SqlText ''k'', SqlInt 0, SqlInt 1, SqlText []])],
      bot_limit = True\<rparr> = Inr \<lparr>bot_id = 1, bot_name = ''a'', bot_description = ''b'', bot_enable = True, bot_registered = 0,
      bot_token = ''k'', bot_long_order = False, bot_short_order = True, bot_operate_type = []\<rparr>"
proof -
  have s: "standard_schema (bot_cols \<lparr>bot_cols = map (\<lambda>(n, a). \<lparr>col_name = n, col_affinity = a, col_notnull = False,
                                col_default = if a = Aff_Text then SqlText [] else SqlInt 0\<rparr>) bot_layout,
      bot_rows = [(1, [SqlText ''a'', SqlText ''b'', SqlInt 1, SqlInt 0, SqlText ''k'', SqlInt 0, SqlInt 1, SqlText []])],
      bot_limit = True\<rparr>)" by (simp add: standard_schema_def bot_layout_def)
  have w: "bot_wf \<lparr>bot_cols = map (\<lambda>(n, a). \<lparr>col_name = n, col_affinity = a, col_notnull = False,
                                col_default = if a = Aff_Text then SqlText [] else SqlInt 0\<rparr>) bot_layout,
      bot_rows = [(1, [SqlText ''a'', SqlText ''b'', SqlInt 1, SqlInt 0, SqlText ''k'', SqlInt 0, SqlInt 1, SqlText []])],
      bot_limit = True\<rparr>" by (simp add: bot_wf_def in_i64_iff bot_layout_def)
  have l: "get_bot_list \<lparr>bot_cols = map (\<lambda>(n, a). \<lparr>col_name = n, col_affinity = a, col_notnull = False,
                                col_default = if a = Aff_Text then SqlText [] else SqlInt 0\<rparr>) bot_layout,
      bot_rows = [(1, [SqlText ''a'', SqlText ''b'', SqlInt 1, SqlInt 0, SqlText ''k'', SqlInt 0, SqlInt 1, SqlText []])],
      bot_limit = True\<rparr> = Inr [\<lparr>bot_id = 1, bot_name = ''a'', bot_description = ''b'', bot_enable = True, bot_registered = 0,
      bot_token = ''k'', bot_long_order = False, bot_short_order = True, bot_operate_type = []\<rparr>]"
    by (simp add: get_bot_list_def read_bot_def row_get_def)
  have "i64_to_string 1 = ''1''" by code_simp
  then show ?thesis using get_bot_list_agrees [OF s w l] l by simp
qed

end
