(* ===== verification/BotAdmin.thy ===== *)
theory BotAdmin
  imports BotStore Clap "HOL-Library.AList"
begin

text \<open>
  The \<open>bot-admin\<close> command (\<open>src/app/src/bot-admin/src/main.rs\<close>): the option map built
  from the parsed arguments (\<open>_get_option\<close>, \<open>get_config\<close>), the five commands
  (\<open>_add\<close>, \<open>_update\<close>, \<open>_remove\<close>, \<open>_get\<close>, \<open>_list\<close>), \<open>actual_main\<close>
  and the exit status. The input is clap's result, the chosen subcommand with the values and
  flags given, as the \<open>arg_matches\<close> of theory \<open>Clap\<close>; the argument declarations
  are \<open>Clap\<close> subcommands, and clap's parser is modelled by the matches it accepts for
  them (\<open>clap_accepts\<close>). A \<open>HashMap\<close> is an association list with
  distinct keys (\<open>AList.update\<close> is \<open>insert\<close>, \<open>AList.delete\<close> is
  \<open>remove\<close>). What \<open>_get\<close> and \<open>_list\<close> print is recorded as which value is
  serialised and in which format; the serialisers themselves are not modelled.
\<close>

section \<open>Arguments and the option map\<close>

text \<open>
  The argument declarations (lines 42-148): each \<open>_clap_*\<close> builder, and the subcommands
  of \<open>get_args_matches\<close> with their arguments and output group. With
  \<open>ArgRequiredElseHelp\<close> a command line without a subcommand prints the help and exits,
  so \<open>clap_accepts\<close> (theory \<open>Clap\<close>) refuses it.
\<close>

definition clap_name :: clap_arg where
  "clap_name = clap_value_arg ''name''"

definition clap_description :: clap_arg where
  "clap_description = clap_value_arg ''description''"

definition clap_enable :: clap_arg where
  "clap_enable = (clap_value_arg ''enable'')\<lparr>ca_possible := Some [''true'', ''false'']\<rparr>"

definition clap_long_order :: clap_arg where
  "clap_long_order = (clap_value_arg ''long_order'')\<lparr>ca_possible := Some [''true'', ''false'']\<rparr>"

definition clap_short_order :: clap_arg where
  "clap_short_order = (clap_value_arg ''short_order'')\<lparr>ca_possible := Some [''true'', ''false'']\<rparr>"

definition clap_operation :: clap_arg where
  "clap_operation = (clap_value_arg ''operation'')\<lparr>ca_possible := Some [''backtest'', ''forwardtest'', ''product'']\<rparr>"

definition clap_output :: "string list" where
  "clap_output = [''json'', ''yaml'']"

definition get_args_matches :: "clap_subcommand list" where
  "get_args_matches =
     [\<lparr>cs_name = ''add'',
       cs_args = [clap_required clap_name, clap_required clap_description, clap_enable, clap_long_order,
                  clap_short_order, clap_operation],
       cs_group = None\<rparr>,
      \<lparr>cs_name = ''update'',
       cs_args = [clap_required (clap_value_arg ''id''), clap_name, clap_description, clap_enable,
                  clap_long_order, clap_short_order, clap_operation],
       cs_group = None\<rparr>,
      \<lparr>cs_name = ''remove'', cs_args = [clap_required (clap_value_arg ''id'')], cs_group = None\<rparr>,
      \<lparr>cs_name = ''get'',
       cs_args = [clap_flag_arg ''json'', clap_flag_arg ''yaml'', clap_required (clap_value_arg ''id'')],
       cs_group = Some (clap_output, False)\<rparr>,
      \<lparr>cs_name = ''list'', cs_args = [clap_flag_arg ''json'', clap_flag_arg ''yaml''],
       cs_group = Some (clap_output, True)\<rparr>]"

text \<open>\<open>_get_option\<close> (lines 150-180): the must keys with \<open>unwrap\<close>, the optional keys
  when given, and \<open>"1"\<close> for each of the flags \<open>json\<close> and \<open>yaml\<close> present.\<close>

fun insert_must :: "arg_matches \<Rightarrow> string list \<Rightarrow> bot_option \<Rightarrow> panic + bot_option" where
  "insert_must m [] opt = Inr opt"
| "insert_must m (k # ks) opt =
     bind_res (unwrap (value_of m k)) (\<lambda>v. insert_must m ks (AList.update k v opt))"

fun insert_optional :: "arg_matches \<Rightarrow> string list \<Rightarrow> bot_option \<Rightarrow> bot_option" where
  "insert_optional m [] opt = opt"
| "insert_optional m (k # ks) opt =
     insert_optional m ks (case value_of m k of Some v \<Rightarrow> AList.update k v opt | None \<Rightarrow> opt)"

definition insert_output_flags :: "arg_matches \<Rightarrow> bot_option \<Rightarrow> bot_option" where
  "insert_output_flags m opt =
     fold (\<lambda>k acc. if is_present m k then AList.update k ''1'' acc else acc) [''json'', ''yaml''] opt"

definition admin_get_option ::
  "arg_matches \<Rightarrow> string list \<Rightarrow> string list \<Rightarrow> panic + bot_option" where
  "admin_get_option m must optional =
     bind_res (insert_must m must []) (\<lambda>opt. Inr (insert_output_flags m (insert_optional m optional opt)))"

datatype command = Add | Update | Remove | Get | List | NoCommand

record config =
  cfg_command :: command
  cfg_option :: bot_option

definition subcommand_matches :: "subcommand \<Rightarrow> string \<Rightarrow> arg_matches option" where
  "subcommand_matches sc n =
     (case sc of Some (n', m) \<Rightarrow> if n' = n then Some m else None | None \<Rightarrow> None)"

definition add_keys :: "string list" where
  "add_keys = [''enable'', ''long_order'', ''short_order'', ''operation'']"

definition update_keys :: "string list" where
  "update_keys = [''id'', ''name'', ''description'', ''enable'', ''long_order'', ''short_order'', ''operation'']"

definition make_config :: "command \<Rightarrow> panic + bot_option \<Rightarrow> panic + config" where
  "make_config c r = bind_res r (\<lambda>opt. Inr \<lparr>cfg_command = c, cfg_option = opt\<rparr>)"

text \<open>\<open>get_config\<close> (lines 183-272): the first subcommand that matched, in code order.\<close>

definition get_config :: "subcommand \<Rightarrow> panic + config" where
  "get_config sc =
     (case subcommand_matches sc ''add'' of
        Some m \<Rightarrow> make_config Add (admin_get_option m [''name'', ''description''] add_keys)
      | None \<Rightarrow>
     (case subcommand_matches sc ''update'' of
        Some m \<Rightarrow> make_config Update (admin_get_option m [''id''] update_keys)
      | None \<Rightarrow>
     (case subcommand_matches sc ''remove'' of
        Some m \<Rightarrow> make_config Remove (admin_get_option m [''id''] [])
      | None \<Rightarrow>
     (case subcommand_matches sc ''get'' of
        Some m \<Rightarrow> make_config Get (admin_get_option m [''id''] [])
      | None \<Rightarrow>
     (case subcommand_matches sc ''list'' of
        Some m \<Rightarrow> make_config List (admin_get_option m [] [])
      | None \<Rightarrow> Inr \<lparr>cfg_command = NoCommand, cfg_option = []\<rparr>)))))"

section \<open>The commands\<close>

text \<open>\<open>if v == "true" { "1" } else { "0" }\<close> for a flag given in the map.\<close>

definition to_flag :: "string \<Rightarrow> string" where
  "to_flag v = (if v = ''true'' then ''1'' else ''0'')"

definition convert_flag :: "string \<Rightarrow> bot_option \<Rightarrow> bot_option" where
  "convert_flag k opt = (case map_of opt k of Some v \<Rightarrow> AList.update k (to_flag v) opt | None \<Rightarrow> opt)"

definition convert_flags :: "bot_option \<Rightarrow> bot_option" where
  "convert_flags opt = convert_flag ''short_order'' (convert_flag ''long_order'' (convert_flag ''enable'' opt))"

definition lift_sql :: "sql_error + usize \<Rightarrow> fault + usize" where
  "lift_sql r = (case r of Inl e \<Rightarrow> Inl (Sql e) | Inr n \<Rightarrow> Inr n)"

text \<open>\<open>_add\<close> (lines 294-320).\<close>

definition admin_add :: "bot_option \<Rightarrow> bot_table \<Rightarrow> (fault + usize) \<times> bot_table" where
  "admin_add opt t = (case insert_bot (convert_flags opt) t of (r, t') \<Rightarrow> (lift_sql r, t'))"

text \<open>\<open>_update\<close> (lines 323-352): \<open>id\<close> is removed from the map before the update.\<close>

definition admin_update :: "bot_option \<Rightarrow> bot_table \<Rightarrow> (fault + usize) \<times> bot_table" where
  "admin_update opt t =
     (let opt' = convert_flags (AList.delete ''id'' opt) in
      case map_of opt ''id'' of
        None \<Rightarrow> (Inl (Panic Unwrap_None), t)
      | Some bid \<Rightarrow> (case update_bot bid opt' t of (r, t') \<Rightarrow> (lift_sql r, t')))"

text \<open>\<open>_remove\<close> (lines 355-364).\<close>

definition admin_remove :: "bot_option \<Rightarrow> bot_table \<Rightarrow> (fault + usize) \<times> bot_table" where
  "admin_remove opt t =
     (case map_of opt ''id'' of
        None \<Rightarrow> (Inl (Panic Unwrap_None), t)
      | Some bid \<Rightarrow> (case delete_bot bid t of (r, t') \<Rightarrow> (lift_sql r, t')))"

text \<open>What \<open>_get\<close> and \<open>_list\<close> print: the value serialised and the format.\<close>

datatype admin_output = No_Output | Json_Bot bot | Yaml_Bot bot | Json_List "bot list" | Yaml_List "bot list"

text \<open>\<open>bot.get_id() as usize\<close> on a 64-bit target: the two's-complement bits.\<close>

definition as_usize :: "i64 \<Rightarrow> usize" where
  "as_usize n = nat (n mod 2 ^ 64)"

text \<open>\<open>_get\<close> (lines 367-396).\<close>

definition admin_get :: "bot_option \<Rightarrow> bot_table \<Rightarrow> (fault + usize) \<times> admin_output" where
  "admin_get opt t =
     (case map_of opt ''id'' of
        None \<Rightarrow> (Inl (Panic Unwrap_None), No_Output)
      | Some bid \<Rightarrow>
          (case get_bot bid t of
             Inl f \<Rightarrow> (Inl f, No_Output)
           | Inr b \<Rightarrow>
               (Inr (as_usize (get_id b)),
                if map_of opt ''json'' \<noteq> None then Json_Bot b
                else if map_of opt ''yaml'' \<noteq> None then Yaml_Bot b
                else No_Output)))"

text \<open>\<open>_list\<close> (lines 399-425).\<close>

definition admin_list :: "bot_option \<Rightarrow> bot_table \<Rightarrow> (fault + usize) \<times> admin_output" where
  "admin_list opt t =
     (case get_bot_list t of
        Inl f \<Rightarrow> (Inl f, No_Output)
      | Inr bs \<Rightarrow>
          (Inr (get_list_len bs),
           if map_of opt ''json'' \<noteq> None then Json_List bs
           else if map_of opt ''yaml'' \<noteq> None then Yaml_List bs
           else No_Output))"

text \<open>The exit status: 101 for a panic, 1 for an error, 0 for success.\<close>

definition exit_status :: "fault + 'a \<Rightarrow> int" where
  "exit_status r = (case r of Inl (Panic _) \<Rightarrow> 101 | Inl (Sql _) \<Rightarrow> 1 | Inr _ \<Rightarrow> 0)"

text \<open>\<open>actual_main\<close> (lines 275-291): no command is \<open>ExecuteReturnedResults\<close>.\<close>

definition actual_main :: "config \<Rightarrow> bot_table \<Rightarrow> (int \<times> admin_output) \<times> bot_table" where
  "actual_main cfg t =
     (let opt = cfg_option cfg in
      case cfg_command cfg of
        Add \<Rightarrow> (case admin_add opt t of (r, t') \<Rightarrow> ((exit_status r, No_Output), t'))
      | Update \<Rightarrow> (case admin_update opt t of (r, t') \<Rightarrow> ((exit_status r, No_Output), t'))
      | Remove \<Rightarrow> (case admin_remove opt t of (r, t') \<Rightarrow> ((exit_status r, No_Output), t'))
      | Get \<Rightarrow> (case admin_get opt t of (r, out) \<Rightarrow> ((exit_status r, out), t))
      | List \<Rightarrow> (case admin_list opt t of (r, out) \<Rightarrow> ((exit_status r, out), t))
      | NoCommand \<Rightarrow> ((exit_status (Inl (Sql ExecuteReturnedResults) :: fault + usize), No_Output), t))"

text \<open>\<open>main\<close> (lines 20-40) after the connection: a panic while reading the arguments
  exits with 101.\<close>

definition bot_admin_main :: "subcommand \<Rightarrow> bot_table \<Rightarrow> (int \<times> admin_output) \<times> bot_table" where
  "bot_admin_main sc t =
     (case get_config sc of
        Inl _ \<Rightarrow> ((101, No_Output), t)
      | Inr cfg \<Rightarrow> actual_main cfg t)"

section \<open>Lemmas\<close>

lemma unwrap_eq_Inr [simp]: "unwrap x = Inr a \<longleftrightarrow> x = Some a"
  by (cases x) simp_all

lemma map_of_insert_optional:
  "map_of (insert_optional m ks opt) k =
     (if k \<in> set ks \<and> value_of m k \<noteq> None then value_of m k else map_of opt k)"
  by (induction ks arbitrary: opt) (auto simp: update_conv' split: option.splits)

lemma insert_must_Inr:
  "insert_must m ks opt = Inr r \<Longrightarrow> map_of r k = (if k \<in> set ks then value_of m k else map_of opt k)"
  by (induction ks arbitrary: opt) (auto simp: update_conv' split: if_splits)

lemma insert_must_total: "\<forall>k \<in> set ks. value_of m k \<noteq> None \<Longrightarrow> \<exists>r. insert_must m ks opt = Inr r"
  by (induction ks arbitrary: opt) auto

lemma distinct_insert_must: "insert_must m ks opt = Inr r \<Longrightarrow> distinct (map fst opt) \<Longrightarrow> distinct (map fst r)"
  by (induction ks arbitrary: opt) (auto simp: distinct_update)

lemma distinct_insert_optional: "distinct (map fst opt) \<Longrightarrow> distinct (map fst (insert_optional m ks opt))"
  by (induction ks arbitrary: opt) (auto simp: distinct_update split: option.split)

lemma map_of_insert_output_flags:
  "map_of (insert_output_flags m opt) k =
     (if (k = ''json'' \<or> k = ''yaml'') \<and> is_present m k then Some ''1'' else map_of opt k)"
  by (auto simp: insert_output_flags_def update_conv')

lemma distinct_insert_output_flags: "distinct (map fst opt) \<Longrightarrow> distinct (map fst (insert_output_flags m opt))"
  by (simp add: insert_output_flags_def distinct_update)

lemma admin_get_option_Inr:
  assumes "admin_get_option m must optional = Inr opt"
  shows "map_of opt k =
           (if (k = ''json'' \<or> k = ''yaml'') \<and> is_present m k then Some ''1''
            else if k \<in> set must \<or> k \<in> set optional then value_of m k else None)"
    and "distinct (map fst opt)"
proof -
  obtain r where r: "insert_must m must [] = Inr r"
    and o: "opt = insert_output_flags m (insert_optional m optional r)"
    using assms by (auto simp: admin_get_option_def)
  show "map_of opt k =
           (if (k = ''json'' \<or> k = ''yaml'') \<and> is_present m k then Some ''1''
            else if k \<in> set must \<or> k \<in> set optional then value_of m k else None)"
    using insert_must_Inr [OF r, of k]
    by (auto simp: o map_of_insert_output_flags map_of_insert_optional)
  show "distinct (map fst opt)"
    using distinct_insert_must [OF r] by (simp add: o distinct_insert_output_flags distinct_insert_optional)
qed

lemma admin_get_option_total:
  "\<forall>k \<in> set must. value_of m k \<noteq> None \<Longrightarrow> \<exists>opt. admin_get_option m must optional = Inr opt"
  using insert_must_total [of must m "[]"] by (auto simp: admin_get_option_def)

lemma map_of_convert_flag:
  "map_of (convert_flag f opt) k = (if k = f then map_option to_flag (map_of opt f) else map_of opt k)"
  by (auto simp: convert_flag_def update_conv' split: option.split)

lemma map_of_convert_flags:
  "map_of (convert_flags opt) k =
     (if k = ''enable'' \<or> k = ''long_order'' \<or> k = ''short_order'' then map_option to_flag (map_of opt k)
      else map_of opt k)"
  by (auto simp: convert_flags_def map_of_convert_flag)

lemma distinct_convert_flags: "distinct (map fst opt) \<Longrightarrow> distinct (map fst (convert_flags opt))"
  by (simp add: convert_flags_def convert_flag_def distinct_update split: option.split)

lemma to_flag_fits: "value_fits Aff_Integer (apply_affinity Aff_Integer (to_flag v))"
  by (simp add: to_flag_def apply_affinity_def parse_i64_def parse_int_def digit_value_def in_i64_iff)

lemma convert_flags_registered:
  "map_of (convert_flags opt) k = Some v \<Longrightarrow> map_of opt ''registered'' = None \<Longrightarrow> k \<noteq> ''registered''"
  by (auto simp: map_of_convert_flags)

lemma convert_flags_flag:
  "map_of (convert_flags opt) k = Some v \<Longrightarrow> k = ''enable'' \<or> k = ''long_order'' \<or> k = ''short_order'' \<Longrightarrow>
   \<exists>v'. v = to_flag v'"
  by (auto simp: map_of_convert_flags)

lemma admin_option_typed:
  assumes "standard_schema cs" and "distinct (map fst opt)" and "map_of opt ''registered'' = None"
  shows "option_typed cs (convert_flags opt)"
proof (rule option_typed_distinct [OF distinct_convert_flags [OF assms(2)]])
  fix k v c
  assume v: "map_of (convert_flags opt) k = Some v" and c: "c \<in> set cs" and k: "col_name c = k"
  have l: "(k, col_affinity c) \<in> set bot_layout" using standard_schema_column [OF assms(1) c] k by simp
  show "value_fits (col_affinity c) (apply_affinity (col_affinity c) v)"
  proof (cases "col_affinity c")
    case Aff_Integer
    with l have "k = ''enable'' \<or> k = ''registered'' \<or> k = ''long_order'' \<or> k = ''short_order''"
      by (simp add: bot_layout_integer)
    with convert_flags_registered [OF v assms(3)]
    have "k = ''enable'' \<or> k = ''long_order'' \<or> k = ''short_order''" by blast
    with convert_flags_flag [OF v] obtain v' where "v = to_flag v'" by blast
    then show ?thesis using Aff_Integer to_flag_fits by simp
  next
    case Aff_Text
    then show ?thesis by (simp add: apply_affinity_def)
  qed
qed

lemma get_config_Inr:
  assumes "get_config sc = Inr cfg"
  shows "distinct (map fst (cfg_option cfg)) \<and> map_of (cfg_option cfg) ''registered'' = None"
  using assms admin_get_option_Inr
  by (fastforce simp: get_config_def make_config_def add_keys_def update_keys_def
                split: option.splits)

lemma bot_cols_admin_main [simp]: "bot_cols (snd (bot_admin_main sc t)) = bot_cols t"
  by (auto simp: bot_admin_main_def actual_main_def admin_add_def admin_update_def admin_remove_def
      Let_def insert_bot_def update_bot_def delete_bot_def
      split: sum.splits command.splits option.splits prod.splits if_splits)

lemma get_config_add:
  "get_config (Some (''add'', m)) = make_config Add (admin_get_option m [''name'', ''description''] add_keys)"
  by (simp add: get_config_def subcommand_matches_def)

lemma get_config_update:
  "get_config (Some (''update'', m)) = make_config Update (admin_get_option m [''id''] update_keys)"
  by (simp add: get_config_def subcommand_matches_def)

lemma get_config_get:
  "get_config (Some (''get'', m)) = make_config Get (admin_get_option m [''id''] [])"
  by (simp add: get_config_def subcommand_matches_def)

lemma make_config_Inr [simp]: "make_config c (Inr opt) = Inr \<lparr>cfg_command = c, cfg_option = opt\<rparr>"
  by (simp add: make_config_def)

lemma admin_main_config:
  "get_config sc = Inr cfg \<Longrightarrow> bot_admin_main sc t = actual_main cfg t"
  by (simp add: bot_admin_main_def)

lemma exit_status_simps [simp]:
  "exit_status (Inl (Panic p)) = 101" "exit_status (Inl (Sql e)) = 1" "exit_status (Inr x) = 0"
  by (simp_all add: exit_status_def)

lemma lift_sql_simps [simp]: "lift_sql (Inl e) = Inl (Sql e)" "lift_sql (Inr n) = Inr n"
  by (simp_all add: lift_sql_def)

lemma add_option_map:
  assumes "admin_get_option m [''name'', ''description''] add_keys = Inr opt"
    and "value_of m ''operation'' = None" and "\<not> is_present m ''json''" and "\<not> is_present m ''yaml''"
  shows "map_of (convert_flags opt) k =
           (if k = ''enable'' \<or> k = ''long_order'' \<or> k = ''short_order'' then map_option to_flag (value_of m k)
            else if k = ''name'' \<or> k = ''description'' then value_of m k else None)"
  using admin_get_option_Inr(1) [OF assms(1), of k] assms(2-4)
  by (auto simp: map_of_convert_flags add_keys_def)

lemma apply_affinity_to_flag:
  "apply_affinity Aff_Integer (to_flag v) = SqlInt (if v = ''true'' then 1 else 0)"
  by (simp add: to_flag_def apply_affinity_def parse_i64_def parse_int_def digit_value_def in_i64_iff)

text \<open>
  On the schema the code expects, a \<open>bot-admin\<close> run of any subcommand keeps every
  stored value of its column's storage class: flags are stored as \<open>1\<close>/\<open>0\<close>, text as
  text, and nothing else is written.
\<close>

lemma admin_rows_typed:
  assumes "standard_schema (bot_cols t)" and "rows_typed t"
  shows "rows_typed (snd (bot_admin_main sc t))"
proof (cases "get_config sc")
  case (Inl p)
  then show ?thesis using assms(2) by (simp add: bot_admin_main_def)
next
  case (Inr cfg)
  let ?opt = "cfg_option cfg"
  have d: "distinct (map fst ?opt)" and r: "map_of ?opt ''registered'' = None"
    using get_config_Inr [OF Inr] by simp_all
  have ty_add: "option_typed (bot_cols t) (convert_flags ?opt)"
    by (rule admin_option_typed [OF assms(1) d r])
  have ty_upd: "option_typed (bot_cols t) (convert_flags (AList.delete ''id'' ?opt))"
    using d r by (intro admin_option_typed [OF assms(1)]) (simp_all add: distinct_delete delete_conv')
  show ?thesis
  proof (cases "cfg_command cfg")
    case Add
    then show ?thesis
      using Inr rows_typed_insert_bot [OF standard_schema_defaults [OF assms(1)] ty_add assms(2)]
      by (simp add: bot_admin_main_def actual_main_def admin_add_def prod.case_eq_if Let_def)
  next
    case Update
    then show ?thesis
      using Inr rows_typed_update_bot [OF ty_upd assms(2)] assms(2)
      by (simp add: bot_admin_main_def actual_main_def admin_update_def prod.case_eq_if Let_def split: option.split)
  next
    case Remove
    then show ?thesis
      using Inr rows_typed_delete_bot [OF assms(2)] assms(2)
      by (simp add: bot_admin_main_def actual_main_def admin_remove_def prod.case_eq_if Let_def split: option.split)
  next
    case Get
    then show ?thesis using Inr assms(2) by (simp add: bot_admin_main_def actual_main_def Let_def prod.case_eq_if)
  next
    case List
    then show ?thesis using Inr assms(2) by (simp add: bot_admin_main_def actual_main_def Let_def prod.case_eq_if)
  next
    case NoCommand
    then show ?thesis using Inr assms(2) by (simp add: bot_admin_main_def actual_main_def Let_def)
  qed
qed

lemma clap_accepts_required:
  assumes "clap_accepts get_args_matches sc"
  obtains m where "sc = Some (''add'', m)" "value_of m ''name'' \<noteq> None" "value_of m ''description'' \<noteq> None"
  | m n where "sc = Some (n, m)" "n = ''update'' \<or> n = ''remove'' \<or> n = ''get''" "value_of m ''id'' \<noteq> None"
  | m where "sc = Some (''list'', m)"
proof -
  obtain n m where sc: "sc = Some (n, m)" using assms by (cases sc) (auto simp: clap_accepts_def)
  note ok = assms [unfolded sc clap_accepts_def get_args_matches_def]
  consider "n = ''add''" | "n = ''update''" | "n = ''remove''" | "n = ''get''" | "n = ''list''"
    using ok by (auto split: if_splits)
  then show ?thesis
  proof cases
    case 1
    with ok have "is_present m ''name''" "is_present m ''description''" "list_all (\<lambda>k. False) (am_flags m)"
      by (simp_all add: clap_matches_ok_def clap_required_def clap_name_def clap_description_def clap_value_arg_def
          clap_enable_def clap_long_order_def clap_short_order_def clap_operation_def)
    then show ?thesis using that(1) [of m] sc 1 by (auto simp: is_present_def list_all_iff)
  next
    case 2
    with ok have "is_present m ''id''" "list_all (\<lambda>k. False) (am_flags m)"
      by (simp_all add: clap_matches_ok_def clap_required_def clap_name_def clap_description_def clap_value_arg_def
          clap_enable_def clap_long_order_def clap_short_order_def clap_operation_def)
    then show ?thesis using that(2) [of n m] sc 2 by (auto simp: is_present_def list_all_iff)
  next
    case 3
    with ok have "is_present m ''id''" "list_all (\<lambda>k. False) (am_flags m)"
      by (simp_all add: clap_matches_ok_def clap_required_def clap_value_arg_def)
    then show ?thesis using that(2) [of n m] sc 3 by (auto simp: is_present_def list_all_iff)
  next
    case 4
    with ok have "is_present m ''id''" "\<forall>k \<in> set (am_flags m). ''json'' = k \<or> ''yaml'' = k"
      by (simp_all add: clap_matches_ok_def clap_required_def clap_value_arg_def clap_flag_arg_def list_all_iff)
    then show ?thesis using that(2) [of n m] sc 4 by (auto simp: is_present_def list_all_iff)
  next
    case 5
    then show ?thesis using that(3) [of m] sc by simp
  qed
qed

lemma exit_status_lift_sql: "exit_status (lift_sql r) = (case r of Inl _ \<Rightarrow> 1 | Inr _ \<Rightarrow> 0)"
  by (cases r) simp_all

lemma exit_status_no_panic: "(\<forall>p. r \<noteq> Inl (Panic p)) \<Longrightarrow> exit_status r \<in> {0, 1}"
  by (auto simp: exit_status_def split: sum.split fault.split)

lemma actual_main_no_panic:
  assumes "standard_schema (bot_cols t)" and "bot_wf t" and "rows_typed t"
    and "cfg_command cfg \<noteq> NoCommand"
    and "cfg_command cfg \<in> {Update, Remove, Get} \<Longrightarrow> map_of (cfg_option cfg) ''id'' \<noteq> None"
  shows "fst (fst (actual_main cfg t)) \<in> {0, 1}"
proof (cases "cfg_command cfg")
  case Get
  then obtain bid where bid: "map_of (cfg_option cfg) ''id'' = Some bid" using assms(5) by auto
  have r: "fst (fst (actual_main cfg t)) = exit_status (fst (admin_get (cfg_option cfg) t))"
    using Get by (simp add: actual_main_def Let_def prod.case_eq_if)
  have "\<forall>p. fst (admin_get (cfg_option cfg) t) \<noteq> Inl (Panic p)"
    using bid get_bot_no_panic [OF assms(1-3), of bid] by (auto simp: admin_get_def split: sum.split)
  then show ?thesis unfolding r by (rule exit_status_no_panic)
next
  case List
  then show ?thesis using get_bot_list_typed [OF assms(1,3)] by (simp add: actual_main_def admin_list_def Let_def)
qed (use assms(4,5) in \<open>auto simp: actual_main_def admin_add_def admin_update_def admin_remove_def Let_def
       exit_status_lift_sql prod.case_eq_if split: option.split sum.split\<close>)

lemma get_config_clap:
  assumes "clap_accepts get_args_matches sc"
  obtains cfg where "get_config sc = Inr cfg" and "cfg_command cfg \<noteq> NoCommand"
    and "cfg_command cfg \<in> {Update, Remove, Get} \<Longrightarrow> map_of (cfg_option cfg) ''id'' \<noteq> None"
  using assms
proof (cases rule: clap_accepts_required)
  case (1 m)
  then obtain opt where "admin_get_option m [''name'', ''description''] add_keys = Inr opt"
    using admin_get_option_total [of "[''name'', ''description'']" m add_keys] by auto
  then show ?thesis using that 1 by (simp add: get_config_add)
next
  case (2 m n)
  then obtain opt where o: "admin_get_option m [''id''] (if n = ''update'' then update_keys else []) = Inr opt"
    using admin_get_option_total [of "[''id'']" m] by auto
  have "map_of opt ''id'' \<noteq> None" using admin_get_option_Inr(1) [OF o, of "''id''"] 2 by simp
  then show ?thesis using that 2 o by (auto simp: get_config_def subcommand_matches_def split: if_splits)
next
  case (3 m)
  then show ?thesis using that by (simp add: get_config_def subcommand_matches_def admin_get_option_def)
qed

section \<open>Properties\<close>

text \<open>
  Claim C31. \<open>bot-admin add --operation \<dots>\<close> always fails with exit status 1 and writes
  nothing when the table has no column named \<open>operation\<close> (the expected schema names
  it \<open>operate_type\<close>): the option key is used as the column name.
\<close>

theorem admin_add_operation_fails:
  assumes "''operation'' \<notin> set (map col_name (bot_cols t))"
    and "value_of m ''name'' \<noteq> None" and "value_of m ''description'' \<noteq> None"
    and "value_of m ''operation'' \<noteq> None"
  shows "bot_admin_main (Some (''add'', m)) t = ((1, No_Output), t)"
proof -
  obtain opt where o: "admin_get_option m [''name'', ''description''] add_keys = Inr opt"
    using admin_get_option_total [of "[''name'', ''description'']" m add_keys] assms(2,3) by auto
  have "map_of (convert_flags opt) ''operation'' \<noteq> None"
    using admin_get_option_Inr(1) [OF o, of "''operation''"] assms(4)
    by (simp add: map_of_convert_flags add_keys_def)
  moreover have "\<not> column_ok (bot_cols t) ''operation''" using assms(1) by (simp add: column_ok_def)
  ultimately have "insert_bot (convert_flags opt) t = (Inl SqlInputError, t)"
    by (rule insert_bot_key_error)
  then show ?thesis
    using o by (simp add: admin_main_config get_config_add actual_main_def admin_add_def)
qed

text \<open>
  Claim C32. \<open>bot-admin update <id>\<close> with no field to change exits with status 1 and
  changes nothing: after \<open>id\<close> is removed the statement is \<open>UPDATE bot SET  where
  \<dots>\<close>, which SQLite rejects.
\<close>

theorem admin_update_no_fields:
  assumes "value_of m ''id'' = Some bid"
    and "\<forall>k \<in> set [''name'', ''description'', ''enable'', ''long_order'', ''short_order'', ''operation''].
           value_of m k = None"
    and "\<not> is_present m ''json''" and "\<not> is_present m ''yaml''"
  shows "bot_admin_main (Some (''update'', m)) t = ((1, No_Output), t)"
proof -
  obtain opt where o: "admin_get_option m [''id''] update_keys = Inr opt"
    using admin_get_option_total [of "[''id'']" m update_keys] assms(1) by auto
  have "map_of (AList.delete ''id'' opt) = Map.empty"
    using admin_get_option_Inr(1) [OF o] assms(2-4)
    by (auto simp: delete_conv' update_keys_def fun_eq_iff)
  then have e: "AList.delete ''id'' opt = []" by simp
  have i: "map_of opt ''id'' = Some bid" using admin_get_option_Inr(1) [OF o] assms(1) by simp
  have c: "convert_flags (AList.delete ''id'' opt) = []"
    by (simp only: e) (simp add: convert_flags_def convert_flag_def)
  have u: "update_bot bid [] t = (Inl SqlInputError, t)" by (simp add: update_bot_def)
  show ?thesis
    using o i by (simp add: admin_main_config get_config_update actual_main_def admin_update_def c u)
qed

text \<open>
  Claim C29. On the expected schema, \<open>bot-admin add\<close> with a name and a description
  succeeds, and \<open>bot-admin get\<close> of the id it was given (the largest id plus one)
  succeeds; \<open>get_bot\<close> returns the bot with the given name and description and each
  given flag stored as \<open>true\<close> exactly when it was \<open>"true"\<close>.
\<close>

theorem admin_add_then_get:
  assumes schema: "standard_schema (bot_cols t)" and wf: "bot_wf t" and fresh: "in_i64 (new_rowid t)"
    and nm: "value_of m ''name'' = Some n" and ds: "value_of m ''description'' = Some d"
    and op: "value_of m ''operation'' = None"
    and nj: "\<not> is_present m ''json''" and ny: "\<not> is_present m ''yaml''"
  shows "\<exists>t'. bot_admin_main (Some (''add'', m)) t = ((0, No_Output), t') \<and>
           bot_admin_main (Some (''get'', \<lparr>am_values = [(''id'', i64_to_string (new_rowid t))], am_flags = []\<rparr>)) t' =
             ((0, No_Output), t') \<and>
           (\<exists>b. get_bot (i64_to_string (new_rowid t)) t' = Inr b \<and> bot_id b = new_rowid t \<and>
                bot_name b = n \<and> bot_description b = d \<and>
                (\<forall>v. value_of m ''enable'' = Some v \<longrightarrow> bot_enable b = (v = ''true'')) \<and>
                (\<forall>v. value_of m ''long_order'' = Some v \<longrightarrow> bot_long_order b = (v = ''true'')) \<and>
                (\<forall>v. value_of m ''short_order'' = Some v \<longrightarrow> bot_short_order b = (v = ''true'')))"
proof -
  obtain opt where o: "admin_get_option m [''name'', ''description''] add_keys = Inr opt"
    using admin_get_option_total [of "[''name'', ''description'']" m add_keys] nm ds by auto
  let ?o = "convert_flags opt" and ?cs = "bot_cols t" and ?rid = "new_rowid t"
  let ?vs = "insert_values ?o ?cs"
  note mo = add_option_map [OF o op nj ny]
  have ne: "?o \<noteq> []" using mo [of "''name''"] nm by auto
  have ok: "list_all (column_ok ?cs \<circ> fst) ?o"
    unfolding list_all_keys
    by (auto simp: mo bot_layout_def intro!: standard_column_ok [OF schema] split: if_splits)
  have dist: "distinct (map fst opt)" by (rule admin_get_option_Inr(2) [OF o])
  have reg: "map_of opt ''registered'' = None"
    using admin_get_option_Inr(1) [OF o, of "''registered''"] by (simp add: add_keys_def)
  have ty: "list_all2 (\<lambda>c v. value_fits (col_affinity c) v) ?cs ?vs"
    by (rule insert_values_typed [OF standard_schema_defaults [OF schema] admin_option_typed [OF schema dist reg]])
  have rid: "insert_rowid ?o t = Inr ?rid" using mo [of "''id''"] fresh by (simp add: insert_rowid_def)
  define t' where "t' = t\<lparr>bot_rows := insort_key fst (?rid, ?vs) (bot_rows t)\<rparr>"
  have ins: "insert_bot ?o t = (Inr 1, t')" unfolding t'_def by (rule insert_bot_ok [OF ne ok ty rid])
  have wf': "bot_wf t'" by (rule insert_bot_wf [OF wf ins])
  have sch': "standard_schema (bot_cols t')" using schema by (simp add: t'_def)
  have d: "distinct (map fst (bot_rows t))" using wf by (simp add: bot_wf_def)
  have bm: "bot_map t' ?rid = Some ?vs"
    using map_of_insort_key [OF d, of "(?rid, ?vs)"] new_rowid_fresh [of t]
    by (simp add: t'_def bot_map_def)
  have gb: "get_bot (i64_to_string ?rid) t' = Inr (bot_of_row ?rid ?vs)"
    using get_bot_standard [OF sch' wf'] parse_i64_to_string [OF fresh] bm read_bot_typed [OF schema ty]
    by simp
  have len: "length ?cs = 8" by (rule standard_schema_fields(4) [OF schema])
  note nth = standard_schema_nth [OF schema]
  have fields: "bot_name (bot_of_row ?rid ?vs) = n \<and> bot_description (bot_of_row ?rid ?vs) = d \<and>
      (\<forall>v. value_of m ''enable'' = Some v \<longrightarrow> bot_enable (bot_of_row ?rid ?vs) = (v = ''true'')) \<and>
      (\<forall>v. value_of m ''long_order'' = Some v \<longrightarrow> bot_long_order (bot_of_row ?rid ?vs) = (v = ''true'')) \<and>
      (\<forall>v. value_of m ''short_order'' = Some v \<longrightarrow> bot_short_order (bot_of_row ?rid ?vs) = (v = ''true''))"
    using nm ds len
    by (simp add: bot_of_row_def insert_values_nth nth bot_layout_def mo apply_affinity_to_flag)
  have add: "bot_admin_main (Some (''add'', m)) t = ((0, No_Output), t')"
    using o ins by (simp add: admin_main_config get_config_add actual_main_def admin_add_def)
  let ?m = "\<lparr>am_values = [(''id'', i64_to_string ?rid)], am_flags = []\<rparr> :: arg_matches"
  obtain og where og: "admin_get_option ?m [''id''] [] = Inr og"
    using admin_get_option_total [of "[''id'']" ?m "[]"] by (auto simp: value_of_def)
  have mog: "map_of og ''id'' = Some (i64_to_string ?rid)" "map_of og ''json'' = None" "map_of og ''yaml'' = None"
    using admin_get_option_Inr(1) [OF og] by (simp_all add: value_of_def is_present_def)
  have get: "bot_admin_main (Some (''get'', ?m)) t' = ((0, No_Output), t')"
    using og mog gb by (simp add: admin_main_config get_config_get actual_main_def admin_get_def)
  show ?thesis using add get gb fields by (intro exI [of _ t'] conjI) (auto simp: bot_of_row_def)
qed

text \<open>
  Claim C30. On every command line clap accepts, and a table of the expected schema whose
  values have their columns' types, \<open>bot-admin\<close> exits with status 0 or 1: the
  \<open>unwrap\<close>s of \<open>_get_option\<close>, \<open>_update\<close>, \<open>_remove\<close> and \<open>_get\<close> and the
  row closures of the reads never panic.
\<close>

theorem bot_admin_exit_0_or_1:
  assumes "clap_accepts get_args_matches sc"
    and "standard_schema (bot_cols t)" and "bot_wf t" and "rows_typed t"
  shows "fst (fst (bot_admin_main sc t)) \<in> {0, 1}"
proof -
  obtain cfg where c: "get_config sc = Inr cfg" and "cfg_command cfg \<noteq> NoCommand"
    and "cfg_command cfg \<in> {Update, Remove, Get} \<Longrightarrow> map_of (cfg_option cfg) ''id'' \<noteq> None"
    using get_config_clap [OF assms(1)] by metis
  then show ?thesis using actual_main_no_panic [OF assms(2-4)] by (simp add: admin_main_config [OF c])
qed

section \<open>Witnesses\<close>

theorem admin_add_operation_fails_witness:
  "bot_admin_main (Some (''add'', \<lparr>am_values = [(''name'', ''a''), (''description'', ''b''), (''operation'', ''product'')], am_flags = []\<rparr>)) \<lparr>bot_cols = map (\<lambda>(n, a). \<lparr>col_name = n, col_affinity = a, col_notnull = False,
                                   col_default = if a = Aff_Text then SqlText [] else SqlInt 0\<rparr>) bot_layout,
      bot_rows = [], bot_limit = True\<rparr> = ((1, No_Output), \<lparr>bot_cols = map (\<lambda>(n, a). \<lparr>col_name = n, col_affinity = a, col_notnull = False,
                                   col_default = if a = Aff_Text then SqlText [] else SqlInt 0\<rparr>) bot_layout,
      bot_rows = [], bot_limit = True\<rparr>)"
  by (rule admin_add_operation_fails) (simp_all add: bot_layout_def value_of_def)

theorem admin_update_no_fields_witness:
  "bot_admin_main (Some (''update'', \<lparr>am_values = [(''id'', ''1'')], am_flags = []\<rparr>)) \<lparr>bot_cols = map (\<lambda>(n, a). \<lparr>col_name = n, col_affinity = a, col_notnull = False,
                                   col_default = if a = Aff_Text then SqlText [] else SqlInt 0\<rparr>) bot_layout,
      bot_rows = [], bot_limit = True\<rparr> = ((1, No_Output), \<lparr>bot_cols = map (\<lambda>(n, a). \<lparr>col_name = n, col_affinity = a, col_notnull = False,
                                   col_default = if a = Aff_Text then SqlText [] else SqlInt 0\<rparr>) bot_layout,
      bot_rows = [], bot_limit = True\<rparr>)"
  by (rule admin_update_no_fields) (simp_all add: value_of_def is_present_def)

theorem admin_add_then_get_witness:
  "\<exists>t'. bot_admin_main (Some (''add'', \<lparr>am_values = [(''name'', ''a''), (''description'', ''b''), (''enable'', ''true'')], am_flags = []\<rparr>)) \<lparr>bot_cols = map (\<lambda>(n, a). \<lparr>col_name = n, col_affinity = a, col_notnull = False,
                                   col_default = if a = Aff_Text then SqlText [] else SqlInt 0\<rparr>) bot_layout,
      bot_rows = [], bot_limit = True\<rparr> = ((0, No_Output), t') \<and>
     bot_admin_main (Some (''get'', \<lparr>am_values = [(''id'', i64_to_string 1)], am_flags = []\<rparr>)) t' =
       ((0, No_Output), t') \<and>
     (\<exists>b. get_bot (i64_to_string 1) t' = Inr b \<and> bot_id b = 1 \<and> bot_name b = ''a'' \<and>
          bot_description b = ''b'' \<and> bot_enable b)"
proof -
  have n: "new_rowid \<lparr>bot_cols = map (\<lambda>(n, a). \<lparr>col_name = n, col_affinity = a, col_notnull = False,
                                   col_default = if a = Aff_Text then SqlText [] else SqlInt 0\<rparr>) bot_layout,
      bot_rows = [], bot_limit = True\<rparr> = 1" by (simp add: new_rowid_def)
  show ?thesis
    using admin_add_then_get [of "\<lparr>bot_cols = map (\<lambda>(n, a). \<lparr>col_name = n, col_affinity = a, col_notnull = False,
                                   col_default = if a = Aff_Text then SqlText [] else SqlInt 0\<rparr>) bot_layout,
      bot_rows = [], bot_limit = True\<rparr>" "\<lparr>am_values = [(''name'', ''a''), (''description'', ''b''), (''enable'', ''true'')], am_flags = []\<rparr>" "''a''" "''b''"] unfolding n
    by (simp add: standard_schema_def bot_layout_def bot_wf_def in_i64_iff value_of_def is_present_def)
qed

theorem bot_admin_exit_0_or_1_witness:
  "fst (fst (bot_admin_main (Some (''get'', \<lparr>am_values = [(''id'', ''1'')], am_flags = [''json'']\<rparr>))
     \<lparr>bot_cols = map (\<lambda>(n, a). \<lparr>col_name = n, col_affinity = a, col_notnull = False,
                                 col_default = if a = Aff_Text then SqlText [] else SqlInt 0\<rparr>) bot_layout,
      bot_rows = [(1, [SqlText ''first'', SqlText [], SqlInt 1, SqlInt 0, SqlText ''tk'', SqlInt 0, SqlInt 0, SqlText []])],
      bot_limit = True\<rparr>)) \<in> {0, 1}"
  by (rule bot_admin_exit_0_or_1) code_simp+

end
