(* ===== verification/AtbConfig.thy ===== *)
theory AtbConfig
  imports Json
begin

text \<open>
  The configuration loader \<open>read-atb-config\<close> (\<open>src/app/lib/read-atb-config/src/lib.rs\<close>)
  and \<open>AtbDB::connect\<close> (\<open>src/app/lib/atb-db/src/lib.rs\<close>, lines 50-80), which every program
  calls first. The environment variable, the file system and the YAML parser are inputs:
  the value of \<open>PATH_ATB_CONFIG\<close>, the outcome of opening and reading a path, and the
  documents \<open>YamlLoader::load_from_str\<close> returns (or its failure). A YAML value is a
  \<open>json\<close> value of the same shape (hashes with string keys, strings, integers); indexing a
  missing key gives \<open>BadValue\<close>, which \<open>json_key\<close> renders as \<open>JNull\<close>, on which
  \<open>as_str\<close> and \<open>as_i64\<close> are \<open>None\<close> as in \<open>yaml_rust\<close>.
\<close>

section \<open>Loading the configuration\<close>

record atb_conf =
  conf_yaml :: json

text \<open>What \<open>File::open\<close> and \<open>read_to_string\<close> do with a path.\<close>

datatype file_read = Open_Failed | Read_Failed | Read_Ok string

type_synonym file_system = "string \<Rightarrow> file_read"

type_synonym yaml_loader = "string \<Rightarrow> json list option"

text \<open>
  \<open>load_conf\<close> (lines 14-43): each failure is \<open>None\<close>, except that the first document is
  taken with \<open>[0]\<close>, which panics on a file with no YAML document.
\<close>

definition load_conf :: "string option \<Rightarrow> file_system \<Rightarrow> yaml_loader \<Rightarrow> panic + atb_conf option" where
  "load_conf env fs yaml =
     (case env of
        None \<Rightarrow> Inr None
      | Some path \<Rightarrow>
          (case fs path of
             Open_Failed \<Rightarrow> Inr None
           | Read_Failed \<Rightarrow> Inr None
           | Read_Ok contents \<Rightarrow>
               (case yaml contents of
                  None \<Rightarrow> Inr None
                | Some docs \<Rightarrow>
                    if docs = [] then Inl Index_Out_Of_Bounds
                    else Inr (Some \<lparr>conf_yaml = hd docs\<rparr>))))"

text \<open>\<open>self.yaml[k1][k2]\<dots>\<close>: the value at a path of keys.\<close>

definition yaml_path :: "atb_conf \<Rightarrow> string list \<Rightarrow> json" where
  "yaml_path c ks = fold (\<lambda>k v. json_key v k) ks (conf_yaml c)"

definition get_sqlite3_file :: "atb_conf \<Rightarrow> string option" where
  "get_sqlite3_file c = as_str (yaml_path c [''database'', ''sqlite3'', ''db_file''])"

definition has_api_host :: "atb_conf \<Rightarrow> bool" where
  "has_api_host c \<longleftrightarrow> as_str (yaml_path c [''api'', ''host'']) \<noteq> None"

definition has_api_port :: "atb_conf \<Rightarrow> bool" where
  "has_api_port c \<longleftrightarrow> as_i64 (yaml_path c [''api'', ''port'']) \<noteq> None"

definition get_api_host :: "atb_conf \<Rightarrow> string option" where
  "get_api_host c = as_str (yaml_path c [''api'', ''host''])"

definition get_api_port :: "atb_conf \<Rightarrow> i64 option" where
  "get_api_port c = as_i64 (yaml_path c [''api'', ''port''])"

section \<open>Connecting to the database\<close>

text \<open>
  The three error messages of \<open>connect\<close>; the pool's own error text is not modelled.
  Whether \<open>r2d2::Pool::new\<close> succeeds for a path is an input.
\<close>

datatype connect_error = Env_Unset | Db_File_Missing | Pool_Error

text \<open>
  \<open>AtbDB::connect\<close> (lines 50-80): with no configuration given it loads one (and
  inherits the panic of \<open>load_conf\<close>); the result is the database file the pool opens.
\<close>

definition atb_connect ::
  "atb_conf option \<Rightarrow> (panic + atb_conf option) \<Rightarrow> (string \<Rightarrow> bool) \<Rightarrow> panic + (connect_error + string)" where
  "atb_connect given loaded pool_ok =
     bind_res (case given of None \<Rightarrow> loaded | Some c \<Rightarrow> Inr (Some c)) (\<lambda>conf.
       case conf of
         None \<Rightarrow> Inr (Inl Env_Unset)
       | Some c \<Rightarrow>
           (case get_sqlite3_file c of
              None \<Rightarrow> Inr (Inl Db_File_Missing)
            | Some path \<Rightarrow> Inr (if pool_ok path then Inr path else Inl Pool_Error)))"

section \<open>Lemmas\<close>

lemma load_conf_Inl:
  "(\<exists>p. load_conf env fs yaml = Inl p) \<longleftrightarrow>
   (\<exists>path c. env = Some path \<and> fs path = Read_Ok c \<and> yaml c = Some [])"
  by (auto simp: load_conf_def split: option.splits file_read.splits)

section \<open>Properties\<close>

text \<open>
  Claim C26. \<open>AtbDB::connect(None)\<close> panics exactly when \<open>PATH_ATB_CONFIG\<close> names a
  readable file that parses to no YAML document (\<open>docs[0]\<close> in \<open>load_conf\<close>); every
  other failure to load is an error value. It connects exactly when a configuration was
  loaded whose \<open>database.sqlite3.db_file\<close> is a string the pool opens.
\<close>

theorem connect_outcomes:
  "((\<exists>p. atb_connect None (load_conf env fs yaml) pool_ok = Inl p) \<longleftrightarrow>
      (\<exists>path c. env = Some path \<and> fs path = Read_Ok c \<and> yaml c = Some [])) \<and>
   (atb_connect None (load_conf env fs yaml) pool_ok = Inr (Inr path) \<longleftrightarrow>
      (\<exists>c. load_conf env fs yaml = Inr (Some c) \<and> get_sqlite3_file c = Some path \<and> pool_ok path))"
proof
  show "(\<exists>p. atb_connect None (load_conf env fs yaml) pool_ok = Inl p) \<longleftrightarrow>
      (\<exists>path c. env = Some path \<and> fs path = Read_Ok c \<and> yaml c = Some [])"
    unfolding load_conf_Inl [symmetric]
    by (cases "load_conf env fs yaml") (auto simp: atb_connect_def split: option.split)
  show "atb_connect None (load_conf env fs yaml) pool_ok = Inr (Inr path) \<longleftrightarrow>
      (\<exists>c. load_conf env fs yaml = Inr (Some c) \<and> get_sqlite3_file c = Some path \<and> pool_ok path)"
    by (cases "load_conf env fs yaml") (auto simp: atb_connect_def split: option.splits)
qed

end
