(* ===== verification/MarketApi.thy ===== *)
theory MarketApi
  imports AtbConfig BotStore OhlcvStore "HOL-Library.AList"
begin

text \<open>
  The HTTP facade \<open>market-api-rs\<close> (\<open>src/app/src/market-api-rs/src/main.rs\<close>): start-up
  (\<open>main\<close>, \<open>get_server_config\<close>, \<open>actual_main\<close>), the routing table of \<open>run\<close> and
  the handlers \<open>index\<close>, \<open>get_ohlcv\<close>, \<open>post_bot\<close> (with \<open>_get_option\<close>) and
  \<open>get_bot\<close> (with \<open>_get_token\<close>). The server's state is the one database, its candle
  table and its bot table. A request is its method, its path split into segments, its
  \<open>token\<close> header and its body. The body is given decoded: \<open>None\<close> when it is not UTF-8
  JSON, where \<open>post_bot\<close> panics in \<open>unwrap\<close> and the connection is dropped. A panic
  inside \<open>web::block\<close> cancels the blocking task, which the handler maps to 500. actix's
  HTTP machinery, logging and serialisation are not modelled; a response records the value
  the handler serialises.
\<close>

section \<open>Start-up\<close>

record server_config =
  sc_host :: string
  sc_port :: string

text \<open>\<open>get_server_config\<close> (lines 53-62): the host and the port rendered with \<open>to_string\<close>.\<close>

definition get_server_config :: "atb_conf \<Rightarrow> server_config option" where
  "get_server_config c =
     (if \<not> has_api_host c \<or> \<not> has_api_port c then None
      else (case (get_api_host c, get_api_port c) of
              (Some h, Some p) \<Rightarrow> Some \<lparr>sc_host = h, sc_port = i64_to_string p\<rparr>
            | _ \<Rightarrow> None))"

text \<open>How a start-up ends: an exit status, or a server bound to \<open>host:port\<close> on a database.\<close>

datatype startup = Exit_Status int | Serving string string

text \<open>
  \<open>main\<close> and \<open>actual_main\<close> (lines 19-72): load the configuration, connect with it,
  read the server configuration, then \<open>run\<close>; \<open>run\<close>'s bind either fails (status 1) or
  serves. The outcome of binding an address is an input.
\<close>

definition market_api_main ::
  "(panic + atb_conf option) \<Rightarrow> (string \<Rightarrow> bool) \<Rightarrow> (string \<Rightarrow> bool) \<Rightarrow> startup" where
  "market_api_main loaded pool_ok bind_ok =
     (case loaded of
        Inl _ \<Rightarrow> Exit_Status 101
      | Inr None \<Rightarrow> Exit_Status 1
      | Inr (Some c) \<Rightarrow>
          (case atb_connect (Some c) loaded pool_ok of
             Inl _ \<Rightarrow> Exit_Status 101
           | Inr (Inl _) \<Rightarrow> Exit_Status 1
           | Inr (Inr path) \<Rightarrow>
               (case get_server_config c of
                  None \<Rightarrow> Exit_Status 1
                | Some sc \<Rightarrow>
                    let addr = sc_host sc @ '':'' @ sc_port sc in
                    if bind_ok addr then Serving path addr else Exit_Status 1)))"

section \<open>Requests and responses\<close>

datatype http_method = GET | POST | Other_Method

record http_request =
  req_method :: http_method
  req_path :: "string list"
  req_token :: "string option"
  req_body :: "json option"

text \<open>The database both tables live in.\<close>

record server_db =
  srv_candles :: atb_db
  srv_bots :: bot_table

datatype http_response =
    Ok_Index
  | Ok_Ohlcv "ohlcv_tuple list"
  | Ok_Bot bot
  | Ok_Bot_For_Get bot_for_get
  | Internal_Server_Error
  | Not_Found
  | Method_Not_Allowed
  | Connection_Dropped

section \<open>Handlers\<close>

text \<open>
  \<open>get_ohlcv\<close> (lines 117-128): the path's third segment must parse as \<open>i64\<close> (else
  actix answers 404); the query uses its \<open>to_string\<close>.
\<close>

definition api_get_ohlcv :: "atb_db \<Rightarrow> string \<Rightarrow> string \<Rightarrow> string \<Rightarrow> http_response" where
  "api_get_ohlcv db mk pr seg =
     (case parse_i64 seg of
        None \<Rightarrow> Not_Found
      | Some p \<Rightarrow>
          (case get_ohlcv_list db mk pr (i64_to_string p) of
             Inl _ \<Rightarrow> Internal_Server_Error
           | Inr rows \<Rightarrow> Ok_Ohlcv rows))"

text \<open>A present, non-empty string member.\<close>

definition required_string :: "json \<Rightarrow> string \<Rightarrow> string option" where
  "required_string j k =
     (case json_get j k of
        None \<Rightarrow> None
      | Some v \<Rightarrow> (case as_str v of None \<Rightarrow> None | Some s \<Rightarrow> if s = [] then None else Some s))"

definition bool_flag :: "bool \<Rightarrow> string" where
  "bool_flag b = (if b then ''1'' else ''0'')"

text \<open>An optional boolean member: stored as \<open>"1"\<close>/\<open>"0"\<close>, ignored when absent or not a boolean.\<close>

definition optional_bool :: "json \<Rightarrow> string \<Rightarrow> bot_option \<Rightarrow> bot_option" where
  "optional_bool j k opt =
     (case json_get j k of
        None \<Rightarrow> opt
      | Some v \<Rightarrow> (case as_bool v of None \<Rightarrow> opt | Some b \<Rightarrow> AList.update k (bool_flag b) opt))"

text \<open>\<open>_get_option\<close> (lines 130-196).\<close>

definition api_get_option :: "json \<Rightarrow> bot_option option" where
  "api_get_option j =
     (case required_string j ''name'' of
        None \<Rightarrow> None
      | Some n \<Rightarrow>
     (case required_string j ''description'' of
        None \<Rightarrow> None
      | Some d \<Rightarrow>
     (case json_get j ''enable'' of
        None \<Rightarrow> None
      | Some ev \<Rightarrow>
     (case as_bool ev of
        None \<Rightarrow> None
      | Some e \<Rightarrow>
          Some (optional_bool j ''short_order'' (optional_bool j ''long_order''
                 (AList.update ''enable'' (bool_flag e)
                   (AList.update ''description'' d (AList.update ''name'' n [])))))))))"

text \<open>
  \<open>post_bot\<close> (lines 198-229): validate, insert, then read back the bot whose id is the
  value \<open>insert_bot\<close> returned, the number of changed rows.
\<close>

definition post_bot :: "json option \<Rightarrow> bot_table \<Rightarrow> http_response \<times> bot_table" where
  "post_bot body t =
     (case body of
        None \<Rightarrow> (Connection_Dropped, t)
      | Some j \<Rightarrow>
          (case api_get_option j of
             None \<Rightarrow> (Internal_Server_Error, t)
           | Some opt \<Rightarrow>
               (case insert_bot opt t of
                  (Inl _, t') \<Rightarrow> (Internal_Server_Error, t')
                | (Inr last_id, t') \<Rightarrow>
                    (case get_bot (nat_digits last_id) t' of
                       Inr b \<Rightarrow> (Ok_Bot b, t')
                     | Inl _ \<Rightarrow> (Internal_Server_Error, t')))))"

text \<open>\<open>HeaderValue::to_str\<close> accepts tab and the visible ASCII characters.\<close>

definition visible_ascii :: "string \<Rightarrow> bool" where
  "visible_ascii s \<longleftrightarrow>
     list_all (\<lambda>c. of_char c = (9 :: nat) \<or> (32 \<le> (of_char c :: nat) \<and> (of_char c :: nat) < 127)) s"

text \<open>\<open>_get_token\<close> (lines 231-239): the \<open>token\<close> header, or the empty string.\<close>

definition get_token :: "string option \<Rightarrow> panic + string" where
  "get_token h =
     (case h of
        None \<Rightarrow> Inr []
      | Some s \<Rightarrow> if visible_ascii s then Inr s else Inl Unwrap_Err)"

text \<open>\<open>get_bot\<close> (lines 241-254): the id from the path, the token from the header.\<close>

definition api_get_bot :: "string \<Rightarrow> string option \<Rightarrow> bot_table \<Rightarrow> http_response" where
  "api_get_bot seg hdr t =
     (case parse_i64 seg of
        None \<Rightarrow> Not_Found
      | Some bid \<Rightarrow>
          (case get_token hdr of
             Inl _ \<Rightarrow> Connection_Dropped
           | Inr tok \<Rightarrow>
               (case get_bot_for_api (i64_to_string bid) tok t of
                  Inr b \<Rightarrow> Ok_Bot_For_Get b
                | Inl _ \<Rightarrow> Internal_Server_Error)))"

text \<open>
  The routing table of \<open>run\<close> (lines 82-94): a known path with another method is 405, an
  unknown path 404.
\<close>

definition api_handle :: "http_request \<Rightarrow> server_db \<Rightarrow> http_response \<times> server_db" where
  "api_handle r s =
     (case req_path r of
        [] \<Rightarrow> (if req_method r = GET then Ok_Index else Method_Not_Allowed, s)
      | [p, mk, pr, seg] \<Rightarrow>
          if p = ''ohlcv'' then
            (if req_method r = GET then api_get_ohlcv (srv_candles s) mk pr seg
             else Method_Not_Allowed, s)
          else (Not_Found, s)
      | [p] \<Rightarrow>
          if p = ''bot'' then
            (if req_method r = POST then
               (case post_bot (req_body r) (srv_bots s) of (resp, t') \<Rightarrow> (resp, s\<lparr>srv_bots := t'\<rparr>))
             else (Method_Not_Allowed, s))
          else (Not_Found, s)
      | [p, bid] \<Rightarrow>
          if p = ''bot'' then
            (if req_method r = GET then api_get_bot bid (req_token r) (srv_bots s) else Method_Not_Allowed, s)
          else (Not_Found, s)
      | _ \<Rightarrow> (Not_Found, s))"

section \<open>Lemmas\<close>

lemma map_of_optional_bool:
  "map_of (optional_bool j k opt) x =
     (if x = k then (case Option.bind (json_get j k) as_bool of Some b \<Rightarrow> Some (bool_flag b) | None \<Rightarrow> map_of opt x)
      else map_of opt x)"
  by (auto simp: optional_bool_def update_conv' split: option.split)

lemma distinct_optional_bool: "distinct (map fst opt) \<Longrightarrow> distinct (map fst (optional_bool j k opt))"
  by (auto simp: optional_bool_def distinct_update split: option.split)

lemma api_get_option_Some:
  assumes "api_get_option j = Some opt"
  shows "map_of opt k =
           (if k = ''name'' \<or> k = ''description'' then required_string j k
            else if k = ''enable'' \<or> k = ''long_order'' \<or> k = ''short_order'' then
              map_option bool_flag (Option.bind (json_get j k) as_bool)
            else None)"
    and "distinct (map fst opt)"
    and "required_string j ''name'' \<noteq> None"
proof -
  obtain n d ev e where n: "required_string j ''name'' = Some n" and d: "required_string j ''description'' = Some d"
    and ev: "json_get j ''enable'' = Some ev" and e: "as_bool ev = Some e"
    and o: "opt = optional_bool j ''short_order'' (optional_bool j ''long_order''
                 (AList.update ''enable'' (bool_flag e)
                   (AList.update ''description'' d (AList.update ''name'' n []))))"
    using assms by (auto simp: api_get_option_def split: option.splits)
  show "map_of opt k =
           (if k = ''name'' \<or> k = ''description'' then required_string j k
            else if k = ''enable'' \<or> k = ''long_order'' \<or> k = ''short_order'' then
              map_option bool_flag (Option.bind (json_get j k) as_bool)
            else None)"
    using n d ev e by (auto simp: o map_of_optional_bool update_conv' split: option.split)
  show "distinct (map fst opt)"
    by (simp add: o distinct_optional_bool distinct_update)
  show "required_string j ''name'' \<noteq> None" using n by simp
qed

lemma flag_fits: "v = ''0'' \<or> v = ''1'' \<Longrightarrow> value_fits Aff_Integer (apply_affinity Aff_Integer v)"
  by (auto simp: apply_affinity_def parse_i64_def parse_int_def digit_value_def in_i64_iff)

lemma api_option_facts:
  assumes "api_get_option j = Some opt" and "standard_schema cs"
  shows "option_typed cs opt" and "list_all (column_ok cs \<circ> fst) opt" and "opt \<noteq> []"
    and "map_of opt ''id'' = None"
proof -
  note m = api_get_option_Some(1) [OF assms(1)]
  show "option_typed cs opt"
  proof (rule option_typed_distinct [OF api_get_option_Some(2) [OF assms(1)]])
    fix k v c
    assume v: "map_of opt k = Some v" and c: "c \<in> set cs" and k: "col_name c = k"
    have l: "(k, col_affinity c) \<in> set bot_layout" using standard_schema_column [OF assms(2) c] k by simp
    show "value_fits (col_affinity c) (apply_affinity (col_affinity c) v)"
    proof (cases "col_affinity c")
      case Aff_Integer
      with l have "k = ''enable'' \<or> k = ''registered'' \<or> k = ''long_order'' \<or> k = ''short_order''"
        by (simp add: bot_layout_integer)
      with v m [of k] have "v = ''0'' \<or> v = ''1''" by (auto simp: bool_flag_def split: if_splits)
      then show ?thesis using Aff_Integer flag_fits by simp
    qed (simp add: apply_affinity_def)
  qed
  have "k \<in> set (map fst bot_layout)" if "map_of opt k \<noteq> None" for k
    using that m [of k] by (auto simp: bot_layout_def split: if_splits)
  then show "list_all (column_ok cs \<circ> fst) opt"
    unfolding list_all_keys using standard_column_ok [OF assms(2)] by blast
  show "opt \<noteq> []" using m [of "''name''"] api_get_option_Some(3) [OF assms(1)] by auto
  show "map_of opt ''id'' = None" using m [of "''id''"] by simp
qed

lemma insert_bot_api:
  assumes "standard_schema (bot_cols t)" and "in_i64 (new_rowid t)" and "api_get_option j = Some opt"
  shows "insert_bot opt t =
           (Inr 1, t\<lparr>bot_rows := insort_key fst (new_rowid t, insert_values opt (bot_cols t)) (bot_rows t)\<rparr>)"
proof (rule insert_bot_ok)
  note f = api_option_facts [OF assms(3,1)]
  show "opt \<noteq> []" by (rule f(3))
  show "list_all (column_ok (bot_cols t) \<circ> fst) opt" by (rule f(2))
  show "list_all2 (\<lambda>c v. value_fits (col_affinity c) v) (bot_cols t) (insert_values opt (bot_cols t))"
    by (rule insert_values_typed [OF standard_schema_defaults [OF assms(1)] f(1)])
  show "insert_rowid opt t = Inr (new_rowid t)" using f(4) assms(2) by (simp add: insert_rowid_def)
qed

lemma post_bot_state:
  "snd (post_bot b t) =
     (case Option.bind b api_get_option of None \<Rightarrow> t | Some opt \<Rightarrow> snd (insert_bot opt t))"
  by (auto simp: post_bot_def split: option.split prod.split sum.split)

lemma post_bot_cols [simp]: "bot_cols (snd (post_bot b t)) = bot_cols t"
  using bot_cols_exec [of "Insert_Bot opt" for opt] by (simp add: post_bot_state split: option.split)

lemma post_bot_rows_typed:
  assumes "standard_schema (bot_cols t)" and "rows_typed t"
  shows "rows_typed (snd (post_bot b t))"
proof (cases "Option.bind b api_get_option")
  case (Some opt)
  then obtain j where "api_get_option j = Some opt" by (cases b) auto
  then have "option_typed (bot_cols t) opt" by (rule api_option_facts(1) [OF _ assms(1)])
  then show ?thesis
    using Some rows_typed_insert_bot [OF standard_schema_defaults [OF assms(1)] _ assms(2)]
    by (simp add: post_bot_state)
qed (simp add: post_bot_state assms(2))

lemma api_handle_bots:
  "srv_bots (snd (api_handle r s)) = srv_bots s \<or>
   srv_bots (snd (api_handle r s)) = snd (post_bot (req_body r) (srv_bots s))"
  by (auto simp: api_handle_def split: list.split prod.split)

lemma api_get_bot_standard:
  assumes "standard_schema (bot_cols t)" and "bot_wf t" and "rows_typed t"
  shows "api_get_bot seg hdr t =
           (case parse_i64 seg of
              None \<Rightarrow> Not_Found
            | Some n \<Rightarrow>
                (case get_token hdr of
                   Inl _ \<Rightarrow> Connection_Dropped
                 | Inr tok \<Rightarrow>
                     (case bot_map t n of
                        None \<Rightarrow> Internal_Server_Error
                      | Some vs \<Rightarrow>
                          if vs ! 4 = SqlText tok then Ok_Bot_For_Get (bot_for_get_of_row vs)
                          else Internal_Server_Error)))"
  using get_bot_for_api_standard [OF assms] parse_i64_range
  by (auto simp: api_get_bot_def split: option.split sum.split)

section \<open>Properties\<close>

text \<open>
  Claim C22. On a table with the expected schema, a valid \<open>POST /bot\<close> body always
  inserts the new bot at the next rowid, and the handler then answers with the bot whose id
  is \<open>1\<close>, the count of changed rows \<open>insert_bot\<close> returns, not with the bot it created.
\<close>

theorem post_bot_returns_bot_one:
  assumes "standard_schema (bot_cols t)" and "in_i64 (new_rowid t)" and "api_get_option j = Some opt"
  shows "post_bot (Some j) t =
           (let t' = t\<lparr>bot_rows := insort_key fst (new_rowid t, insert_values opt (bot_cols t)) (bot_rows t)\<rparr>
            in (case get_bot ''1'' t' of Inr b \<Rightarrow> Ok_Bot b | Inl _ \<Rightarrow> Internal_Server_Error, t'))"
  using insert_bot_api [OF assms] assms(3) by (simp add: post_bot_def char_of_49 Let_def split: sum.split)

text \<open>
  Claim C23. \<open>GET /bot/<id>\<close> answers with a bot only from a row whose id is the parsed
  path segment and which stores the request's token (the \<open>token\<close> header, or the empty
  string without one), and the bot is what the row closure reads from that row, whatever
  the schema.
\<close>

theorem api_get_bot_token:
  assumes "api_get_bot seg hdr t = Ok_Bot_For_Get b"
  shows "\<exists>r \<in> set (bot_rows t). parse_i64 seg = Some (fst r) \<and>
           token_matches (bot_cols t) (case hdr of None \<Rightarrow> [] | Some s \<Rightarrow> s) r \<and>
           read_bot_for_get (map (column_value (bot_cols t) r) api_fields) = Inr b"
proof -
  obtain n tok r where n: "parse_i64 seg = Some n" and tk: "get_token hdr = Inr tok"
    and f: "find (\<lambda>r. row_has_id (i64_to_string n) r \<and> token_matches (bot_cols t) tok r) (bot_rows t) = Some r"
    and rd: "read_bot_for_get (map (column_value (bot_cols t) r) api_fields) = Inr b"
    using assms by (auto simp: api_get_bot_def get_bot_for_api_def split: option.splits sum.splits if_splits)
  have "tok = (case hdr of None \<Rightarrow> [] | Some s \<Rightarrow> s)"
    using tk by (auto simp: get_token_def split: option.splits if_splits)
  moreover have r: "r \<in> set (bot_rows t)" "row_has_id (i64_to_string n) r" "token_matches (bot_cols t) tok r"
    using f by (auto simp: find_Some_iff nth_mem)
  moreover have "fst r = n" using r(2) parse_i64_range [OF n] by (simp add: row_has_id_iff)
  ultimately show ?thesis using n rd by auto
qed

text \<open>
  Claim C24. A bot created through \<open>POST /bot\<close> has the schema's default token, since
  neither the handler nor \<open>insert_bot\<close> writes one: \<open>GET /bot/<id>\<close> returns it exactly to
  a request whose token is that default, so with the default \<open>''\<close> any client without a
  token header reads it.
\<close>

theorem post_bot_token_is_default:
  assumes "standard_schema (bot_cols t)" and "bot_wf t" and "rows_typed t" and "in_i64 (new_rowid t)"
    and "api_get_option j = Some opt" and "get_token hdr = Inr tok"
  shows "api_get_bot (i64_to_string (new_rowid t)) hdr (snd (post_bot (Some j) t)) =
           (if col_default (bot_cols t ! 4) = SqlText tok
            then Ok_Bot_For_Get (bot_for_get_of_row (insert_values opt (bot_cols t)))
            else Internal_Server_Error)"
proof -
  let ?cs = "bot_cols t" and ?vs = "insert_values opt (bot_cols t)"
  define t' where "t' = t\<lparr>bot_rows := insort_key fst (new_rowid t, ?vs) (bot_rows t)\<rparr>"
  have ins: "insert_bot opt t = (Inr 1, t')" unfolding t'_def by (rule insert_bot_api [OF assms(1,4,5)])
  have post: "snd (post_bot (Some j) t) = t'" using ins assms(5) by (simp add: post_bot_state)
  have sch': "standard_schema (bot_cols t')" using assms(1) by (simp add: t'_def)
  have wf': "bot_wf t'" by (rule insert_bot_wf [OF assms(2) ins])
  have ty': "rows_typed t'"
    using rows_typed_insert_bot [OF standard_schema_defaults [OF assms(1)] api_option_facts(1) [OF assms(5,1)] assms(3)]
    by (simp add: ins)
  have d: "distinct (map fst (bot_rows t))" using assms(2) by (simp add: bot_wf_def)
  have bm: "bot_map t' (new_rowid t) = Some ?vs"
    using map_of_insort_key [OF d, of "(new_rowid t, ?vs)"] new_rowid_fresh [of t]
    by (simp add: t'_def bot_map_def)
  have l: "length ?cs = 8" by (rule standard_schema_fields(4) [OF assms(1)])
  have n4: "col_name (?cs ! 4) = ''token''"
    using standard_schema_nth(1) [OF assms(1), of 4] by (simp add: bot_layout_def)
  have v4: "?vs ! 4 = col_default (?cs ! 4)"
    using insert_values_nth [of 4 ?cs opt] l n4 api_get_option_Some(1) [OF assms(5), of "''token''"]
    by simp
  show ?thesis
    using api_get_bot_standard [OF sch' wf' ty', of "i64_to_string (new_rowid t)" hdr] assms(4,6) bm v4
    by (simp add: post t'_def [symmetric])
qed

text \<open>
  Claim C25. The API server starts serving exactly when a configuration was loaded, names a
  database file the pool opens, has a string host and an integer port, and the address
  \<open>host:port\<close>, with the port in decimal, can be bound.
\<close>

theorem market_api_main_serving:
  "market_api_main loaded pool_ok bind_ok = Serving path addr \<longleftrightarrow>
     (\<exists>c h p. loaded = Inr (Some c) \<and> get_sqlite3_file c = Some path \<and> pool_ok path \<and>
        get_api_host c = Some h \<and> get_api_port c = Some p \<and> addr = h @ '':'' @ i64_to_string p \<and>
        bind_ok addr)"
  by (auto simp: market_api_main_def atb_connect_def get_server_config_def has_api_host_def
      has_api_port_def get_api_host_def get_api_port_def Let_def
      split: sum.splits option.splits if_splits)

section \<open>Witnesses\<close>

theorem post_bot_returns_bot_one_witness:
  "post_bot (Some (JObject [(''name'', JString ''second''), (''description'', JString ''d''), (''enable'', JBool True)]))
     \<lparr>bot_cols = map (\<lambda>(n, a). \<lparr>col_name = n, col_affinity = a, col_notnull = False,
                                 col_default = if a = Aff_Text then SqlText [] else SqlInt 0\<rparr>) bot_layout,
      bot_rows = [(1, [SqlText ''first'', SqlText [], SqlInt 1, SqlInt 0, SqlText ''tk'', SqlInt 0, SqlInt 0, SqlText []])],
      bot_limit = True\<rparr> =
   (Ok_Bot \<lparr>bot_id = 1, bot_name = ''first'', bot_description = [], bot_enable = True, bot_registered = 0,
            bot_token = ''tk'', bot_long_order = False, bot_short_order = False, bot_operate_type = []\<rparr>,
    \<lparr>bot_cols = map (\<lambda>(n, a). \<lparr>col_name = n, col_affinity = a, col_notnull = False,
                                 col_default = if a = Aff_Text then SqlText [] else SqlInt 0\<rparr>) bot_layout,
      bot_rows = [(1, [SqlText ''first'', SqlText [], SqlInt 1, SqlInt 0, SqlText ''tk'', SqlInt 0, SqlInt 0, SqlText []]),
                  (2, [SqlText ''second'', SqlText ''d'', SqlInt 1, SqlInt 0, SqlText [], SqlInt 0, SqlInt 0, SqlText []])],
      bot_limit = True\<rparr>)"
  by (subst post_bot_returns_bot_one [where opt = "[(''name'', ''second''), (''description'', ''d''), (''enable'', ''1'')]"])
     (code_simp)+

theorem api_get_bot_token_witness:
  "\<exists>r \<in> set [(1::int, [SqlText ''first'', SqlText [], SqlInt 1, SqlInt 0, SqlText ''tk'', SqlInt 0, SqlInt 0, SqlText []])].
     parse_i64 ''1'' = Some (fst r) \<and>
     token_matches (map (\<lambda>(n, a). \<lparr>col_name = n, col_affinity = a, col_notnull = False,
                                 col_default = if a = Aff_Text then SqlText [] else SqlInt 0\<rparr>) bot_layout) ''tk'' r \<and>
     read_bot_for_get (map (column_value (map (\<lambda>(n, a). \<lparr>col_name = n, col_affinity = a, col_notnull = False,
                                 col_default = if a = Aff_Text then SqlText [] else SqlInt 0\<rparr>) bot_layout) r) api_fields) =
       Inr \<lparr>bfg_name = ''first'', bfg_description = [], bfg_enable = True, bfg_registered = 0,
            bfg_long_order = False, bfg_short_order = False, bfg_operate_type = []\<rparr>"
proof -
  have "api_get_bot ''1'' (Some ''tk'')
     \<lparr>bot_cols = map (\<lambda>(n, a). \<lparr>col_name = n, col_affinity = a, col_notnull = False,
                                 col_default = if a = Aff_Text then SqlText [] else SqlInt 0\<rparr>) bot_layout,
      bot_rows = [(1, [SqlText ''first'', SqlText [], SqlInt 1, SqlInt 0, SqlText ''tk'', SqlInt 0, SqlInt 0, SqlText []])],
      bot_limit = True\<rparr> =
   Ok_Bot_For_Get \<lparr>bfg_name = ''first'', bfg_description = [], bfg_enable = True, bfg_registered = 0,
                   bfg_long_order = False, bfg_short_order = False, bfg_operate_type = []\<rparr>"
    by code_simp
  from api_get_bot_token [OF this] show ?thesis by simp
qed

theorem post_bot_token_is_default_witness:
  "api_get_bot (i64_to_string 2) None
     (snd (post_bot (Some (JObject [(''name'', JString ''second''), (''description'', JString ''d''), (''enable'', JBool True)]))
       \<lparr>bot_cols = map (\<lambda>(n, a). \<lparr>col_name = n, col_affinity = a, col_notnull = False,
                                 col_default = if a = Aff_Text then SqlText [] else SqlInt 0\<rparr>) bot_layout,
        bot_rows = [(1, [SqlText ''first'', SqlText [], SqlInt 1, SqlInt 0, SqlText ''tk'', SqlInt 0, SqlInt 0, SqlText []])],
        bot_limit = True\<rparr>)) =
   Ok_Bot_For_Get \<lparr>bfg_name = ''second'', bfg_description = ''d'', bfg_enable = True, bfg_registered = 0,
                   bfg_long_order = False, bfg_short_order = False, bfg_operate_type = []\<rparr>"
proof -
  have n: "new_rowid \<lparr>bot_cols = map (\<lambda>(n, a). \<lparr>col_name = n, col_affinity = a, col_notnull = False,
                                 col_default = if a = Aff_Text then SqlText [] else SqlInt 0\<rparr>) bot_layout,
        bot_rows = [(1, [SqlText ''first'', SqlText [], SqlInt 1, SqlInt 0, SqlText ''tk'', SqlInt 0, SqlInt 0, SqlText []])],
        bot_limit = True\<rparr> = 2" by (simp add: new_rowid_def)
  have "api_get_bot (i64_to_string (new_rowid \<lparr>bot_cols = map (\<lambda>(n, a). \<lparr>col_name = n, col_affinity = a, col_notnull = False,
                                 col_default = if a = Aff_Text then SqlText [] else SqlInt 0\<rparr>) bot_layout,
        bot_rows = [(1, [SqlText ''first'', SqlText [], SqlInt 1, SqlInt 0, SqlText ''tk'', SqlInt 0, SqlInt 0, SqlText []])],
        bot_limit = True\<rparr>)) None
     (snd (post_bot (Some (JObject [(''name'', JString ''second''), (''description'', JString ''d''), (''enable'', JBool True)]))
       \<lparr>bot_cols = map (\<lambda>(n, a). \<lparr>col_name = n, col_affinity = a, col_notnull = False,
                                 col_default = if a = Aff_Text then SqlText [] else SqlInt 0\<rparr>) bot_layout,
        bot_rows = [(1, [SqlText ''first'', SqlText [], SqlInt 1, SqlInt 0, SqlText ''tk'', SqlInt 0, SqlInt 0, SqlText []])],
        bot_limit = True\<rparr>)) =
   Ok_Bot_For_Get \<lparr>bfg_name = ''second'', bfg_description = ''d'', bfg_enable = True, bfg_registered = 0,
                   bfg_long_order = False, bfg_short_order = False, bfg_operate_type = []\<rparr>"
    by (subst post_bot_token_is_default [where opt = "[(''name'', ''second''), (''description'', ''d''), (''enable'', ''1'')]"
          and tok = "[]"]) (code_simp)+
  then show ?thesis by (simp only: n)
qed

end
