(* ===== verification/Spec2Isabelle.thy ===== *)
theory Spec2Isabelle
  imports FetchCli FetchRuns BotAdmin MarketApi "HOL-Library.Multiset"
begin

text \<open>
  \<^bold>\<open>A verification model of at-boom.\<close>

  at-boom is a set of Rust programs around one SQLite database. It has three parts.
  \<^item> \<open>fetch-ohlcv-rs\<close> (\<open>src/app/src/fetch-ohlcv-rs/src/main.rs\<close>) keeps a table of
    OHLCV candles up to date. For one key (exchange, pair, period) it resolves the resume
    point: the latest stored bucket time, or 1514764800 for a key with no data. It fetches
    the candles from that point from a remote provider. It then reconciles the store:
    deleting the candle at the resume point (the provider may have revised it), inserting
    the batch, and counting the missing buckets of the batch.
  \<^item> \<open>atb-db\<close> (\<open>src/app/lib/atb-db/src/lib.rs\<close>) is the database layer: the candle
    table (\<open>get_last_unixtime_from_ohlcv\<close>, \<open>delete_ohlcv\<close>,
    \<open>insert_ohlcv_list\<close>, \<open>get_ohlcv_list\<close>) and the \<open>bot\<close> table
    (\<open>insert_bot\<close>, \<open>update_bot\<close>, \<open>delete_bot\<close>, \<open>get_bot\<close>,
    \<open>get_bot_for_api\<close>, \<open>get_bot_list\<close>).
  \<^item> \<open>bot-admin\<close> and \<open>market-api-rs\<close> are a command line and an HTTP front end
    on the same tables. \<open>read-atb-config\<close> reads the YAML configuration, and
    \<open>AtbDB::connect\<close> opens the database it names; every program starts with them.

  \<^bold>\<open>Theories.\<close>
  \<^item> \<open>Prelude\<close>: Rust scalars (\<open>i64\<close> is \<open>int\<close> with checked \<open>+\<close>,
    \<open>-\<close>, \<open>/\<close>, the debug-build semantics), panics and SQLite errors as values,
    \<open>?\<close> as \<open>bind_res\<close>, \<open>str::parse::<i64>\<close> and \<open>i64::to_string\<close> with their round
    trip, and the shared list lemmas.
  \<^item> \<open>Json\<close>: the part of \<open>serde_json::Value\<close> the code uses.
  \<^item> \<open>OhlcvStore\<close>: the candle table as a list of rows in rowid order, with its
    abstraction \<open>candles\<close>, a finite map from key to prices. Two schema properties the
    repository does not fix are state: whether the key is unique, and whether SQLite accepts
    \<open>DELETE \<dots> LIMIT\<close>.
  \<^item> \<open>GapAnalysis\<close>: \<open>gap_analysis\<close> (main.rs 204-227), the loop as the recursive
    \<open>lack_loop\<close>, with reference functions \<open>gap_total\<close> and \<open>gap_ranges\<close> and the set
    of missing buckets \<open>missing_buckets\<close>.
  \<^item> \<open>FetchOhlcv\<close>: \<open>get_ohlcv_setting\<close>, \<open>fetch_ohlcv_from_cryptowat\<close>,
    \<open>store_ohlcv_to_database\<close> and \<open>main\<close>. A run maps the database state to a result
    and the new state: the error or panic on every branch, and the state at the point of
    failure. The provider is an input function of the query.
  \<^item> \<open>FetchRuns\<close>: \<open>fetch-ohlcv-rs\<close> run again and again on one key, as the batch job
    is meant to be (\<open>fetch_rounds\<close>, each run on the database the previous one left). A
    provider with a fixed feed (\<open>feed_remote\<close>: the feed's candles at or after the resume
    point, oldest first, at most \<open>k\<close> per page) is modelled from the spec's one-page
    fetcher.
  \<^item> \<open>BotStore\<close>: the \<open>bot\<close> table with an explicit schema (its columns, affinities,
    \<open>NOT NULL\<close> flags and defaults), SQLite's dynamic values and the row closures of
    the reads, with the abstraction \<open>bot_map\<close> from id to row.
  \<^item> \<open>Clap\<close>: what the code relies on from clap 2: \<open>ArgMatches\<close> as a record of
    option values and flags (\<open>value_of\<close>, \<open>is_present\<close>), a subcommand declaration
    (\<open>Arg::with_name\<close>, \<open>takes_value\<close>, \<open>possible_values\<close>, \<open>required\<close>) and
    \<open>clap_matches_ok\<close>, the matches clap can hand back for a declaration.
  \<^item> \<open>FetchCli\<close>: the command line of \<open>fetch-ohlcv-rs\<close> (\<open>get_args_matches\<close> and the
    \<open>value_of(\<dots>).unwrap()\<close>s of \<open>main\<close>, main.rs 50-83) in front of \<open>FetchOhlcv\<close>.
  \<^item> \<open>BotAdmin\<close>: \<open>bot-admin\<close> (\<open>src/app/src/bot-admin/src/main.rs\<close>). Its clap
    declaration is a list of \<open>Clap\<close> subcommands; \<open>get_config\<close> builds the option map (an association
    list, \<open>AList.update\<close> for \<open>HashMap::insert\<close>), and \<open>actual_main\<close> runs
    \<open>_add\<close>, \<open>_update\<close>, \<open>_remove\<close>, \<open>_get\<close> or \<open>_list\<close> on the table and
    returns the exit status.
  \<^item> \<open>AtbConfig\<close>: \<open>read-atb-config\<close> (\<open>AtbConf::load_conf\<close> and its getters) and
    \<open>AtbDB::connect\<close>. The environment variable, the file system, the YAML parser and
    whether r2d2 opens a pool are inputs; a YAML value is a \<open>json\<close> value.
  \<^item> \<open>MarketApi\<close>: \<open>market-api-rs\<close> (\<open>src/app/src/market-api-rs/src/main.rs\<close>):
    start-up (\<open>main\<close>, \<open>get_server_config\<close>, \<open>actual_main\<close>), the route table of
    \<open>run\<close> as \<open>api_handle\<close> on the database both tables live in, and the handlers
    \<open>get_ohlcv\<close>, \<open>post_bot\<close> (with \<open>_get_option\<close>) and \<open>get_bot\<close> (with
    \<open>_get_token\<close>). A panic inside \<open>web::block\<close> is a 500, one outside it drops
    the connection.
  \<^item> This theory: the programs as clients of one database. A \<open>client_call\<close> is a
    \<open>bot-admin\<close> run, an HTTP request or a \<open>fetch-ohlcv-rs\<close> run, and
    \<open>client_step\<close> commits one of them to the shared \<open>server_db\<close>.
    \<open>run_clients\<close> commits a list of them in order.

  \<^bold>\<open>What is proved.\<close>
  \<^item> Reconciliation (\<open>FetchOhlcv\<close>). With prior data, a batch starting at the
    watermark replaces the boundary candle with the refetched one and keeps all other
    candles (\<open>store_boundary_correction\<close>). The next run resumes at or after the newest
    candle stored (\<open>store_watermark_monotone\<close>). An empty or absent batch changes
    nothing, and a first run deletes nothing.
  \<^item> Repeated runs (\<open>FetchRuns\<close>). Idempotence: two runs on the same page from a
    non-default watermark both succeed, and the second leaves the set of rows the first left
    (\<open>store_idempotent\<close>, on a table with a unique key). Catch-up, the development's
    liveness property: against a strictly increasing feed served at least two candles per
    page, runs from an empty key all exit 0, and after as many runs as the feed is long the
    key holds exactly the feed (\<open>fetch_rounds_catch_up\<close>). The measure is the length of
    the stored prefix of the feed, which every run extends. With one candle per page the runs
    stall at the first candle, because each run refetches its boundary candle
    (\<open>fetch_rounds_single_page_stalls\<close>).
  \<^item> Defects of reconciliation. A key whose latest candle is exactly at 1514764800 is taken
    for an empty key: its revised prices are never stored, and without a unique key the bucket
    gets a second row (\<open>store_sentinel_collision\<close>). A malformed row panics after the boundary delete is committed, so that
    candle is lost. On SQLite without \<open>DELETE \<dots> LIMIT\<close> every run on a key with data
    exits 1.
  \<^item> Gap analysis (\<open>GapAnalysis\<close>). Under \<open>lack_bounds\<close> no step overflows or
    leaves chrono's range. The result equals the reference functions. On distinct
    aligned buckets the count is exactly the number of missing buckets in the range.
    None of the spec's data-shape faults is raised: each duplicate lowers the total by one, a
    negative period on any batch gives a negative total, and a neighbour off the grid is
    reported with the truncated count \<open>max 0 ((b - a) div p - 1)\<close>.
  \<^item> Candle store (\<open>OhlcvStore\<close>). \<open>delete_ohlcv\<close> and \<open>insert_ohlcv_list\<close>
    refine removal and first-write-wins insertion on \<open>candles\<close>. A refused duplicate
    is dropped silently.
  \<^item> Bot store (\<open>BotStore\<close>). Insert, update and delete refine the corresponding
    operations on \<open>bot_map\<close>. \<open>get_bot_list\<close> agrees with \<open>get_bot\<close>. On the expected schema and typed rows the
    reads return exactly the rows (\<open>get_bot_standard\<close>, \<open>get_bot_for_api_standard\<close>).
  \<^item> \<open>bot-admin\<close> (\<open>BotAdmin\<close>). \<open>add\<close> followed by \<open>get\<close> reads back what was
    given. An \<open>--operation\<close> argument makes \<open>add\<close> fail, and \<open>update\<close> with only an id
    fails. On every command line clap accepts and a typed table of the expected schema it
    exits with 0 or 1, never with a panic.
  \<^item> API (\<open>MarketApi\<close>). \<open>POST /bot\<close> inserts the bot but answers with bot 1.
    \<open>GET /bot/<id>\<close> returns a bot only from the row with that id and the request's
    token. A bot created through the API carries the schema's default token. The server
    serves exactly under the configuration conditions of \<open>market_api_main_serving\<close>.
  \<^item> Configuration (\<open>AtbConfig\<close>). \<open>connect\<close> panics exactly on a configuration file
    with no YAML document.
  \<^item> \<open>fetch-ohlcv-rs\<close> command line (\<open>FetchCli\<close>). On every matches clap accepts for
    the declaration, the three \<open>unwrap\<close>s succeed and the run is the \<open>FetchOhlcv\<close> run on
    the given key.
  \<^item> Across components (this theory). Any interleaving of \<open>bot-admin\<close> runs, API requests
    and \<open>fetch-ohlcv-rs\<close> runs keeps \<open>get_bot_list\<close> panic-free. After a successful
    \<open>fetch-ohlcv-rs\<close> run \<open>GET /ohlcv\<close> serves exactly the key's old candles, less the
    boundary candle, and the fetched batch: in rowid order on a table without the unique key,
    in bucket-time order through the key's index (\<open>fetch_then_serve\<close>).

  \<^bold>\<open>Bounds and termination.\<close> Every loop of the code runs over a finite list and is a
  structural recursion (\<open>fun\<close>/\<open>primrec\<close>), so no fuel is needed and every operation
  is total. The code has no loop whose end depends on the environment. Its one eventuality
  is across runs of the batch job: the catch-up theorem bounds the number of runs by the
  length of the provider's feed. \<open>lack_bounds\<close> is the assumption under
  which the arithmetic of the gap loop cannot overflow. The period is positive, and every
  bucket time and bucket time plus period lie in chrono's calendar range
  [-8334632851200, 8210298412799]. The batch has at most 2^62 elements, so the sum of
  the gap counts stays far inside \<open>i64\<close>. For a negative period the same calendar bounds
  suffice: each count lies between \<open>-(b - a) - 1\<close> and \<open>-1\<close>, so the total cannot overflow.

  \<^bold>\<open>Not modelled.\<close>
  \<^item> The r2d2 pool itself: whether it opens a path is an input, and its \<open>get().unwrap()\<close>s
    and transaction start-up are assumed to succeed.
  \<^item> HTTP transport, URL formatting and JSON decoding and encoding of bodies: the provider's
    answer and a request's decoded body are inputs, and a response records the value the
    handler serialises. actix's logging and its thread pool are not modelled; a request is
    handled as one step on the database.
  \<^item> clap's parser itself: the matches are an input, constrained by
    \<open>clap_matches_ok\<close> to what clap can return for the declaration. Printing of results is
    not modelled.
  \<^item> reqwest and serde in \<open>fetch_ohlcv_from_cryptowat\<close>: the provider's decoded answer is an
    input, so the remote fetcher and the JSON layer are modelled only from the decoded value
    on.
  \<^item> The candle table's schema beyond two facts. Whether the key is declared unique and
    whether \<open>DELETE \<dots> LIMIT\<close> is accepted are state fields. The period column is taken
    to have TEXT affinity, so periods compare as text. Under INTEGER or NUMERIC affinity SQLite
    would store a period text such as \<open>060\<close> as the integer \<open>60\<close> and serve it at
    \<open>/ohlcv/\<dots>/60\<close>. The model does not cover that, and no theorem about period texts is
    stated.
  \<^item> The YAML parser and the file system: their results are inputs of \<open>load_conf\<close>.
  \<^item> The release-build wrap-around of \<open>i64\<close>: the theorems show that no overflow
    happens in the cases they cover.
\<close>

section \<open>Clients of the shared database\<close>

text \<open>
  The programs run against one database. A client call is a \<open>bot-admin\<close> run, an HTTP
  request to the API server or a \<open>fetch-ohlcv\<close> run for a key against a provider; a
  history is a list of calls, each committed before the next.
\<close>

datatype client_call =
    Admin_Run subcommand
  | Api_Request http_request
  | Fetch_Run string string string remote

definition client_step :: "client_call \<Rightarrow> server_db \<Rightarrow> server_db" where
  "client_step c s =
     (case c of
        Admin_Run sc \<Rightarrow> s\<lparr>srv_bots := snd (bot_admin_main sc (srv_bots s))\<rparr>
      | Api_Request r \<Rightarrow> snd (api_handle r s)
      | Fetch_Run ex pa pe rmt \<Rightarrow> s\<lparr>srv_candles := snd (fetch_ohlcv_main (srv_candles s) ex pa pe rmt)\<rparr>)"

definition run_clients :: "client_call list \<Rightarrow> server_db \<Rightarrow> server_db" where
  "run_clients cs s = fold client_step cs s"

section \<open>Cross-component properties\<close>

lemma client_step_typed:
  assumes "standard_schema (bot_cols (srv_bots s))" and "rows_typed (srv_bots s)"
  shows "standard_schema (bot_cols (srv_bots (client_step c s))) \<and> rows_typed (srv_bots (client_step c s))"
proof (cases c)
  case (Admin_Run sc)
  then show ?thesis using assms admin_rows_typed [OF assms] by (simp add: client_step_def)
next
  case (Api_Request r)
  then show ?thesis
    using assms api_handle_bots [of r s] post_bot_rows_typed [OF assms] by (auto simp: client_step_def)
next
  case (Fetch_Run ex pa pe rmt)
  then show ?thesis using assms by (simp add: client_step_def)
qed

lemma run_clients_typed:
  "standard_schema (bot_cols (srv_bots s)) \<Longrightarrow> rows_typed (srv_bots s) \<Longrightarrow>
   standard_schema (bot_cols (srv_bots (run_clients cs s))) \<and> rows_typed (srv_bots (run_clients cs s))"
  by (induction cs arbitrary: s) (simp_all add: run_clients_def client_step_typed)

text \<open>
  Claim C21. The \<open>bot\<close> table is shared by \<open>bot-admin\<close> and the API server. On the schema
  the code expects, after any interleaving of \<open>bot-admin\<close> runs and HTTP requests every
  stored value still has its column's type, so \<open>get_bot_list\<close> returns every row and
  never panics in its unwrapping row closure.
\<close>

theorem clients_keep_bot_list_readable:
  assumes "standard_schema (bot_cols (srv_bots s))" and "rows_typed (srv_bots s)"
  shows "get_bot_list (srv_bots (run_clients cs s)) =
           Inr (map (\<lambda>r. bot_of_row (fst r) (snd r)) (bot_rows (srv_bots (run_clients cs s))))"
  using run_clients_typed [OF assms, of cs] by (simp add: get_bot_list_typed)

text \<open>
  Claim C27. Fetched candles are served. When a \<open>fetch-ohlcv\<close> run for a key whose period is
  the decimal rendering of an \<open>i64\<close> exits with 0 on a non-empty batch of distinct candles
  that are new for the key (apart from the boundary candle the run deletes),
  \<open>GET /ohlcv\<close> for that key answers with exactly the key's remaining stored candles and the
  fetched batch. On a table without the unique key SQLite scans in rowid order, so the old
  candles come first and the batch follows in the provider's order; with the unique key it
  reads the key's index, so the answer is in bucket-time order.
\<close>

theorem fetch_then_serve:
  assumes run: "fetch_ohlcv_main db ex pa pe rmt = (0, db')"
    and resp: "rmt ex pa pe (after (get_ohlcv_setting db ex pa pe)) = Inr (candle_response pe recs)"
    and ne: "recs \<noteq> []" and canon: "in_i64 p" "pe = i64_to_string p"
    and wf: "ohlcv_wf db" and dist: "distinct (map tuple_time recs)"
    and fresh: "\<forall>r \<in> set recs. (ex, pa, pe, tuple_time r) \<notin> dom (boundary_candles db (get_ohlcv_setting db ex pa pe))"
  shows "\<exists>xs. api_get_ohlcv db' ex pa pe = Ok_Ohlcv xs \<and>
           mset xs = mset (map row_tuple (filter (matches ex pa pe)
                       (ohlcv (snd (boundary_delete db (get_ohlcv_setting db ex pa pe)))))) + mset recs \<and>
           (if ohlcv_unique db then sorted (map tuple_time xs)
            else xs = map row_tuple (filter (matches ex pa pe)
                        (ohlcv (snd (boundary_delete db (get_ohlcv_setting db ex pa pe))))) @ recs)"
proof -
  let ?st = "get_ohlcv_setting db ex pa pe"
  let ?db1 = "snd (boundary_delete db ?st)"
  let ?rows = "filter (matches ex pa pe) (ohlcv ?db1) @ map (row_of ex pa pe) recs"
  have st: "st_exchange ?st = ex" "st_pair ?st = pa" "st_period ?st = pe"
    by (simp_all add: get_ohlcv_setting_def)
  obtain resp' rep where f: "fetch_ohlcv_from_cryptowat rmt ?st = Inr resp'"
    and s: "store_ohlcv_to_database db ?st resp' = (Inr rep, db')"
    using fetch_main_exit0 [OF run] by blast
  have "resp' = candle_response pe recs"
    using f resp by (simp add: fetch_ohlcv_from_cryptowat_def get_ohlcv_setting_def)
  then obtain c where del: "boundary_delete db ?st = (Inr c, ?db1)"
    and db': "db' = insert_ohlcv_list ?db1 ex pa pe recs"
    using store_Inr_rows [of db ?st recs rep db'] s ne st by auto
  have "candles ?db1 = boundary_candles db ?st" by (rule boundary_delete_Inr [OF del wf])
  then have "ohlcv db' = ohlcv ?db1 @ map (row_of ex pa pe) recs"
    using insert_ohlcv_list_fresh [OF dist, of ex pa pe ?db1] fresh db' by simp
  then have rows: "filter (matches ex pa pe) (ohlcv db') = ?rows"
    by (simp add: comp_def)
  have uq: "ohlcv_unique db' = ohlcv_unique db"
    using fetch_main_unique_wf [of db ex pa pe rmt] run by simp
  have rt: "map row_tuple (map (row_of ex pa pe) recs) = recs"
    by (induction recs) simp_all
  then have rtm: "image_mset row_tuple (image_mset (row_of ex pa pe) (mset recs)) = mset recs"
    by (metis mset_map)
  have tt: "map tuple_time (map row_tuple xs) = map unixtime xs" for xs
    by (simp add: tuple_time_def row_tuple_def)
  have get: "api_get_ohlcv db' ex pa pe =
               Ok_Ohlcv (map row_tuple (if ohlcv_unique db then sort_key unixtime ?rows else ?rows))"
    using canon rows uq by (simp add: api_get_ohlcv_def get_ohlcv_list_def Let_def)
  show ?thesis
    using get rt rtm by (auto simp: tt comp_def simp del: map_map)
qed

section \<open>Witnesses\<close>

theorem clients_keep_bot_list_readable_witness:
  "get_bot_list (srv_bots (run_clients
     [Admin_Run (Some (''add'', \<lparr>am_values = [(''name'', ''a''), (''description'', ''b''), (''enable'', ''true'')], am_flags = []\<rparr>)),
      Api_Request \<lparr>req_method = POST, req_path = [''bot''], req_token = None,
        req_body = Some (JObject [(''name'', JString ''c''), (''description'', JString ''d''), (''enable'', JBool False)])\<rparr>]
     \<lparr>srv_candles = \<lparr>ohlcv = [], ohlcv_unique = True, delete_limit = True\<rparr>,
      srv_bots = \<lparr>bot_cols = map (\<lambda>(n, a). \<lparr>col_name = n, col_affinity = a, col_notnull = False,
                                 col_default = if a = Aff_Text then SqlText [] else SqlInt 0\<rparr>) bot_layout,
                  bot_rows = [], bot_limit = True\<rparr>\<rparr>)) =
   Inr (map (\<lambda>r. bot_of_row (fst r) (snd r)) (bot_rows (srv_bots (run_clients
     [Admin_Run (Some (''add'', \<lparr>am_values = [(''name'', ''a''), (''description'', ''b''), (''enable'', ''true'')], am_flags = []\<rparr>)),
      Api_Request \<lparr>req_method = POST, req_path = [''bot''], req_token = None,
        req_body = Some (JObject [(''name'', JString ''c''), (''description'', JString ''d''), (''enable'', JBool False)])\<rparr>]
     \<lparr>srv_candles = \<lparr>ohlcv = [], ohlcv_unique = True, delete_limit = True\<rparr>,
      srv_bots = \<lparr>bot_cols = map (\<lambda>(n, a). \<lparr>col_name = n, col_affinity = a, col_notnull = False,
                                 col_default = if a = Aff_Text then SqlText [] else SqlInt 0\<rparr>) bot_layout,
                  bot_rows = [], bot_limit = True\<rparr>\<rparr>))))"
  by (rule clients_keep_bot_list_readable) (simp_all add: standard_schema_def bot_layout_def rows_typed_def)

theorem fetch_then_serve_witness:
  "\<exists>xs. api_get_ohlcv (snd (fetch_ohlcv_main
      \<lparr>ohlcv = [row_of ''ex'' ''pa'' ''60'' (1, 2, 0, 1, 5, 1514764860)], ohlcv_unique = True, delete_limit = True\<rparr>
      ''ex'' ''pa'' ''60''
      (\<lambda>_ _ pe a. Inr (candle_response pe [(3, 4, 2, 3, 7, 1514764920), (3, 4, 2, 3, 7, 1514764860)]))))
     ''ex'' ''pa'' ''60'' = Ok_Ohlcv xs \<and>
     mset xs = mset (map row_tuple (filter (matches ''ex'' ''pa'' ''60'')
       (ohlcv (snd (boundary_delete
          \<lparr>ohlcv = [row_of ''ex'' ''pa'' ''60'' (1, 2, 0, 1, 5, 1514764860)], ohlcv_unique = True, delete_limit = True\<rparr>
          (get_ohlcv_setting \<lparr>ohlcv = [row_of ''ex'' ''pa'' ''60'' (1, 2, 0, 1, 5, 1514764860)], ohlcv_unique = True,
             delete_limit = True\<rparr> ''ex'' ''pa'' ''60'')))))) +
       mset [(3, 4, 2, 3, 7, 1514764920), (3, 4, 2, 3, 7, 1514764860)] \<and>
     (if ohlcv_unique \<lparr>ohlcv = [row_of ''ex'' ''pa'' ''60'' (1, 2, 0, 1, 5, 1514764860)], ohlcv_unique = True,
           delete_limit = True\<rparr>
      then sorted (map tuple_time xs)
      else xs = map row_tuple (filter (matches ''ex'' ''pa'' ''60'')
       (ohlcv (snd (boundary_delete
          \<lparr>ohlcv = [row_of ''ex'' ''pa'' ''60'' (1, 2, 0, 1, 5, 1514764860)], ohlcv_unique = True, delete_limit = True\<rparr>
          (get_ohlcv_setting \<lparr>ohlcv = [row_of ''ex'' ''pa'' ''60'' (1, 2, 0, 1, 5, 1514764860)], ohlcv_unique = True,
             delete_limit = True\<rparr> ''ex'' ''pa'' ''60''))))) @
       [(3, 4, 2, 3, 7, 1514764920), (3, 4, 2, 3, 7, 1514764860)])"
proof -
  let ?db = "\<lparr>ohlcv = [row_of ''ex'' ''pa'' ''60'' (1, 2, 0, 1, 5, 1514764860)], ohlcv_unique = True, delete_limit = True\<rparr>"
  let ?r = "\<lambda>(_::string) (_::string) pe (a::int). Inr (candle_response pe [(3, 4, 2, 3, 7, 1514764920), (3, 4, 2, 3, 7, 1514764860)]) :: fetch_error + json"
  have run: "fetch_ohlcv_main ?db ''ex'' ''pa'' ''60'' ?r = (0, snd (fetch_ohlcv_main ?db ''ex'' ''pa'' ''60'' ?r))"
    by code_simp
  have canon: "''60'' = i64_to_string 60" by code_simp
  show ?thesis
    by (rule fetch_then_serve [OF run _ _ _ canon])
       (simp_all add: in_i64_iff ohlcv_wf_def tuple_time_def boundary_candles_def candles_def get_ohlcv_setting_def
          get_last_unixtime_from_ohlcv_def matches_def epoch_default_def row_key_def row_prices_def)
qed

end
